(* ===== verification/Go_Prelude.thy ===== *)
theory Go_Prelude
  imports Complex_Main "HOL-Library.Word"
begin

text \<open>
  The vocabulary every component of the development shares.

  \<^item> \<open>uuid\<close> (a \<open>uuid.UUID\<close> is sixteen bytes) and \<open>instant\<close> (a \<open>time.Time\<close> as the number
    of nanoseconds since the epoch).
  \<^item> Go's \<open>error\<close> values: the sentinels of \<open>internal/job/errors.go\<close> and
    \<open>internal/auth/errors.go\<close>, the driver's errors, and \<open>fmt.Errorf(\<dots>%w\<dots>)\<close> chains, with
    \<open>errors.Is\<close> and \<open>errors.As\<close> as walks along the chain.
  \<^item> A fallible, effectful Go function as a function from a state of type \<open>'w\<close> to a
    result (\<open>Inl\<close> an error, \<open>Inr\<close> a value) and the next state, and the statement
    \<open>x, err := m; if err != nil { return f(err) }; k(x)\<close> as \<open>check m f k\<close>.
  \<^item> A small program logic for such functions: \<open>keeps R m\<close> (every run of \<open>m\<close> relates its
    first and its last state by \<open>R\<close>) and \<open>hoare P m Q E\<close> (a triple with one
    postcondition for values and one for errors).
  \<^item> Facts on association by key in lists of rows, and on stable sorting, which the
    database model uses.
\<close>

section \<open>Collections of the development\<close>

named_theorems keeps_intros \<open>introduction rules for \<open>keeps\<close>\<close>
named_theorems hoare_intros \<open>introduction rules for \<open>hoare\<close>\<close>
named_theorems go_simps \<open>unfolding rules for the Go control structures\<close>

section \<open>Basic types\<close>

type_synonym uuid = "128 word"
type_synonym instant = int
type_synonym bytes = string

text \<open>A double-precision number of Go, Python or Postgres. Arithmetic on finite ones is that of the reals.\<close>

datatype float64 = Fin real | PosInf | NegInf | NaN

text \<open>Go's fixed-width signed arithmetic: \<open>int32\<close> and \<open>int64\<close> values are integers, and an
  addition or a conversion wraps around in two's complement.\<close>

definition wrap32 :: "int \<Rightarrow> int" where
  "wrap32 x = (x + 2 ^ 31) mod 2 ^ 32 - 2 ^ 31"

definition in_int32 :: "int \<Rightarrow> bool" where
  "in_int32 x \<longleftrightarrow> - (2 ^ 31) \<le> x \<and> x < 2 ^ 31"

definition in_int64 :: "int \<Rightarrow> bool" where
  "in_int64 x \<longleftrightarrow> - (2 ^ 63) \<le> x \<and> x < 2 ^ 63"

lemma wrap32_id [simp]: "in_int32 x \<Longrightarrow> wrap32 x = x"
  by (simp add: wrap32_def in_int32_def)

lemma wrap32_range [simp]: "in_int32 (wrap32 x)"
proof -
  have "0 \<le> (x + 2 ^ 31) mod 2 ^ 32" and "(x + 2 ^ 31) mod 2 ^ 32 < (2 ^ 32 :: int)"
    by simp_all
  then show ?thesis by (simp add: wrap32_def in_int32_def)
qed

section \<open>Errors\<close>

text \<open>The sentinel errors of \<open>internal/job/errors.go\<close> and \<open>internal/auth/errors.go\<close>.\<close>

datatype job_sentinel =
    NotFound | DuplicateRequest | InvalidTransition | NotCancellable | NotRetryable

datatype auth_sentinel =
    EmailTaken | InvalidCredentials | UserNotFound | APIKeyNotFound | InvalidAPIKey | InvalidToken

text \<open>An \<open>error\<close> value: a sentinel, \<open>pgx.ErrNoRows\<close>, a \<open>*pgconn.PgError\<close> with its SQLSTATE
  code, any other failure of a call that leaves the process, a message made by
  \<open>fmt.Errorf\<close> without a cause, or one that wraps a cause with \<open>%w\<close>. A panic that unwinds the
  handler is kept as a value of its own, which no code tests for or wraps.\<close>

datatype error =
    JobErr job_sentinel
  | AuthErr auth_sentinel
  | ErrNoRows
  | PgError string
  | ErrIO string
  | ErrMsg string
  | Panic string
  | Errorf string error

abbreviation ErrNotFound :: error where "ErrNotFound \<equiv> JobErr NotFound"
abbreviation ErrNotCancellable :: error where "ErrNotCancellable \<equiv> JobErr NotCancellable"
abbreviation ErrNotRetryable :: error where "ErrNotRetryable \<equiv> JobErr NotRetryable"
abbreviation ErrEmailTaken :: error where "ErrEmailTaken \<equiv> AuthErr EmailTaken"
abbreviation ErrInvalidCredentials :: error where "ErrInvalidCredentials \<equiv> AuthErr InvalidCredentials"
abbreviation ErrUserNotFound :: error where "ErrUserNotFound \<equiv> AuthErr UserNotFound"
abbreviation ErrAPIKeyNotFound :: error where "ErrAPIKeyNotFound \<equiv> AuthErr APIKeyNotFound"
abbreviation ErrInvalidAPIKey :: error where "ErrInvalidAPIKey \<equiv> AuthErr InvalidAPIKey"
abbreviation ErrInvalidToken :: error where "ErrInvalidToken \<equiv> AuthErr InvalidToken"

text \<open>\<open>errors.Is(err, target)\<close>: the target occurs in the chain of causes.\<close>

fun errors_Is :: "error \<Rightarrow> error \<Rightarrow> bool" where
  "errors_Is (Errorf m e) target = (Errorf m e = target \<or> errors_Is e target)"
| "errors_Is e target = (e = target)"

text \<open>\<open>errors.As(err, &pgErr)\<close>: the code of the first driver error in the chain.\<close>

fun errors_As_PgError :: "error \<Rightarrow> string option" where
  "errors_As_PgError (PgError c) = Some c"
| "errors_As_PgError (Errorf m e) = errors_As_PgError e"
| "errors_As_PgError _ = None"

lemma errors_Is_refl [simp]: "errors_Is e e"
  by (cases e) simp_all

section \<open>Fallible functions with a state\<close>

type_synonym ('w, 'a) go = "'w \<Rightarrow> (error + 'a) \<times> 'w"

definition ret :: "'a \<Rightarrow> ('w, 'a) go" where
  "ret x = (\<lambda>w. (Inr x, w))"

definition fail :: "error \<Rightarrow> ('w, 'a) go" where
  "fail e = (\<lambda>w. (Inl e, w))"

definition check :: "('w, 'a) go \<Rightarrow> (error \<Rightarrow> error) \<Rightarrow> ('a \<Rightarrow> ('w, 'b) go) \<Rightarrow> ('w, 'b) go" where
  "check m f k = (\<lambda>w. case m w of (Inl e, w') \<Rightarrow> (Inl (f e), w') | (Inr x, w') \<Rightarrow> k x w')"

text \<open>\<open>_ = m\<close>: run \<open>m\<close>, drop its result and its error, go on with \<open>k\<close>.\<close>

definition ignore :: "('w, 'a) go \<Rightarrow> ('w, 'b) go \<Rightarrow> ('w, 'b) go" where
  "ignore m k = (\<lambda>w. k (snd (m w)))"

lemma ret_apply [simp, go_simps]: "ret x w = (Inr x, w)"
  by (simp add: ret_def)

lemma fail_apply [simp, go_simps]: "fail e w = (Inl e, w)"
  by (simp add: fail_def)

lemma check_Inl [simp]: "m w = (Inl e, w') \<Longrightarrow> check m f k w = (Inl (f e), w')"
  by (simp add: check_def)

lemma check_Inr [simp]: "m w = (Inr x, w') \<Longrightarrow> check m f k w = k x w'"
  by (simp add: check_def)

lemma check_apply [go_simps]:
  "check m f k w = (case m w of (Inl e, w') \<Rightarrow> (Inl (f e), w') | (Inr x, w') \<Rightarrow> k x w')"
  by (simp add: check_def)

lemma ignore_apply [simp, go_simps]: "ignore m k w = k (snd (m w))"
  by (simp add: ignore_def)

lemma check_assoc: "check (check m f k) g h = check m (\<lambda>e. g (f e)) (\<lambda>x. check (k x) g h)"
  by (auto simp: check_def fun_eq_iff split: prod.splits sum.splits)

lemma check_ret: "check (ret x) f k = k x"
  by (simp add: check_def fun_eq_iff)

lemma check_eq_InrE:
  assumes "check m f k w = (Inr y, w'')"
  obtains x w' where "m w = (Inr x, w')" and "k x w' = (Inr y, w'')"
  using assms by (auto simp: check_def split: prod.splits sum.splits)

lemma check_eq_InlE:
  assumes "check m f k w = (Inl e, w'')"
  obtains (first) e' where "m w = (Inl e', w'')" and "e = f e'"
    | (rest) x w' where "m w = (Inr x, w')" and "k x w' = (Inl e, w'')"
  using assms by (auto simp: check_def split: prod.splits sum.splits)

subsection \<open>Relations every run keeps\<close>

definition keeps :: "('w \<Rightarrow> 'w \<Rightarrow> bool) \<Rightarrow> ('w, 'a) go \<Rightarrow> bool" where
  "keeps R m \<longleftrightarrow> (\<forall>w. R w (snd (m w)))"

lemma keepsI: "(\<And>w. R w (snd (m w))) \<Longrightarrow> keeps R m"
  by (simp add: keeps_def)

lemma keepsD: "keeps R m \<Longrightarrow> m w = (r, w') \<Longrightarrow> R w w'"
  by (metis keeps_def snd_conv)

lemma keeps_ret [keeps_intros]: "reflp R \<Longrightarrow> keeps R (ret x)"
  by (simp add: keeps_def reflp_def)

lemma keeps_fail [keeps_intros]: "reflp R \<Longrightarrow> keeps R (fail e)"
  by (simp add: keeps_def reflp_def)

lemma keeps_check [keeps_intros]:
  assumes "transp R" and m: "keeps R m" and k: "\<And>x. keeps R (k x)"
  shows "keeps R (check m f k)"
proof (rule keepsI)
  fix w
  obtain r w' where mw: "m w = (r, w')" by (cases "m w")
  have R1: "R w w'" using keepsD [OF m mw] .
  show "R w (snd (check m f k w))"
  proof (cases r)
    case (Inl e)
    with mw R1 show ?thesis by simp
  next
    case (Inr x)
    have "R w' (snd (k x w'))" using k [of x] by (simp add: keeps_def)
    with assms(1) R1 mw Inr show ?thesis by (auto dest: transpD)
  qed
qed

lemma keeps_ignore [keeps_intros]:
  "transp R \<Longrightarrow> keeps R m \<Longrightarrow> keeps R k \<Longrightarrow> keeps R (ignore m k)"
  unfolding keeps_def by (auto dest: transpD)

lemma keeps_if [keeps_intros]:
  "(b \<Longrightarrow> keeps R m) \<Longrightarrow> (\<not> b \<Longrightarrow> keeps R k) \<Longrightarrow> keeps R (if b then m else k)"
  by simp

lemma keeps_mono: "keeps R m \<Longrightarrow> (\<And>w w'. R w w' \<Longrightarrow> R' w w') \<Longrightarrow> keeps R' m"
  by (simp add: keeps_def)

text \<open>An invariant as a relation between the first and the last state of a run.\<close>

definition inv_rel :: "('w \<Rightarrow> bool) \<Rightarrow> 'w \<Rightarrow> 'w \<Rightarrow> bool" where
  "inv_rel I w w' \<longleftrightarrow> (I w \<longrightarrow> I w')"

lemma reflp_inv_rel [simp]: "reflp (inv_rel I)"
  by (simp add: inv_rel_def reflp_def)

lemma transp_inv_rel [simp]: "transp (inv_rel I)"
  by (auto simp: inv_rel_def transp_def)

lemma reflp_rtranclp [simp]: "reflp (r\<^sup>*\<^sup>*)"
  by (simp add: reflp_def)

lemma transp_rtranclp [simp]: "transp (r\<^sup>*\<^sup>*)"
  by (auto simp: transp_def)

subsection \<open>Triples\<close>

definition hoare ::
  "('w \<Rightarrow> bool) \<Rightarrow> ('w, 'a) go \<Rightarrow> ('a \<Rightarrow> 'w \<Rightarrow> bool) \<Rightarrow> (error \<Rightarrow> 'w \<Rightarrow> bool) \<Rightarrow> bool" where
  "hoare P m Q E \<longleftrightarrow>
     (\<forall>w. P w \<longrightarrow> (case m w of (Inr x, w') \<Rightarrow> Q x w' | (Inl e, w') \<Rightarrow> E e w'))"

lemma hoare_InrD: "hoare P m Q E \<Longrightarrow> P w \<Longrightarrow> m w = (Inr x, w') \<Longrightarrow> Q x w'"
  by (fastforce simp: hoare_def)

lemma hoare_InlD: "hoare P m Q E \<Longrightarrow> P w \<Longrightarrow> m w = (Inl e, w') \<Longrightarrow> E e w'"
  by (fastforce simp: hoare_def)

lemma hoareI:
  assumes "\<And>w x w'. P w \<Longrightarrow> m w = (Inr x, w') \<Longrightarrow> Q x w'"
    and "\<And>w e w'. P w \<Longrightarrow> m w = (Inl e, w') \<Longrightarrow> E e w'"
  shows "hoare P m Q E"
  using assms by (auto simp: hoare_def split: prod.splits sum.splits)

lemma hoare_ret [hoare_intros]: "(\<And>w. P w \<Longrightarrow> Q x w) \<Longrightarrow> hoare P (ret x) Q E"
  by (simp add: hoare_def)

lemma hoare_fail [hoare_intros]: "(\<And>w. P w \<Longrightarrow> E e w) \<Longrightarrow> hoare P (fail e) Q E"
  by (simp add: hoare_def)

lemma hoare_check [hoare_intros]:
  assumes "hoare P m M (\<lambda>e. E (f e))" and "\<And>x. hoare (M x) (k x) Q E"
  shows "hoare P (check m f k) Q E"
proof (rule hoareI)
  fix w y w'' assume "P w" and "check m f k w = (Inr y, w'')"
  then show "Q y w''"
    by (auto elim!: check_eq_InrE dest: hoare_InrD [OF assms(1)] hoare_InrD [OF assms(2)])
next
  fix w e w'' assume "P w" and "check m f k w = (Inl e, w'')"
  then show "E e w''"
    by (auto elim!: check_eq_InlE dest: hoare_InrD [OF assms(1)] hoare_InlD [OF assms(1)]
        hoare_InlD [OF assms(2)])
qed

lemma hoare_weaken:
  assumes "hoare P m Q E" and "\<And>w. P' w \<Longrightarrow> P w"
    and "\<And>x w. Q x w \<Longrightarrow> Q' x w" and "\<And>e w. E e w \<Longrightarrow> E' e w"
  shows "hoare P' m Q' E'"
  using assms unfolding hoare_def by (fastforce split: prod.splits sum.splits)

section \<open>Rows addressed by a key\<close>

text \<open>Tables are lists of rows. \<open>update_where p f\<close> is SQL's \<open>UPDATE \<dots> SET f WHERE p\<close>.\<close>

definition update_where :: "('a \<Rightarrow> bool) \<Rightarrow> ('a \<Rightarrow> 'a) \<Rightarrow> 'a list \<Rightarrow> 'a list" where
  "update_where p f rows = map (\<lambda>r. if p r then f r else r) rows"

lemma update_where_Nil [simp]: "update_where p f [] = []"
  by (simp add: update_where_def)

lemma update_where_Cons [simp]:
  "update_where p f (r # rows) = (if p r then f r else r) # update_where p f rows"
  by (simp add: update_where_def)

lemma set_update_where:
  "set (update_where p f rows) = {r \<in> set rows. \<not> p r} \<union> f ` {r \<in> set rows. p r}"
  by (auto simp: update_where_def)

lemma map_update_where: "(\<And>r. p r \<Longrightarrow> k (f r) = k r) \<Longrightarrow> map k (update_where p f rows) = map k rows"
  by (simp add: update_where_def)

lemma update_where_none: "(\<And>r. r \<in> set rows \<Longrightarrow> \<not> p r) \<Longrightarrow> update_where p f rows = rows"
  by (induction rows) auto

lemma find_eq_Some_mem: "find p xs = Some x \<Longrightarrow> x \<in> set xs \<and> p x"
  by (induction xs) (auto split: if_splits)

lemma find_None_mem: "find p xs = None \<longleftrightarrow> (\<forall>x \<in> set xs. \<not> p x)"
  by (induction xs) auto

lemma find_distinct_key:
  assumes "distinct (map k xs)" and "x \<in> set xs" and "p x" and "\<And>y. p y \<Longrightarrow> k y = k x"
  shows "find p xs = Some x"
  using assms
proof (induction xs)
  case (Cons y ys)
  show ?case
  proof (cases "p y")
    case True
    then have "k y = k x" by (rule Cons.prems(4))
    then have "y = x" using Cons.prems(1,2) by (auto simp: image_iff)
    with True show ?thesis by simp
  next
    case False
    then have "x \<in> set ys" using Cons.prems(2,3) by auto
    moreover have "distinct (map k ys)" using Cons.prems(1) by simp
    ultimately have "find p ys = Some x" by (intro Cons.IH Cons.prems(3,4))
    with False show ?thesis by simp
  qed
qed simp

lemma distinct_map_eq: "distinct (map k xs) \<Longrightarrow> x \<in> set xs \<Longrightarrow> y \<in> set xs \<Longrightarrow> k x = k y \<Longrightarrow> x = y"
  by (simp add: distinct_map inj_on_def)

end
