(* ===== verification/Job_Model.thy ===== *)
theory Job_Model
  imports Go_Prelude
begin

text \<open>
  The domain types and the state machine of \<open>src/api/internal/job/job.go\<close>.

  \<open>Status\<close> and \<open>EventType\<close> are Go string types with named constants, so a value need not
  be one of the constants (a \<open>?status=\<close> filter is any string); the constants are opaque
  definitions with their distinctness as simplification rules. The table \<open>transitions\<close> is
  a Go map whose missing keys read as the empty slice. An optional field (\<open>*string\<close>,
  \<open>*time.Time\<close>, \<open>*float64\<close>) is an option; a \<open>float64\<close> is a real (its finite values).
\<close>

section \<open>Statuses and event types\<close>

type_synonym Status = string
type_synonym EventType = string

definition StatusPending :: Status where "StatusPending = ''pending''"
definition StatusQueued :: Status where "StatusQueued = ''queued''"
definition StatusProcessing :: Status where "StatusProcessing = ''processing''"
definition StatusRetrying :: Status where "StatusRetrying = ''retrying''"
definition StatusSucceeded :: Status where "StatusSucceeded = ''succeeded''"
definition StatusFailed :: Status where "StatusFailed = ''failed''"
definition StatusCancelled :: Status where "StatusCancelled = ''cancelled''"

definition EventCreated :: EventType where "EventCreated = ''created''"
definition EventQueued :: EventType where "EventQueued = ''queued''"
definition EventLeased :: EventType where "EventLeased = ''leased''"
definition EventProgress :: EventType where "EventProgress = ''progress''"
definition EventSucceeded :: EventType where "EventSucceeded = ''succeeded''"
definition EventFailed :: EventType where "EventFailed = ''failed''"
definition EventRetrying :: EventType where "EventRetrying = ''retrying''"
definition EventCancelled :: EventType where "EventCancelled = ''cancelled''"

lemmas status_defs = StatusPending_def StatusQueued_def StatusProcessing_def StatusRetrying_def
  StatusSucceeded_def StatusFailed_def StatusCancelled_def

lemmas event_defs = EventCreated_def EventQueued_def EventLeased_def EventProgress_def
  EventSucceeded_def EventFailed_def EventRetrying_def EventCancelled_def

text \<open>The seven statuses, in the order of the declaration, are pairwise different.\<close>

definition all_statuses :: "Status list" where
  "all_statuses = [StatusPending, StatusQueued, StatusProcessing, StatusRetrying,
     StatusSucceeded, StatusFailed, StatusCancelled]"

lemma distinct_all_statuses: "distinct all_statuses"
  by (simp add: all_statuses_def status_defs)

lemma status_neq [simp]:
  "StatusPending \<noteq> StatusQueued" "StatusPending \<noteq> StatusProcessing" "StatusPending \<noteq> StatusRetrying"
  "StatusPending \<noteq> StatusSucceeded" "StatusPending \<noteq> StatusFailed" "StatusPending \<noteq> StatusCancelled"
  "StatusQueued \<noteq> StatusPending" "StatusQueued \<noteq> StatusProcessing" "StatusQueued \<noteq> StatusRetrying"
  "StatusQueued \<noteq> StatusSucceeded" "StatusQueued \<noteq> StatusFailed" "StatusQueued \<noteq> StatusCancelled"
  "StatusProcessing \<noteq> StatusPending" "StatusProcessing \<noteq> StatusQueued" "StatusProcessing \<noteq> StatusRetrying"
  "StatusProcessing \<noteq> StatusSucceeded" "StatusProcessing \<noteq> StatusFailed" "StatusProcessing \<noteq> StatusCancelled"
  "StatusRetrying \<noteq> StatusPending" "StatusRetrying \<noteq> StatusQueued" "StatusRetrying \<noteq> StatusProcessing"
  "StatusRetrying \<noteq> StatusSucceeded" "StatusRetrying \<noteq> StatusFailed" "StatusRetrying \<noteq> StatusCancelled"
  "StatusSucceeded \<noteq> StatusPending" "StatusSucceeded \<noteq> StatusQueued" "StatusSucceeded \<noteq> StatusProcessing"
  "StatusSucceeded \<noteq> StatusRetrying" "StatusSucceeded \<noteq> StatusFailed" "StatusSucceeded \<noteq> StatusCancelled"
  "StatusFailed \<noteq> StatusPending" "StatusFailed \<noteq> StatusQueued" "StatusFailed \<noteq> StatusProcessing"
  "StatusFailed \<noteq> StatusRetrying" "StatusFailed \<noteq> StatusSucceeded" "StatusFailed \<noteq> StatusCancelled"
  "StatusCancelled \<noteq> StatusPending" "StatusCancelled \<noteq> StatusQueued" "StatusCancelled \<noteq> StatusProcessing"
  "StatusCancelled \<noteq> StatusRetrying" "StatusCancelled \<noteq> StatusSucceeded" "StatusCancelled \<noteq> StatusFailed"
  by (simp_all add: status_defs)

definition all_event_types :: "EventType list" where
  "all_event_types = [EventCreated, EventQueued, EventLeased, EventProgress,
     EventSucceeded, EventFailed, EventRetrying, EventCancelled]"

section \<open>Jobs, events, transcripts\<close>

record Job =
  job_ID :: uuid
  job_UserID :: uuid
  job_Status :: Status
  job_IdempotencyKey :: "string option"
  job_ObjectKey :: string
  job_OriginalFilename :: string
  job_SizeBytes :: int
  job_DurationSeconds :: "float64 option"
  job_Model :: string
  job_Attempts :: int
  job_MaxAttempts :: int
  job_ErrorCode :: "string option"
  job_ErrorMessage :: "string option"
  job_WorkerID :: "string option"
  job_LeaseExpiresAt :: "instant option"
  job_CreatedAt :: instant
  job_StartedAt :: "instant option"
  job_FinishedAt :: "instant option"

record Event =
  ev_ID :: uuid
  ev_JobID :: uuid
  ev_EventType :: EventType
  ev_Payload :: bytes
  ev_CreatedAt :: instant

record Transcript =
  tr_ID :: uuid
  tr_JobID :: uuid
  tr_Text :: string
  tr_LanguageDetected :: string
  tr_LanguageProbability :: real
  tr_Model :: string
  tr_ProcessingSeconds :: real
  tr_RealTimeFactor :: real
  tr_CreatedAt :: instant

record Segment =
  seg_ID :: uuid
  seg_TranscriptID :: uuid
  seg_Idx :: int
  seg_StartMs :: int
  seg_EndMs :: int
  seg_Text :: string
  seg_AvgLogprob :: "real option"

section \<open>The transition table\<close>

definition transitions :: "Status \<Rightarrow> Status list" where
  "transitions s =
    (if s = StatusPending then [StatusQueued]
     else if s = StatusQueued then [StatusProcessing, StatusCancelled]
     else if s = StatusProcessing then [StatusSucceeded, StatusFailed, StatusRetrying, StatusCancelled]
     else if s = StatusRetrying then [StatusQueued]
     else [])"

text \<open>\<open>for _, next := range transitions[from] { if next == to { return true } }; return false\<close>\<close>

fun can_transition_loop :: "Status list \<Rightarrow> Status \<Rightarrow> bool" where
  "can_transition_loop [] to = False"
| "can_transition_loop (n # ns) to = (if n = to then True else can_transition_loop ns to)"

definition CanTransition :: "Status \<Rightarrow> Status \<Rightarrow> bool" where
  "CanTransition from to = can_transition_loop (transitions from) to"

definition CanCancel :: "Status \<Rightarrow> bool" where
  "CanCancel status = (status = StatusQueued \<or> status = StatusProcessing)"

definition CanRetry :: "Status \<Rightarrow> bool" where
  "CanRetry status = (status = StatusFailed)"

lemma can_transition_loop_set: "can_transition_loop ns to \<longleftrightarrow> to \<in> set ns"
  by (induction ns) auto

lemma CanTransition_set: "CanTransition from to \<longleftrightarrow> to \<in> set (transitions from)"
  by (simp add: CanTransition_def can_transition_loop_set)

subsection \<open>The machine as a relation\<close>

text \<open>The arrows of the diagram in \<open>src/ASR-PLATFORM-PLAN.md\<close>, section 3.\<close>

inductive job_arrow :: "Status \<Rightarrow> Status \<Rightarrow> bool" where
  accepted: "job_arrow StatusPending StatusQueued"
| claimed: "job_arrow StatusQueued StatusProcessing"
| finished: "job_arrow StatusProcessing StatusSucceeded"
| exhausted: "job_arrow StatusProcessing StatusFailed"
| reclaimed: "job_arrow StatusProcessing StatusRetrying"
| requeued: "job_arrow StatusRetrying StatusQueued"
| withdrawn: "s \<in> {StatusQueued, StatusProcessing} \<Longrightarrow> job_arrow s StatusCancelled"

inductive_cases job_arrow_pendingE: "job_arrow StatusPending t"
inductive_cases job_arrow_queuedE: "job_arrow StatusQueued t"
inductive_cases job_arrow_processingE: "job_arrow StatusProcessing t"

definition terminal :: "Status \<Rightarrow> bool" where
  "terminal s \<longleftrightarrow> s \<in> {StatusSucceeded, StatusFailed, StatusCancelled}"

lemma CanTransition_iff_arrow: "CanTransition from to \<longleftrightarrow> job_arrow from to"
proof
  assume "CanTransition from to"
  then show "job_arrow from to"
    by (auto simp: CanTransition_set transitions_def intro: job_arrow.intros split: if_splits)
next
  assume "job_arrow from to"
  then show "CanTransition from to"
    by (induction rule: job_arrow.induct) (auto simp: CanTransition_set transitions_def)
qed

lemma CanCancel_iff: "CanCancel s \<longleftrightarrow> CanTransition s StatusCancelled"
  by (auto simp: CanCancel_def CanTransition_set transitions_def)

lemma terminal_no_transition: "terminal s \<Longrightarrow> \<not> CanTransition s t"
  by (auto simp: terminal_def CanTransition_set transitions_def)

text \<open>Along the table every status of the schema leads to a terminal one, in at most four steps.\<close>

lemma leads_to_terminal:
  assumes "s \<in> set all_statuses"
  shows "\<exists>t. terminal t \<and> CanTransition\<^sup>*\<^sup>* s t"
proof -
  have p: "CanTransition StatusProcessing StatusSucceeded"
    and q: "CanTransition StatusQueued StatusProcessing"
    and r: "CanTransition StatusRetrying StatusQueued" and n: "CanTransition StatusPending StatusQueued"
    by (simp_all add: CanTransition_set transitions_def)
  have t: "terminal StatusSucceeded" by (simp add: terminal_def)
  have P: "CanTransition\<^sup>*\<^sup>* StatusProcessing StatusSucceeded" using p by blast
  have Q: "CanTransition\<^sup>*\<^sup>* StatusQueued StatusSucceeded" using q P by (rule converse_rtranclp_into_rtranclp)
  have R: "CanTransition\<^sup>*\<^sup>* StatusRetrying StatusSucceeded" using r Q by (rule converse_rtranclp_into_rtranclp)
  have N: "CanTransition\<^sup>*\<^sup>* StatusPending StatusSucceeded" using n Q by (rule converse_rtranclp_into_rtranclp)
  show ?thesis
    using assms t P Q R N by (auto simp: all_statuses_def terminal_def)
qed

end
