(* ===== verification/Database.thy ===== *)
theory Database
  imports Job_Model
begin

text \<open>
  The relational state and the SQL statements of \<open>src/api/internal/store/db/\<close>, over the
  schema of \<open>src/api/internal/store/migrations/\<close>.

  A table is the list of its rows. A statement is a function of the transaction's \<open>now()\<close>
  and the database; it returns what the driver's \<open>Scan\<close> or \<open>RowsAffected\<close> returns, and the
  database after it. A statement that violates a constraint returns the driver error with
  the SQLSTATE code (23505 unique, 23503 foreign key, 23514 check, 22003 numeric range,
  2201W negative limit) and changes nothing. An \<open>ORDER BY\<close> is a stable sort, so rows that
  tie keep the table's order; Postgres promises no order among them.

  Postgres stores \<open>payload\<close> as jsonb; every payload the API writes is valid JSON and is kept
  as the text it is: nothing in the program looks inside, so the spacing and key order jsonb would
  give it do not matter. The trigger \<open>job_events_notify\<close> (migration 000009) appends one
  notification per inserted event to \<open>notify_queue\<close>. Its text must have fewer than 8000 bytes. The other
  fields take some three hundred bytes and the payload of every event of the API is \<open>{}\<close>, so only the worker's \<open>failed\<close> and \<open>retrying\<close> events, which
  carry an error message, can exceed the limit; the refusal of such an insert is a fault of the world (theory \<open>World\<close>), not a result of
  the statement, since the length of the text depends on how the server prints times and numbers.
\<close>

section \<open>Rows\<close>

record db_User =
  u_ID :: uuid
  u_Email :: string
  u_PasswordHash :: string
  u_CreatedAt :: instant

record db_ApiKey =
  k_ID :: uuid
  k_UserID :: uuid
  k_Name :: string
  k_KeyHash :: string
  k_LastUsedAt :: "instant option"
  k_CreatedAt :: instant
  k_RevokedAt :: "instant option"

text \<open>\<open>db.Job\<close> has the fields of \<open>job.Job\<close> and \<open>DeletedAt\<close>; \<open>db.JobEvent\<close>, \<open>db.Transcript\<close> and
  \<open>db.Segment\<close> have the fields of their domain types.\<close>

record db_Job = Job +
  job_DeletedAt :: "instant option"

type_synonym db_JobEvent = Event
type_synonym db_Transcript = Transcript
type_synonym db_Segment = Segment

text \<open>The JSON object the trigger builds, as \<open>ws.notification\<close> reads it.\<close>

record notification =
  n_JobID :: uuid
  n_UserID :: uuid
  n_EventType :: string
  n_Payload :: bytes
  n_CreatedAt :: instant
  n_DurationSeconds :: "float64 option"
  n_ElapsedSeconds :: real

record database =
  tbl_users :: "db_User list"
  tbl_api_keys :: "db_ApiKey list"
  tbl_jobs :: "db_Job list"
  tbl_transcripts :: "db_Transcript list"
  tbl_segments :: "db_Segment list"
  tbl_job_events :: "db_JobEvent list"
  notify_queue :: "notification list"

section \<open>The jobs table\<close>

record CreateJobParams =
  cj_ID :: uuid
  cj_UserID :: uuid
  cj_Status :: string
  cj_IdempotencyKey :: "string option"
  cj_ObjectKey :: string
  cj_OriginalFilename :: string
  cj_SizeBytes :: int
  cj_Model :: string

text \<open>\<open>row.Scan\<close> on the first row of the result, \<open>pgx.ErrNoRows\<close> when there is none.\<close>

definition scanJob :: "db_Job list \<Rightarrow> error + db_Job" where
  "scanJob rows = (case rows of [] \<Rightarrow> Inl ErrNoRows | r # _ \<Rightarrow> Inr r)"

definition new_job_row :: "CreateJobParams \<Rightarrow> instant \<Rightarrow> db_Job" where
  "new_job_row p now =
    \<lparr>job_ID = cj_ID p, job_UserID = cj_UserID p, job_Status = cj_Status p,
     job_IdempotencyKey = cj_IdempotencyKey p, job_ObjectKey = cj_ObjectKey p,
     job_OriginalFilename = cj_OriginalFilename p, job_SizeBytes = cj_SizeBytes p,
     job_DurationSeconds = None, job_Model = cj_Model p, job_Attempts = 0, job_MaxAttempts = 3,
     job_ErrorCode = None, job_ErrorMessage = None, job_WorkerID = None, job_LeaseExpiresAt = None,
     job_CreatedAt = now, job_StartedAt = None, job_FinishedAt = None, job_DeletedAt = None\<rparr>"

definition same_idem_key :: "uuid \<Rightarrow> string option \<Rightarrow> db_Job \<Rightarrow> bool" where
  "same_idem_key u k r \<longleftrightarrow> k \<noteq> None \<and> job_UserID r = u \<and> job_IdempotencyKey r = k"

definition q_CreateJob :: "CreateJobParams \<Rightarrow> instant \<Rightarrow> (database, db_Job) go" where
  "q_CreateJob p now d =
    (if cj_Status p \<notin> set all_statuses then (Inl (PgError ''23514''), d)
     else if \<exists>r \<in> set (tbl_jobs d). job_ID r = cj_ID p then (Inl (PgError ''23505''), d)
     else if \<exists>r \<in> set (tbl_jobs d). same_idem_key (cj_UserID p) (cj_IdempotencyKey p) r
       then (Inl (PgError ''23505''), d)
     else if \<not> (\<exists>u \<in> set (tbl_users d). u_ID u = cj_UserID p) then (Inl (PgError ''23503''), d)
     else (scanJob [new_job_row p now], d\<lparr>tbl_jobs := tbl_jobs d @ [new_job_row p now]\<rparr>))"

definition q_GetJobByID :: "uuid \<Rightarrow> uuid \<Rightarrow> instant \<Rightarrow> (database, db_Job) go" where
  "q_GetJobByID rid userID now d =
    (scanJob (filter (\<lambda>r. job_ID r = rid \<and> job_UserID r = userID \<and> job_DeletedAt r = None)
       (tbl_jobs d)), d)"

definition q_GetJobByIdempotencyKey :: "uuid \<Rightarrow> string \<Rightarrow> instant \<Rightarrow> (database, db_Job) go" where
  "q_GetJobByIdempotencyKey userID key now d =
    (scanJob (filter (\<lambda>r. job_UserID r = userID \<and> job_IdempotencyKey r = Some key
       \<and> job_DeletedAt r = None) (tbl_jobs d)), d)"

definition list_filter ::
  "uuid \<Rightarrow> string option \<Rightarrow> instant option \<Rightarrow> db_Job \<Rightarrow> bool" where
  "list_filter userID status cursor r \<longleftrightarrow>
     job_UserID r = userID \<and> job_DeletedAt r = None
     \<and> (case status of None \<Rightarrow> True | Some s \<Rightarrow> job_Status r = s)
     \<and> (case cursor of None \<Rightarrow> True | Some c \<Rightarrow> job_CreatedAt r < c)"

definition q_ListJobsByUser ::
  "uuid \<Rightarrow> string option \<Rightarrow> instant option \<Rightarrow> int \<Rightarrow> instant \<Rightarrow> (database, db_Job list) go" where
  "q_ListJobsByUser userID status cursor limit now d =
    (if limit < 0 then (Inl (PgError ''2201W''), d)
     else (Inr (take (nat limit)
       (sort_key (\<lambda>r. - job_CreatedAt r) (filter (list_filter userID status cursor) (tbl_jobs d)))), d))"

text \<open>\<open>UPDATE jobs SET f WHERE p RETURNING \<dots>\<close>, read with \<open>QueryRow\<close>.\<close>

definition update_jobs_returning ::
  "(db_Job \<Rightarrow> bool) \<Rightarrow> (db_Job \<Rightarrow> db_Job) \<Rightarrow> (database, db_Job) go" where
  "update_jobs_returning p f d =
    (scanJob (map f (filter p (tbl_jobs d))), d\<lparr>tbl_jobs := update_where p f (tbl_jobs d)\<rparr>)"

definition set_status :: "string \<Rightarrow> instant \<Rightarrow> 'a Job_scheme \<Rightarrow> 'a Job_scheme" where
  "set_status status now r = r\<lparr>job_Status := status,
     job_StartedAt := (if status = StatusProcessing \<and> job_StartedAt r = None then Some now
                       else job_StartedAt r),
     job_FinishedAt := (if status \<in> {StatusSucceeded, StatusFailed, StatusCancelled} then Some now
                        else job_FinishedAt r)\<rparr>"

definition q_UpdateJobStatus :: "uuid \<Rightarrow> string \<Rightarrow> instant \<Rightarrow> (database, db_Job) go" where
  "q_UpdateJobStatus rid status now d =
    (let p = (\<lambda>r. job_ID r = rid \<and> job_DeletedAt r = None)
     in if status \<notin> set all_statuses \<and> (\<exists>r \<in> set (tbl_jobs d). p r)
        then (Inl (PgError ''23514''), d)
        else update_jobs_returning p (set_status status now) d)"

definition reset_for_retry :: "'a Job_scheme \<Rightarrow> 'a Job_scheme" where
  "reset_for_retry r = r\<lparr>job_Status := StatusQueued, job_Attempts := 0, job_ErrorCode := None,
     job_ErrorMessage := None, job_WorkerID := None, job_LeaseExpiresAt := None,
     job_StartedAt := None, job_FinishedAt := None\<rparr>"

definition q_RetryJob :: "uuid \<Rightarrow> uuid \<Rightarrow> instant \<Rightarrow> (database, db_Job) go" where
  "q_RetryJob rid userID now =
    update_jobs_returning (\<lambda>r. job_ID r = rid \<and> job_UserID r = userID
      \<and> job_Status r = StatusFailed \<and> job_DeletedAt r = None) reset_for_retry"

definition set_cancelled :: "instant \<Rightarrow> 'a Job_scheme \<Rightarrow> 'a Job_scheme" where
  "set_cancelled now r = r\<lparr>job_Status := StatusCancelled, job_FinishedAt := Some now\<rparr>"

definition q_CancelJob :: "uuid \<Rightarrow> uuid \<Rightarrow> instant \<Rightarrow> (database, db_Job) go" where
  "q_CancelJob rid userID now =
    update_jobs_returning (\<lambda>r. job_ID r = rid \<and> job_UserID r = userID
      \<and> job_Status r \<in> {StatusQueued, StatusProcessing} \<and> job_DeletedAt r = None) (set_cancelled now)"

definition lease_expired :: "instant \<Rightarrow> db_Job \<Rightarrow> bool" where
  "lease_expired now r \<longleftrightarrow> job_Status r = StatusProcessing
     \<and> (case job_LeaseExpiresAt r of None \<Rightarrow> False | Some t \<Rightarrow> t < now) \<and> job_DeletedAt r = None"

definition q_ListExpiredLeases :: "instant \<Rightarrow> (database, db_Job list) go" where
  "q_ListExpiredLeases now d = (Inr (filter (lease_expired now) (tbl_jobs d)), d)"

text \<open>\<open>attempts + 1\<close> is a Postgres \<open>int\<close>: out of range is an error of the statement.\<close>

definition attempts_overflow :: "(db_Job \<Rightarrow> bool) \<Rightarrow> database \<Rightarrow> bool" where
  "attempts_overflow p d \<longleftrightarrow> (\<exists>r \<in> set (tbl_jobs d). p r \<and> \<not> in_int32 (job_Attempts r + 1))"

definition set_requeued :: "'a Job_scheme \<Rightarrow> 'a Job_scheme" where
  "set_requeued r = r\<lparr>job_Status := StatusQueued, job_Attempts := job_Attempts r + 1,
     job_WorkerID := None, job_LeaseExpiresAt := None\<rparr>"

definition q_RequeueExpiredJob :: "uuid \<Rightarrow> instant \<Rightarrow> (database, db_Job) go" where
  "q_RequeueExpiredJob rid now d =
    (let p = (\<lambda>r. job_ID r = rid \<and> job_Status r = StatusProcessing)
     in if attempts_overflow p d then (Inl (PgError ''22003''), d)
        else update_jobs_returning p set_requeued d)"

definition set_expired_failed ::
  "string \<Rightarrow> string \<Rightarrow> instant \<Rightarrow> 'a Job_scheme \<Rightarrow> 'a Job_scheme" where
  "set_expired_failed errorCode errorMessage now r =
    r\<lparr>job_Status := StatusFailed, job_Attempts := job_Attempts r + 1,
      job_ErrorCode := Some errorCode, job_ErrorMessage := Some errorMessage,
      job_FinishedAt := Some now\<rparr>"

definition q_FailExpiredJob :: "uuid \<Rightarrow> string \<Rightarrow> string \<Rightarrow> instant \<Rightarrow> (database, db_Job) go" where
  "q_FailExpiredJob rid errorCode errorMessage now d =
    (let p = (\<lambda>r. job_ID r = rid \<and> job_Status r = StatusProcessing)
     in if attempts_overflow p d then (Inl (PgError ''22003''), d)
        else update_jobs_returning p (set_expired_failed errorCode errorMessage now) d)"

text \<open>\<open>Exec\<close>: the number of rows affected.\<close>

definition q_SoftDeleteJob :: "uuid \<Rightarrow> uuid \<Rightarrow> instant \<Rightarrow> (database, int) go" where
  "q_SoftDeleteJob rid userID now d =
    (let p = (\<lambda>r. job_ID r = rid \<and> job_UserID r = userID \<and> job_DeletedAt r = None)
     in (Inr (int (length (filter p (tbl_jobs d)))),
         d\<lparr>tbl_jobs := update_where p (\<lambda>r. r\<lparr>job_DeletedAt := Some now\<rparr>) (tbl_jobs d)\<rparr>))"

section \<open>Events, transcripts, segments\<close>

definition notify_job_event :: "db_JobEvent \<Rightarrow> db_Job list \<Rightarrow> notification list" where
  "notify_job_event e jobs =
    map (\<lambda>j. \<lparr>n_JobID = ev_JobID e, n_UserID = job_UserID j, n_EventType = ev_EventType e,
              n_Payload = ev_Payload e, n_CreatedAt = ev_CreatedAt e,
              n_DurationSeconds = job_DurationSeconds j,
              n_ElapsedSeconds = of_int (ev_CreatedAt e - job_CreatedAt j) / 10 ^ 9\<rparr>)
      (filter (\<lambda>j. job_ID j = ev_JobID e) jobs)"

definition q_CreateJobEvent ::
  "uuid \<Rightarrow> uuid \<Rightarrow> string \<Rightarrow> bytes \<Rightarrow> instant \<Rightarrow> (database, db_JobEvent) go" where
  "q_CreateJobEvent rid jobID eventType payload now d =
    (if eventType \<notin> set all_event_types then (Inl (PgError ''23514''), d)
     else if \<exists>e \<in> set (tbl_job_events d). ev_ID e = rid then (Inl (PgError ''23505''), d)
     else if \<not> (\<exists>r \<in> set (tbl_jobs d). job_ID r = jobID) then (Inl (PgError ''23503''), d)
     else let e = \<lparr>ev_ID = rid, ev_JobID = jobID, ev_EventType = eventType, ev_Payload = payload,
                   ev_CreatedAt = now\<rparr>
          in (Inr e, d\<lparr>tbl_job_events := tbl_job_events d @ [e],
                      notify_queue := notify_queue d @ notify_job_event e (tbl_jobs d)\<rparr>))"

definition q_ListJobEventsByJob :: "uuid \<Rightarrow> instant \<Rightarrow> (database, db_JobEvent list) go" where
  "q_ListJobEventsByJob jobID now d =
    (Inr (sort_key ev_CreatedAt (filter (\<lambda>e. ev_JobID e = jobID) (tbl_job_events d))), d)"

definition q_GetTranscriptByJobID :: "uuid \<Rightarrow> instant \<Rightarrow> (database, db_Transcript) go" where
  "q_GetTranscriptByJobID jobID now d =
    (case filter (\<lambda>t. tr_JobID t = jobID) (tbl_transcripts d) of
       [] \<Rightarrow> Inl ErrNoRows | t # _ \<Rightarrow> Inr t, d)"

definition q_ListSegmentsByTranscript :: "uuid \<Rightarrow> instant \<Rightarrow> (database, db_Segment list) go" where
  "q_ListSegmentsByTranscript transcriptID now d =
    (Inr (sort_key seg_Idx (filter (\<lambda>s. seg_TranscriptID s = transcriptID) (tbl_segments d))), d)"

section \<open>Users and API keys\<close>

definition q_CreateUser :: "uuid \<Rightarrow> string \<Rightarrow> string \<Rightarrow> instant \<Rightarrow> (database, db_User) go" where
  "q_CreateUser rid email passwordHash now d =
    (if \<exists>u \<in> set (tbl_users d). u_ID u = rid \<or> u_Email u = email then (Inl (PgError ''23505''), d)
     else let u = \<lparr>u_ID = rid, u_Email = email, u_PasswordHash = passwordHash, u_CreatedAt = now\<rparr>
          in (Inr u, d\<lparr>tbl_users := tbl_users d @ [u]\<rparr>))"

definition q_GetUserByEmail :: "string \<Rightarrow> instant \<Rightarrow> (database, db_User) go" where
  "q_GetUserByEmail email now d =
    (case filter (\<lambda>u. u_Email u = email) (tbl_users d) of
       [] \<Rightarrow> Inl ErrNoRows | u # _ \<Rightarrow> Inr u, d)"

definition q_GetUserByID :: "uuid \<Rightarrow> instant \<Rightarrow> (database, db_User) go" where
  "q_GetUserByID rid now d =
    (case filter (\<lambda>u. u_ID u = rid) (tbl_users d) of
       [] \<Rightarrow> Inl ErrNoRows | u # _ \<Rightarrow> Inr u, d)"

definition q_CreateAPIKey ::
  "uuid \<Rightarrow> uuid \<Rightarrow> string \<Rightarrow> string \<Rightarrow> instant \<Rightarrow> (database, db_ApiKey) go" where
  "q_CreateAPIKey rid userID name keyHash now d =
    (if \<exists>k \<in> set (tbl_api_keys d). k_ID k = rid \<or> k_KeyHash k = keyHash
       then (Inl (PgError ''23505''), d)
     else if \<not> (\<exists>u \<in> set (tbl_users d). u_ID u = userID) then (Inl (PgError ''23503''), d)
     else let k = \<lparr>k_ID = rid, k_UserID = userID, k_Name = name, k_KeyHash = keyHash,
                   k_LastUsedAt = None, k_CreatedAt = now, k_RevokedAt = None\<rparr>
          in (Inr k, d\<lparr>tbl_api_keys := tbl_api_keys d @ [k]\<rparr>))"

definition q_ListAPIKeysByUser :: "uuid \<Rightarrow> instant \<Rightarrow> (database, db_ApiKey list) go" where
  "q_ListAPIKeysByUser userID now d =
    (Inr (sort_key (\<lambda>k. - k_CreatedAt k)
       (filter (\<lambda>k. k_UserID k = userID \<and> k_RevokedAt k = None) (tbl_api_keys d))), d)"

definition q_GetAPIKeyByHash :: "string \<Rightarrow> instant \<Rightarrow> (database, db_ApiKey) go" where
  "q_GetAPIKeyByHash keyHash now d =
    (case filter (\<lambda>k. k_KeyHash k = keyHash \<and> k_RevokedAt k = None) (tbl_api_keys d) of
       [] \<Rightarrow> Inl ErrNoRows | k # _ \<Rightarrow> Inr k, d)"

definition q_RevokeAPIKey :: "uuid \<Rightarrow> uuid \<Rightarrow> instant \<Rightarrow> (database, int) go" where
  "q_RevokeAPIKey rid userID now d =
    (let p = (\<lambda>k. k_ID k = rid \<and> k_UserID k = userID \<and> k_RevokedAt k = None)
     in (Inr (int (length (filter p (tbl_api_keys d)))),
         d\<lparr>tbl_api_keys := update_where p (\<lambda>k. k\<lparr>k_RevokedAt := Some now\<rparr>) (tbl_api_keys d)\<rparr>))"

definition q_TouchAPIKeyLastUsed :: "uuid \<Rightarrow> instant \<Rightarrow> (database, unit) go" where
  "q_TouchAPIKeyLastUsed rid now d =
    (Inr (), d\<lparr>tbl_api_keys := update_where (\<lambda>k. k_ID k = rid)
       (\<lambda>k. k\<lparr>k_LastUsedAt := Some now\<rparr>) (tbl_api_keys d)\<rparr>)"

section \<open>What the row updates leave alone\<close>

lemmas row_update_defs = set_status_def reset_for_retry_def set_cancelled_def set_requeued_def
  set_expired_failed_def

lemma row_update_fields [simp]:
  "job_ID (set_status s t r) = job_ID r" "job_UserID (set_status s t r) = job_UserID r"
  "job_IdempotencyKey (set_status s t r) = job_IdempotencyKey r" "job_ObjectKey (set_status s t r) = job_ObjectKey r"
  "job_CreatedAt (set_status s t r) = job_CreatedAt r" "job_MaxAttempts (set_status s t r) = job_MaxAttempts r"
  "job_Status (set_status s t r) = s" "job_ID (reset_for_retry r) = job_ID r"
  "job_UserID (reset_for_retry r) = job_UserID r" "job_IdempotencyKey (reset_for_retry r) = job_IdempotencyKey r"
  "job_ObjectKey (reset_for_retry r) = job_ObjectKey r" "job_CreatedAt (reset_for_retry r) = job_CreatedAt r"
  "job_MaxAttempts (reset_for_retry r) = job_MaxAttempts r" "job_Status (reset_for_retry r) = StatusQueued"
  "job_ID (set_cancelled t r) = job_ID r" "job_UserID (set_cancelled t r) = job_UserID r"
  "job_IdempotencyKey (set_cancelled t r) = job_IdempotencyKey r" "job_ObjectKey (set_cancelled t r) = job_ObjectKey r"
  "job_CreatedAt (set_cancelled t r) = job_CreatedAt r" "job_MaxAttempts (set_cancelled t r) = job_MaxAttempts r"
  "job_Status (set_cancelled t r) = StatusCancelled" "job_ID (set_requeued r) = job_ID r"
  "job_UserID (set_requeued r) = job_UserID r" "job_IdempotencyKey (set_requeued r) = job_IdempotencyKey r"
  "job_ObjectKey (set_requeued r) = job_ObjectKey r" "job_CreatedAt (set_requeued r) = job_CreatedAt r"
  "job_MaxAttempts (set_requeued r) = job_MaxAttempts r" "job_Status (set_requeued r) = StatusQueued"
  "job_ID (set_expired_failed c m t r) = job_ID r" "job_UserID (set_expired_failed c m t r) = job_UserID r"
  "job_IdempotencyKey (set_expired_failed c m t r) = job_IdempotencyKey r" "job_ObjectKey (set_expired_failed c m t r) = job_ObjectKey r"
  "job_CreatedAt (set_expired_failed c m t r) = job_CreatedAt r" "job_MaxAttempts (set_expired_failed c m t r) = job_MaxAttempts r"
  "job_Status (set_expired_failed c m t r) = StatusFailed"
  by (simp_all add: row_update_defs)

end
