(* ===== verification/Job_Interface.thy ===== *)
theory Job_Interface
  imports Database
begin

text \<open>
  The interfaces \<open>job.Store\<close>, \<open>job.Queue\<close> and \<open>job.ObjectStore\<close> of
  \<open>src/api/internal/job/service.go\<close>, and the contract the job service relies on.

  A Go interface value is a record of functions over a state \<open>'w\<close>. The contract is stated on
  an abstract state \<open>jobs_abs\<close>: the jobs a user can still see, by id, the log of job events,
  and the ids sent to the job stream. \<open>implements I \<alpha> m E N\<close> says what one call of \<open>m\<close> does
  seen through the abstraction \<open>\<alpha>\<close>: a returned value comes with the effect \<open>E\<close>; the bare
  sentinel \<open>ErrNotFound\<close> comes with no effect and only where \<open>N\<close> holds; any other error
  carries no sentinel of the job package and comes with the effect or with none, since a
  reply can be lost after the server acted. The
  locale \<open>job_backend\<close> collects the laws of all operations; \<open>Job_Store\<close> interprets it on the
  Postgres and Redis implementations.
\<close>

section \<open>The interfaces\<close>

record 'w Store =
  st_CreateJob :: "Job \<Rightarrow> ('w, Job) go"
  st_GetJob :: "uuid \<Rightarrow> uuid \<Rightarrow> ('w, Job) go"
  st_GetJobByIdempotencyKey :: "uuid \<Rightarrow> string \<Rightarrow> ('w, Job) go"
  st_ListJobs :: "uuid \<Rightarrow> Status option \<Rightarrow> instant option \<Rightarrow> int \<Rightarrow> ('w, Job list) go"
  st_UpdateJobStatus :: "uuid \<Rightarrow> Status \<Rightarrow> ('w, Job) go"
  st_CancelJob :: "uuid \<Rightarrow> uuid \<Rightarrow> ('w, Job) go"
  st_RetryJob :: "uuid \<Rightarrow> uuid \<Rightarrow> ('w, Job) go"
  st_SoftDeleteJob :: "uuid \<Rightarrow> uuid \<Rightarrow> ('w, unit) go"
  st_CreateEvent :: "uuid \<Rightarrow> EventType \<Rightarrow> bytes \<Rightarrow> ('w, Event) go"
  st_ListEvents :: "uuid \<Rightarrow> ('w, Event list) go"
  st_GetTranscript :: "uuid \<Rightarrow> ('w, Transcript) go"
  st_ListSegments :: "uuid \<Rightarrow> ('w, Segment list) go"

record 'w Queue =
  qu_Enqueue :: "uuid \<Rightarrow> ('w, unit) go"

record 'w ObjectStore =
  os_DeleteObject :: "string \<Rightarrow> ('w, unit) go"

section \<open>The abstract state and the effects of the operations\<close>

record jobs_abs =
  a_view :: "uuid \<Rightarrow> Job option"
  a_log :: "(uuid \<times> EventType) list"
  a_msgs :: "uuid list"

definition put_job :: "uuid \<Rightarrow> Job \<Rightarrow> jobs_abs \<Rightarrow> jobs_abs" where
  "put_job i j a = a\<lparr>a_view := (a_view a)(i \<mapsto> j)\<rparr>"

definition hide_job :: "uuid \<Rightarrow> jobs_abs \<Rightarrow> jobs_abs" where
  "hide_job i a = a\<lparr>a_view := (a_view a)(i := None)\<rparr>"

definition log_event :: "uuid \<Rightarrow> EventType \<Rightarrow> jobs_abs \<Rightarrow> jobs_abs" where
  "log_event i ty a = a\<lparr>a_log := a_log a @ [(i, ty)]\<rparr>"

definition send_msg :: "uuid \<Rightarrow> jobs_abs \<Rightarrow> jobs_abs" where
  "send_msg i a = a\<lparr>a_msgs := a_msgs a @ [i]\<rparr>"

lemma abs_simps [simp]:
  "a_view (put_job i j a) = (a_view a)(i \<mapsto> j)" "a_log (put_job i j a) = a_log a"
  "a_msgs (put_job i j a) = a_msgs a"
  "a_view (hide_job i a) = (a_view a)(i := None)" "a_log (hide_job i a) = a_log a"
  "a_msgs (hide_job i a) = a_msgs a"
  "a_view (log_event i ty a) = a_view a" "a_log (log_event i ty a) = a_log a @ [(i, ty)]"
  "a_msgs (log_event i ty a) = a_msgs a"
  "a_view (send_msg i a) = a_view a" "a_log (send_msg i a) = a_log a"
  "a_msgs (send_msg i a) = a_msgs a @ [i]"
  by (simp_all add: put_job_def hide_job_def log_event_def send_msg_def)

lemma put_job_simps [simp]:
  "put_job i j (put_job i c a) = put_job i j a"
  "put_job i j (log_event k ty a) = log_event k ty (put_job i j a)"
  "put_job i j (send_msg k a) = send_msg k (put_job i j a)"
  by (simp_all add: put_job_def log_event_def send_msg_def)

definition owned :: "uuid \<Rightarrow> uuid \<Rightarrow> jobs_abs \<Rightarrow> Job \<Rightarrow> bool" where
  "owned i u a c \<longleftrightarrow> a_view a i = Some c \<and> job_UserID c = u"

definition has_key :: "uuid \<Rightarrow> string \<Rightarrow> jobs_abs \<Rightarrow> Job \<Rightarrow> bool" where
  "has_key u k a c \<longleftrightarrow> a_view a (job_ID c) = Some c \<and> job_UserID c = u \<and> job_IdempotencyKey c = Some k"

text \<open>What the insert of \<open>j\<close> returns: the values given, the columns' defaults, and the time.\<close>

definition created_job :: "instant \<Rightarrow> Job \<Rightarrow> Job" where
  "created_job now j = \<lparr>job_ID = job_ID j, job_UserID = job_UserID j, job_Status = job_Status j,
     job_IdempotencyKey = job_IdempotencyKey j, job_ObjectKey = job_ObjectKey j,
     job_OriginalFilename = job_OriginalFilename j, job_SizeBytes = job_SizeBytes j,
     job_DurationSeconds = None, job_Model = job_Model j, job_Attempts = 0, job_MaxAttempts = 3,
     job_ErrorCode = None, job_ErrorMessage = None, job_WorkerID = None, job_LeaseExpiresAt = None,
     job_CreatedAt = now, job_StartedAt = None, job_FinishedAt = None\<rparr>"

text \<open>What a cancelled and a retried job look like, column by column.\<close>

definition cancelled_job :: "instant \<Rightarrow> Job \<Rightarrow> Job" where
  "cancelled_job now c = c\<lparr>job_Status := StatusCancelled, job_FinishedAt := Some now\<rparr>"

definition retried_job :: "Job \<Rightarrow> Job" where
  "retried_job c = \<lparr>job_ID = job_ID c, job_UserID = job_UserID c, job_Status = StatusQueued,
     job_IdempotencyKey = job_IdempotencyKey c, job_ObjectKey = job_ObjectKey c,
     job_OriginalFilename = job_OriginalFilename c, job_SizeBytes = job_SizeBytes c,
     job_DurationSeconds = job_DurationSeconds c, job_Model = job_Model c, job_Attempts = 0,
     job_MaxAttempts = job_MaxAttempts c, job_ErrorCode = None, job_ErrorMessage = None, job_WorkerID = None,
     job_LeaseExpiresAt = None, job_CreatedAt = job_CreatedAt c, job_StartedAt = None, job_FinishedAt = None\<rparr>"

lemma update_specs: "set_cancelled now c = cancelled_job now c" "reset_for_retry c = retried_job c"
  by (simp_all add: set_cancelled_def cancelled_job_def reset_for_retry_def retried_job_def)

lemma spec_fields [simp]:
  "job_ID (cancelled_job now c) = job_ID c" "job_UserID (cancelled_job now c) = job_UserID c"
  "job_Status (cancelled_job now c) = StatusCancelled"
  "job_ID (retried_job c) = job_ID c" "job_UserID (retried_job c) = job_UserID c" "job_Status (retried_job c) = StatusQueued"
  by (simp_all add: cancelled_job_def retried_job_def)

definition eff_create :: "Job \<Rightarrow> Job \<Rightarrow> jobs_abs \<Rightarrow> jobs_abs \<Rightarrow> bool" where
  "eff_create j0 j a a' \<longleftrightarrow> a_view a (job_ID j0) = None
     \<and> (\<forall>k. job_IdempotencyKey j0 = Some k \<longrightarrow> (\<forall>c. \<not> has_key (job_UserID j0) k a c))
     \<and> (\<exists>now. j = created_job now j0) \<and> a' = put_job (job_ID j0) j a"

definition eff_status :: "uuid \<Rightarrow> Status \<Rightarrow> Job \<Rightarrow> jobs_abs \<Rightarrow> jobs_abs \<Rightarrow> bool" where
  "eff_status i s j a a' \<longleftrightarrow>
     (\<exists>c now. a_view a i = Some c \<and> j = set_status s now c) \<and> a' = put_job i j a"

definition eff_cancel :: "uuid \<Rightarrow> uuid \<Rightarrow> Job \<Rightarrow> jobs_abs \<Rightarrow> jobs_abs \<Rightarrow> bool" where
  "eff_cancel i u j a a' \<longleftrightarrow>
     (\<exists>c now. owned i u a c \<and> job_Status c \<in> {StatusQueued, StatusProcessing} \<and> j = cancelled_job now c) \<and> a' = put_job i j a"

definition eff_retry :: "uuid \<Rightarrow> uuid \<Rightarrow> Job \<Rightarrow> jobs_abs \<Rightarrow> jobs_abs \<Rightarrow> bool" where
  "eff_retry i u j a a' \<longleftrightarrow>
     (\<exists>c. owned i u a c \<and> job_Status c = StatusFailed \<and> j = retried_job c) \<and> a' = put_job i j a"

definition eff_delete :: "uuid \<Rightarrow> uuid \<Rightarrow> jobs_abs \<Rightarrow> jobs_abs \<Rightarrow> bool" where
  "eff_delete i u a a' \<longleftrightarrow> (\<exists>c. owned i u a c) \<and> a' = hide_job i a"

section \<open>The contract\<close>

text \<open>An error in whose chain no sentinel of the job package occurs.\<close>

definition opaque_err :: "error \<Rightarrow> bool" where
  "opaque_err e \<longleftrightarrow> (\<forall>x. \<not> errors_Is e (JobErr x))"

lemma opaque_Errorf [simp]: "opaque_err (Errorf m e) = opaque_err e"
  by (simp add: opaque_err_def)

lemma opaque_simps [simp]:
  "\<not> opaque_err (JobErr x)" "opaque_err (ErrIO m)" "opaque_err (PgError c)" "opaque_err ErrNoRows"
  by (auto simp: opaque_err_def)

text \<open>What an error of an operation with effect \<open>E\<close> and precondition of absence \<open>N\<close> says.\<close>

definition err_effect ::
  "('a \<Rightarrow> 's \<Rightarrow> 's \<Rightarrow> bool) \<Rightarrow> ('s \<Rightarrow> bool) \<Rightarrow> error \<Rightarrow> 's \<Rightarrow> 's \<Rightarrow> bool" where
  "err_effect E N e a a' \<longleftrightarrow>
     e = ErrNotFound \<and> a' = a \<and> N a \<or> opaque_err e \<and> (a' = a \<or> (\<exists>x. E x a a'))"

definition implements ::
  "('w \<Rightarrow> bool) \<Rightarrow> ('w \<Rightarrow> 's) \<Rightarrow> ('w, 'a) go
    \<Rightarrow> ('a \<Rightarrow> 's \<Rightarrow> 's \<Rightarrow> bool) \<Rightarrow> ('s \<Rightarrow> bool) \<Rightarrow> bool" where
  "implements I \<alpha> m E N \<longleftrightarrow> (\<forall>w r w'. I w \<longrightarrow> m w = (r, w') \<longrightarrow> I w' \<and>
     (case r of Inr x \<Rightarrow> E x (\<alpha> w) (\<alpha> w') | Inl e \<Rightarrow> err_effect E N e (\<alpha> w) (\<alpha> w')))"

lemma implementsI:
  assumes "\<And>w r w'. I w \<Longrightarrow> m w = (r, w') \<Longrightarrow> I w' \<and>
     (case r of Inr x \<Rightarrow> E x (\<alpha> w) (\<alpha> w') | Inl e \<Rightarrow> err_effect E N e (\<alpha> w) (\<alpha> w'))"
  shows "implements I \<alpha> m E N"
  using assms unfolding implements_def by blast

lemma implementsD:
  assumes "implements I \<alpha> m E N" and "I w" and "m w = (r, w')"
  shows "I w'" and "r = Inr x \<Longrightarrow> E x (\<alpha> w) (\<alpha> w')"
    and "r = Inl e \<Longrightarrow> err_effect E N e (\<alpha> w) (\<alpha> w')"
proof -
  have *: "I w' \<and> (case r of Inr x \<Rightarrow> E x (\<alpha> w) (\<alpha> w') | Inl e \<Rightarrow> err_effect E N e (\<alpha> w) (\<alpha> w'))"
    using assms unfolding implements_def by blast
  then show "I w'" by blast
  from * show "r = Inr x \<Longrightarrow> E x (\<alpha> w) (\<alpha> w')" and "r = Inl e \<Longrightarrow> err_effect E N e (\<alpha> w) (\<alpha> w')"
    by auto
qed

text \<open>Triples over the abstract state, and one rule per control structure of the service. A
  call forgets the state before it except for the strongest postcondition of its effect.\<close>

definition arun ::
  "('w \<Rightarrow> bool) \<Rightarrow> ('w \<Rightarrow> 's) \<Rightarrow> ('s \<Rightarrow> bool) \<Rightarrow> ('w, 'a) go
    \<Rightarrow> ('a \<Rightarrow> 's \<Rightarrow> bool) \<Rightarrow> (error \<Rightarrow> 's \<Rightarrow> bool) \<Rightarrow> bool" where
  "arun I \<alpha> P m Q E \<longleftrightarrow>
     hoare (\<lambda>w. I w \<and> P (\<alpha> w)) m (\<lambda>x w. I w \<and> Q x (\<alpha> w)) (\<lambda>e w. I w \<and> E e (\<alpha> w))"

lemma arun_ret: "(\<And>a. P a \<Longrightarrow> Q x a) \<Longrightarrow> arun I \<alpha> P (ret x) Q E"
  by (simp add: arun_def hoare_def)

lemma arun_fail: "(\<And>a. P a \<Longrightarrow> E e a) \<Longrightarrow> arun I \<alpha> P (fail e) Q E"
  by (simp add: arun_def hoare_def)

lemma arun_if:
  "(b \<Longrightarrow> arun I \<alpha> P m Q E) \<Longrightarrow> (\<not> b \<Longrightarrow> arun I \<alpha> P k Q E) \<Longrightarrow> arun I \<alpha> P (if b then m else k) Q E"
  by simp

lemma arun_call:
  assumes m: "implements I \<alpha> m F N"
    and err: "\<And>a e a'. P a \<Longrightarrow> err_effect F N e a a' \<Longrightarrow> E (f e) a'"
    and k: "\<And>x. arun I \<alpha> (\<lambda>a'. \<exists>a. P a \<and> F x a a') (k x) Q E"
  shows "arun I \<alpha> P (check m f k) Q E"
  unfolding arun_def
proof (rule hoare_check)
  show "hoare (\<lambda>w. I w \<and> P (\<alpha> w)) m (\<lambda>x w'. I w' \<and> (\<exists>a. P a \<and> F x a (\<alpha> w')))
      (\<lambda>e w. I w \<and> E (f e) (\<alpha> w))"
  proof (rule hoareI)
    fix w x w' assume "I w \<and> P (\<alpha> w)" and mw: "m w = (Inr x, w')"
    then show "I w' \<and> (\<exists>a. P a \<and> F x a (\<alpha> w'))"
      using implementsD(1,2) [OF m _ mw] by blast
  next
    fix w e w' assume "I w \<and> P (\<alpha> w)" and mw: "m w = (Inl e, w')"
    then show "I w' \<and> E (f e) (\<alpha> w')"
      using implementsD(1,3) [OF m _ mw] err by blast
  qed
next
  fix x
  show "hoare (\<lambda>w. I w \<and> (\<exists>a. P a \<and> F x a (\<alpha> w))) (k x) (\<lambda>x w. I w \<and> Q x (\<alpha> w))
      (\<lambda>e w. I w \<and> E e (\<alpha> w))"
    using k by (simp add: arun_def)
qed

lemma arun_new:
  assumes "\<And>w i w'. I w \<Longrightarrow> new w = (i, w') \<Longrightarrow> I w' \<and> \<alpha> w' = \<alpha> w"
    and "\<And>i. arun I \<alpha> P (k i) Q E"
  shows "arun I \<alpha> P (\<lambda>w. let (i, w1) = new w in k i w1) Q E"
  unfolding arun_def hoare_def
proof (intro allI impI)
  fix w assume w: "I w \<and> P (\<alpha> w)"
  obtain i w1 where n: "new w = (i, w1)" by (cases "new w")
  with w assms(1) have "I w1 \<and> P (\<alpha> w1)" by auto
  then show "case let (i, w1) = new w in k i w1 of (Inl e, w') \<Rightarrow> I w' \<and> E e (\<alpha> w')
      | (Inr x, w') \<Rightarrow> I w' \<and> Q x (\<alpha> w')"
    using assms(2) [of i] n by (simp add: arun_def hoare_def)
qed

lemma arun_ignore:
  assumes m: "implements I \<alpha> m (\<lambda>_ a a'. a' = a) N" and k: "arun I \<alpha> P k Q E"
  shows "arun I \<alpha> P (ignore m k) Q E"
proof -
  have "I (snd (m w)) \<and> \<alpha> (snd (m w)) = \<alpha> w" if "I w" for w
  proof -
    obtain r w' where mw: "m w = (r, w')" by (cases "m w")
    show ?thesis
      using implementsD [OF m that mw] mw by (cases r) (auto simp: err_effect_def)
  qed
  then show ?thesis
    using k by (auto simp: arun_def hoare_def)
qed

text \<open>\<open>x, err := m; if err == nil { return x }; if err != ErrNotFound { return f(err) }; k\<close>\<close>

lemma arun_found_or:
  assumes m: "implements I \<alpha> m F N"
    and found: "\<And>a x a'. P a \<Longrightarrow> F x a a' \<Longrightarrow> Q x a'"
    and err: "\<And>a e a'. P a \<Longrightarrow> opaque_err e \<Longrightarrow> a' = a \<or> (\<exists>x. F x a a') \<Longrightarrow> E (f e) a'"
    and k: "arun I \<alpha> (\<lambda>a. P a \<and> N a) k Q E"
  shows "arun I \<alpha> P (\<lambda>w. case m w of (Inr x, w1) \<Rightarrow> (Inr x, w1)
     | (Inl e, w1) \<Rightarrow> if e \<noteq> ErrNotFound then (Inl (f e), w1) else k w1) Q E"
  unfolding arun_def hoare_def
proof (intro allI impI)
  fix w assume w: "I w \<and> P (\<alpha> w)"
  obtain r w1 where mw: "m w = (r, w1)" by (cases "m w")
  note d = implementsD [OF m _ mw]
  show "case case m w of (Inl e, w1) \<Rightarrow> if e \<noteq> ErrNotFound then (Inl (f e), w1) else k w1
        | (Inr x, w1) \<Rightarrow> (Inr x, w1)
      of (Inl e, w') \<Rightarrow> I w' \<and> E e (\<alpha> w') | (Inr x, w') \<Rightarrow> I w' \<and> Q x (\<alpha> w')"
  proof (cases "r = Inl ErrNotFound")
    case True
    then have "I w1 \<and> P (\<alpha> w1) \<and> N (\<alpha> w1)" using d(1,3) w by (auto simp: err_effect_def)
    then show ?thesis using k mw True by (simp add: arun_def hoare_def)
  next
    case False
    then show ?thesis
      using d w mw found by (cases r) (auto simp: err_effect_def intro!: err)
  qed
qed

lemma arunD:
  assumes "arun I \<alpha> (\<lambda>a. a = \<alpha> w) m Q E" and "I w" and "m w = (r, w')"
  shows "I w'" and "r = Inr x \<Longrightarrow> Q x (\<alpha> w')" and "r = Inl e \<Longrightarrow> E e (\<alpha> w')"
proof -
  have *: "case r of Inr x \<Rightarrow> I w' \<and> Q x (\<alpha> w') | Inl e \<Rightarrow> I w' \<and> E e (\<alpha> w')"
    using assms by (fastforce simp: arun_def hoare_def split: sum.splits)
  then show "I w'" by (auto split: sum.splits)
  from * show "r = Inr x \<Longrightarrow> Q x (\<alpha> w')" and "r = Inl e \<Longrightarrow> E e (\<alpha> w')" by auto
qed

text \<open>The laws: \<open>I\<close> is the backend's invariant, \<open>\<alpha>\<close> its abstraction, \<open>new\<close> the source of fresh
  identifiers, which touches neither.\<close>

locale job_backend =
  fixes S :: "'w Store" and Q :: "'w Queue" and B :: "'w ObjectStore"
    and new :: "'w \<Rightarrow> uuid \<times> 'w"
    and I :: "'w \<Rightarrow> bool" and \<alpha> :: "'w \<Rightarrow> jobs_abs"
  assumes view_ID: "\<lbrakk>I w; a_view (\<alpha> w) i = Some c\<rbrakk> \<Longrightarrow> job_ID c = i"
    and key_unique: "\<lbrakk>I w; has_key u k (\<alpha> w) c; has_key u k (\<alpha> w) c'\<rbrakk> \<Longrightarrow> c = c'"
    and new_inv: "\<lbrakk>I w; new w = (i, w')\<rbrakk> \<Longrightarrow> I w' \<and> \<alpha> w' = \<alpha> w"
    and get: "implements I \<alpha> (st_GetJob S i u) (\<lambda>j a a'. a' = a \<and> owned i u a j)
                (\<lambda>a. \<not> (\<exists>j. owned i u a j))"
    and get_by_key: "implements I \<alpha> (st_GetJobByIdempotencyKey S u k)
                (\<lambda>j a a'. a' = a \<and> has_key u k a j) (\<lambda>a. \<not> (\<exists>j. has_key u k a j))"
    and list_jobs: "implements I \<alpha> (st_ListJobs S u st cur n) (\<lambda>js a a'. a' = a
                \<and> (\<forall>j \<in> set js. owned (job_ID j) u a j)) (\<lambda>_. False)"
    and create: "implements I \<alpha> (st_CreateJob S j0) (eff_create j0) (\<lambda>_. False)"
    and update_status: "implements I \<alpha> (st_UpdateJobStatus S i s) (eff_status i s)
                (\<lambda>a. a_view a i = None)"
    and cancel: "implements I \<alpha> (st_CancelJob S i u) (eff_cancel i u)
                (\<lambda>a. \<not> (\<exists>c. owned i u a c \<and> CanCancel (job_Status c)))"
    and retry: "implements I \<alpha> (st_RetryJob S i u) (eff_retry i u)
                (\<lambda>a. \<not> (\<exists>c. owned i u a c \<and> CanRetry (job_Status c)))"
    and soft_delete: "implements I \<alpha> (st_SoftDeleteJob S i u) (\<lambda>_. eff_delete i u)
                (\<lambda>a. \<not> (\<exists>c. owned i u a c))"
    and create_event: "implements I \<alpha> (st_CreateEvent S i ty body) (\<lambda>_ a a'. a' = log_event i ty a)
                (\<lambda>_. False)"
    and list_events: "implements I \<alpha> (st_ListEvents S i) (\<lambda>_ a a'. a' = a) (\<lambda>_. False)"
    and get_transcript: "implements I \<alpha> (st_GetTranscript S i) (\<lambda>_ a a'. a' = a) (\<lambda>_. True)"
    and list_segments: "implements I \<alpha> (st_ListSegments S i) (\<lambda>_ a a'. a' = a) (\<lambda>_. False)"
    and enqueue: "implements I \<alpha> (qu_Enqueue Q i) (\<lambda>_ a a'. a' = send_msg i a) (\<lambda>_. False)"
    and delete_object: "implements I \<alpha> (os_DeleteObject B key) (\<lambda>_ a a'. a' = a) (\<lambda>_. True)"

end
