(* ===== verification/Reaper.thy ===== *)
theory Reaper
  imports Job_Interface
begin

text \<open>
  The lease reaper of \<open>src/api/internal/queue/reaper.go\<close>, over any implementation of its two
  interfaces \<open>LeaseStore\<close> and \<open>Enqueuer\<close>, and the queue-depth gauge of
  \<open>src/api/internal/queue/metrics.go\<close>.

  \<open>ReapOnce\<close> returns nothing; what it logs for each job is the model's result, so that the
  lemmas can say which branch a job took. \<open>Run\<close> waits on two channels; the sequence of their
  events is its argument.

  The contract \<open>lease_backend\<close> speaks of all rows (the reaper acts for the system and not
  for a user), the event log and the stream. The lemmas of the locale say what a pass does
  to every row, whatever calls fail, and what its log entries mean.
\<close>

section \<open>Types and interfaces\<close>

record ExpiredJob =
  xj_ID :: uuid
  xj_Attempts :: int
  xj_MaxAttempts :: int

record 'w LeaseStore =
  ls_ListExpiredLeases :: "('w, ExpiredJob list) go"
  ls_RequeueExpiredJob :: "uuid \<Rightarrow> ('w, unit) go"
  ls_FailExpiredJob :: "uuid \<Rightarrow> string \<Rightarrow> string \<Rightarrow> ('w, unit) go"

record 'w Enqueuer =
  en_Enqueue :: "uuid \<Rightarrow> ('w, unit) go"

definition leaseExpiredErrorCode :: string where
  "leaseExpiredErrorCode = ''lease_expired''"

definition leaseExpiredErrorMessage :: string where
  "leaseExpiredErrorMessage = ''worker did not renew its lease before it expired''"

record 'w Reaper =
  rp_store :: "'w LeaseStore"
  rp_producer :: "'w Enqueuer"

definition NewReaper :: "'w LeaseStore \<Rightarrow> 'w Enqueuer \<Rightarrow> 'w Reaper" where
  "NewReaper store producer = \<lparr>rp_store = store, rp_producer = producer\<rparr>"

section \<open>A pass\<close>

datatype reap_log =
    ListFailed error
  | FailErr uuid error
  | Exhausted uuid
  | RequeueErr uuid error
  | EnqueueErr uuid error
  | Requeued uuid

text \<open>\<open>job.Attempts+1 >= job.MaxAttempts\<close> on \<open>int32\<close> values.\<close>

definition budget_spent :: "int \<Rightarrow> int \<Rightarrow> bool" where
  "budget_spent attempts max_attempts \<longleftrightarrow> wrap32 (attempts + 1) \<ge> max_attempts"

text \<open>The body of the loop.\<close>

definition reap_job :: "'w Reaper \<Rightarrow> ExpiredJob \<Rightarrow> 'w \<Rightarrow> reap_log \<times> 'w" where
  "reap_job r job w =
    (if budget_spent (xj_Attempts job) (xj_MaxAttempts job) then
       (case ls_FailExpiredJob (rp_store r) (xj_ID job) leaseExpiredErrorCode leaseExpiredErrorMessage w of
          (Inl err, w1) \<Rightarrow> (FailErr (xj_ID job) err, w1)
        | (Inr _, w1) \<Rightarrow> (Exhausted (xj_ID job), w1))
     else
       (case ls_RequeueExpiredJob (rp_store r) (xj_ID job) w of
          (Inl err, w1) \<Rightarrow> (RequeueErr (xj_ID job) err, w1)
        | (Inr _, w1) \<Rightarrow>
            (case en_Enqueue (rp_producer r) (xj_ID job) w1 of
               (Inl err, w2) \<Rightarrow> (EnqueueErr (xj_ID job) err, w2)
             | (Inr _, w2) \<Rightarrow> (Requeued (xj_ID job), w2))))"

fun reap_jobs :: "'w Reaper \<Rightarrow> ExpiredJob list \<Rightarrow> 'w \<Rightarrow> reap_log list \<times> 'w" where
  "reap_jobs r [] w = ([], w)"
| "reap_jobs r (job # jobs) w =
    (let (l, w1) = reap_job r job w; (ls, w2) = reap_jobs r jobs w1 in (l # ls, w2))"

definition ReapOnce :: "'w Reaper \<Rightarrow> 'w \<Rightarrow> reap_log list \<times> 'w" where
  "ReapOnce r w =
    (case ls_ListExpiredLeases (rp_store r) w of
       (Inl err, w1) \<Rightarrow> ([ListFailed err], w1)
     | (Inr expired, w1) \<Rightarrow> reap_jobs r expired w1)"

datatype select_event = CtxDone | Tick

fun Reaper_Run :: "'w Reaper \<Rightarrow> select_event list \<Rightarrow> 'w \<Rightarrow> 'w" where
  "Reaper_Run r [] w = w"
| "Reaper_Run r (CtxDone # es) w = w"
| "Reaper_Run r (Tick # es) w = Reaper_Run r es (snd (ReapOnce r w))"

section \<open>The contract\<close>

record lease_abs =
  la_rows :: "uuid \<Rightarrow> db_Job option"
  la_log :: "(uuid \<times> EventType) list"
  la_msgs :: "uuid list"

definition put_row :: "uuid \<Rightarrow> db_Job \<Rightarrow> lease_abs \<Rightarrow> lease_abs" where
  "put_row i r a = a\<lparr>la_rows := (la_rows a)(i \<mapsto> r)\<rparr>"

definition la_event :: "uuid \<Rightarrow> EventType \<Rightarrow> lease_abs \<Rightarrow> lease_abs" where
  "la_event i ty a = a\<lparr>la_log := la_log a @ [(i, ty)]\<rparr>"

definition la_send :: "uuid \<Rightarrow> lease_abs \<Rightarrow> lease_abs" where
  "la_send i a = a\<lparr>la_msgs := la_msgs a @ [i]\<rparr>"

lemma lease_abs_simps [simp]:
  "la_rows (put_row i r a) = (la_rows a)(i \<mapsto> r)" "la_log (put_row i r a) = la_log a"
  "la_msgs (put_row i r a) = la_msgs a"
  "la_rows (la_event i ty a) = la_rows a" "la_log (la_event i ty a) = la_log a @ [(i, ty)]"
  "la_msgs (la_event i ty a) = la_msgs a"
  "la_rows (la_send i a) = la_rows a" "la_log (la_send i a) = la_log a"
  "la_msgs (la_send i a) = la_msgs a @ [i]"
  by (simp_all add: put_row_def la_event_def la_send_def)

text \<open>The states a requeue and a failure of row \<open>r\<close> pass through.\<close>

definition requeue_trace :: "uuid \<Rightarrow> db_Job \<Rightarrow> lease_abs \<Rightarrow> lease_abs list" where
  "requeue_trace i r a =
    (let a1 = put_row i (set_requeued r) a; a2 = la_event i EventRetrying a1
     in [a1, a2, la_event i EventQueued a2])"

definition fail_trace :: "uuid \<Rightarrow> string \<Rightarrow> string \<Rightarrow> instant \<Rightarrow> db_Job \<Rightarrow> lease_abs \<Rightarrow> lease_abs list" where
  "fail_trace i c m t r a =
    (let a1 = put_row i (set_expired_failed c m t r) a in [a1, la_event i EventFailed a1])"

definition processing :: "uuid \<Rightarrow> lease_abs \<Rightarrow> db_Job \<Rightarrow> bool" where
  "processing i a r \<longleftrightarrow> la_rows a i = Some r \<and> job_Status r = StatusProcessing"

text \<open>The listing is exactly the rows whose lease has expired.\<close>

definition lists_expired :: "instant \<Rightarrow> lease_abs \<Rightarrow> ExpiredJob list \<Rightarrow> bool" where
  "lists_expired now a xs \<longleftrightarrow> distinct (map xj_ID xs)
     \<and> (\<forall>x \<in> set xs. \<exists>r. la_rows a (xj_ID x) = Some r \<and> lease_expired now r
          \<and> xj_Attempts x = job_Attempts r \<and> xj_MaxAttempts x = job_MaxAttempts r)
     \<and> (\<forall>i r. la_rows a i = Some r \<and> lease_expired now r \<longrightarrow> i \<in> xj_ID ` set xs)"

locale lease_backend =
  fixes L :: "'w LeaseStore" and E :: "'w Enqueuer" and I :: "'w \<Rightarrow> bool"
    and \<alpha> :: "'w \<Rightarrow> lease_abs" and now :: "'w \<Rightarrow> instant"
  assumes listing: "\<lbrakk>I w; ls_ListExpiredLeases L w = (r, w')\<rbrakk> \<Longrightarrow> I w' \<and> \<alpha> w' = \<alpha> w
      \<and> (case r of Inr xs \<Rightarrow> lists_expired (now w) (\<alpha> w) xs | Inl e \<Rightarrow> True)"
    and requeue: "arun I \<alpha> (\<lambda>a. a = a0) (ls_RequeueExpiredJob L i)
      (\<lambda>_ a'. \<exists>r. processing i a0 r \<and> a' = last (requeue_trace i r a0))
      (\<lambda>e a'. a' = a0 \<or> (\<exists>r. processing i a0 r \<and> a' \<in> set (requeue_trace i r a0)))"
    and fail_expired: "arun I \<alpha> (\<lambda>a. a = a0) (ls_FailExpiredJob L i c m)
      (\<lambda>_ a'. \<exists>r t. processing i a0 r \<and> a' = last (fail_trace i c m t r a0))
      (\<lambda>e a'. a' = a0 \<or> (\<exists>r t. processing i a0 r \<and> a' \<in> set (fail_trace i c m t r a0)))"
    and enqueue: "implements I \<alpha> (en_Enqueue E i) (\<lambda>_ a a'. a' = la_send i a) (\<lambda>_. False)"

section \<open>What a pass does\<close>

text \<open>What becomes of an expired row \<open>r\<close> that is reclaimed.\<close>

definition spent :: "db_Job \<Rightarrow> bool" where
  "spent r \<longleftrightarrow> job_MaxAttempts r \<le> wrap32 (job_Attempts r + 1)"

lemma budget_spent_row: "budget_spent (job_Attempts r) (job_MaxAttempts r) \<longleftrightarrow> spent r"
  by (simp add: budget_spent_def spent_def)

definition given_up :: "instant \<Rightarrow> db_Job \<Rightarrow> db_Job" where
  "given_up t r = r\<lparr>job_Status := StatusFailed, job_Attempts := job_Attempts r + 1,
     job_ErrorCode := Some ''lease_expired'', job_ErrorMessage := Some ''worker did not renew its lease before it expired'',
     job_FinishedAt := Some t\<rparr>"

definition back_in_line :: "db_Job \<Rightarrow> db_Job" where
  "back_in_line r = r\<lparr>job_Status := StatusQueued, job_Attempts := job_Attempts r + 1, job_WorkerID := None,
     job_LeaseExpiresAt := None\<rparr>"

lemma reclaim_specs:
  "set_expired_failed leaseExpiredErrorCode leaseExpiredErrorMessage t r = given_up t r" "set_requeued r = back_in_line r"
  by (simp_all add: set_expired_failed_def given_up_def leaseExpiredErrorCode_def leaseExpiredErrorMessage_def
      set_requeued_def back_in_line_def)

definition reclaimed :: "db_Job \<Rightarrow> db_Job \<Rightarrow> bool" where
  "reclaimed r r' \<longleftrightarrow> (if spent r
     then \<exists>t. r' = given_up t r
     else r' = back_in_line r)"

text \<open>\<open>pass_ok S ls a a'\<close>: between \<open>a\<close> and \<open>a'\<close> only rows of \<open>S\<close> changed, each as \<open>reclaimed\<close> allows;
  the messages sent are for different requeued rows; the log \<open>ls\<close> tells the truth, and names
  every row of \<open>S\<close> whose reclaiming went wrong.\<close>

definition ok_log :: "reap_log \<Rightarrow> uuid \<Rightarrow> bool" where
  "ok_log l i \<longleftrightarrow> l = Exhausted i \<or> l = Requeued i"

definition pass_ok :: "uuid set \<Rightarrow> reap_log list \<Rightarrow> lease_abs \<Rightarrow> lease_abs \<Rightarrow> bool" where
  "pass_ok S ls a a' \<longleftrightarrow>
     (\<forall>i. i \<notin> S \<longrightarrow> la_rows a' i = la_rows a i)
     \<and> (\<forall>i r. i \<in> S \<and> la_rows a i = Some r \<longrightarrow>
          la_rows a' i = Some r \<or> (\<exists>r'. reclaimed r r' \<and> la_rows a' i = Some r'))
     \<and> (\<exists>ms. la_msgs a' = la_msgs a @ ms \<and> distinct ms \<and> set ms \<subseteq> S
          \<and> (\<forall>i r. i \<in> set ms \<and> la_rows a i = Some r \<longrightarrow> \<not> spent r \<and> la_rows a' i = Some (back_in_line r))
          \<and> (\<forall>i. Requeued i \<in> set ls \<longrightarrow> i \<in> set ms))
     \<and> (\<forall>i r. la_rows a i = Some r \<and> (\<exists>l \<in> set ls. ok_log l i) \<longrightarrow>
          (\<exists>r'. reclaimed r r' \<and> la_rows a' i = Some r'))
     \<and> (\<forall>i. (\<exists>l \<in> set ls. ok_log l i) \<longrightarrow> i \<in> S)"

lemma pass_ok_refl: "pass_ok {} [] a a"
  by (simp add: pass_ok_def)

lemma pass_okD:
  assumes "pass_ok S ls a a'"
  shows "i \<notin> S \<Longrightarrow> la_rows a' i = la_rows a i"
    and "i \<in> S \<Longrightarrow> la_rows a i = Some r \<Longrightarrow>
      la_rows a' i = Some r \<or> (\<exists>r'. reclaimed r r' \<and> la_rows a' i = Some r')"
    and "l \<in> set ls \<Longrightarrow> ok_log l i \<Longrightarrow> la_rows a i = Some r \<Longrightarrow>
      \<exists>r'. reclaimed r r' \<and> la_rows a' i = Some r'"
    and "l \<in> set ls \<Longrightarrow> ok_log l i \<Longrightarrow> i \<in> S"
  using assms unfolding pass_ok_def by blast+

lemma pass_ok_Cons:
  assumes "pass_ok {i} [l] a b" and "pass_ok S ls b c" and "i \<notin> S"
  shows "pass_ok (insert i S) (l # ls) a c"
proof -
  from assms(1) obtain ms1 where m1: "la_msgs b = la_msgs a @ ms1" "distinct ms1" "set ms1 \<subseteq> {i}"
    "\<forall>r. i \<in> set ms1 \<and> la_rows a i = Some r \<longrightarrow> \<not> spent r \<and> la_rows b i = Some (back_in_line r)"
    "\<forall>j. l = Requeued j \<longrightarrow> j \<in> set ms1"
    by (auto simp: pass_ok_def)
  from assms(2) obtain ms2 where m2: "la_msgs c = la_msgs b @ ms2" "distinct ms2" "set ms2 \<subseteq> S"
    "\<forall>j r. j \<in> set ms2 \<and> la_rows b j = Some r \<longrightarrow> \<not> spent r \<and> la_rows c j = Some (back_in_line r)"
    "\<forall>j. Requeued j \<in> set ls \<longrightarrow> j \<in> set ms2"
    unfolding pass_ok_def by blast
  have ab: "\<forall>j. j \<noteq> i \<longrightarrow> la_rows b j = la_rows a j" and bc: "\<forall>j. j \<notin> S \<longrightarrow> la_rows c j = la_rows b j"
    using assms(1,2) by (auto simp: pass_ok_def)
  have msgs: "\<exists>ms. la_msgs c = la_msgs a @ ms \<and> distinct ms \<and> set ms \<subseteq> insert i S
      \<and> (\<forall>j r. j \<in> set ms \<and> la_rows a j = Some r \<longrightarrow> \<not> spent r \<and> la_rows c j = Some (back_in_line r))
      \<and> (\<forall>j. Requeued j \<in> set (l # ls) \<longrightarrow> j \<in> set ms)"
    using m1 m2 assms(3) ab bc by (intro exI [of _ "ms1 @ ms2"]) (auto dest: subsetD)
  note p1 = pass_okD [OF assms(1)] and p2 = pass_okD [OF assms(2)]
  have rows: "la_rows c j = Some r \<or> (\<exists>r'. reclaimed r r' \<and> la_rows c j = Some r')"
    if "j \<in> insert i S" "la_rows a j = Some r" for j r
    using that p1(2) [of j r] p2(2) [of j r] ab bc assms(3) by (cases "j = i") auto
  have logs: "\<exists>r'. reclaimed r r' \<and> la_rows c j = Some r'"
    if "la_rows a j = Some r" "k \<in> set (l # ls)" "ok_log k j" for j r k
    using that p1(3,4) [of k j] p2(3,4) [of k j] ab bc assms(3) by (cases "k = l"; cases "j = i") auto
  have out: "la_rows c j = la_rows a j" if "j \<notin> insert i S" for j
    using that ab bc by simp
  have inS: "j \<in> insert i S" if "k \<in> set (l # ls)" "ok_log k j" for j k
    using that p1(4) [of k j] p2(4) [of k j] by auto
  show ?thesis
    unfolding pass_ok_def using msgs rows logs out inS by (intro conjI) blast+
qed

context lease_backend
begin

abbreviation reaper :: "'w Reaper" where
  "reaper \<equiv> NewReaper L E"

lemma reaper_sel [simp]: "rp_store reaper = L" "rp_producer reaper = E"
  by (simp_all add: NewReaper_def)

lemma processing_row: "processing i a r \<Longrightarrow> la_rows a i = Some r"
  by (simp add: processing_def)

lemma fail_branch:
  assumes "I w" and "la_rows (\<alpha> w) i = Some r" and "spent r"
    and f: "ls_FailExpiredJob L i leaseExpiredErrorCode leaseExpiredErrorMessage w = (res, w')"
  shows "I w'" and "pass_ok {i} [case res of Inl e \<Rightarrow> FailErr i e | Inr _ \<Rightarrow> Exhausted i] (\<alpha> w) (\<alpha> w')"
proof -
  note d = arunD [OF fail_expired [where i = i] assms(1) f]
  show "I w'" by (rule d(1))
  show "pass_ok {i} [case res of Inl e \<Rightarrow> FailErr i e | Inr _ \<Rightarrow> Exhausted i] (\<alpha> w) (\<alpha> w')"
    using d(2,3) assms(2,3)
    by (cases res) (auto simp: pass_ok_def ok_log_def reclaimed_def fail_trace_def reclaim_specs Let_def processing_def)
qed

lemma requeue_branch:
  assumes "I w" and "la_rows (\<alpha> w) i = Some r" and "\<not> spent r"
    and f: "ls_RequeueExpiredJob L i w = (res, w1)"
  shows "I w1" and "res = Inl e \<Longrightarrow> pass_ok {i} [RequeueErr i e] (\<alpha> w) (\<alpha> w1)"
    and "res = Inr u \<Longrightarrow> en_Enqueue E i w1 = (res', w2) \<Longrightarrow> I w2
      \<and> pass_ok {i} [case res' of Inl e \<Rightarrow> EnqueueErr i e | Inr _ \<Rightarrow> Requeued i] (\<alpha> w) (\<alpha> w2)"
proof -
  note d = arunD [OF requeue [where i = i] assms(1) f]
  show I1: "I w1" by (rule d(1))
  show "pass_ok {i} [RequeueErr i e] (\<alpha> w) (\<alpha> w1)" if "res = Inl e"
    using d(3) [OF that] assms(2,3)
    by (auto simp: pass_ok_def ok_log_def reclaimed_def requeue_trace_def reclaim_specs Let_def processing_def)
  show "I w2 \<and> pass_ok {i} [case res' of Inl e \<Rightarrow> EnqueueErr i e | Inr _ \<Rightarrow> Requeued i] (\<alpha> w) (\<alpha> w2)"
    if r: "res = Inr u" and q: "en_Enqueue E i w1 = (res', w2)"
  proof -
    have a1: "\<alpha> w1 = last (requeue_trace i r (\<alpha> w))"
      using d(2) [OF r] assms(2) by (auto simp: processing_def)
    note e = implementsD [OF enqueue I1 q]
    have "\<alpha> w2 = \<alpha> w1 \<and> (\<exists>e. res' = Inl e) \<or> \<alpha> w2 = la_send i (\<alpha> w1)"
      using e(2,3) by (cases res') (auto simp: err_effect_def)
    with e(1) a1 assms(2,3) show ?thesis
      by (auto simp: pass_ok_def ok_log_def reclaimed_def requeue_trace_def reclaim_specs Let_def split: sum.splits)
  qed
qed

lemma reap_job_ok:
  assumes "I w" and "la_rows (\<alpha> w) (xj_ID x) = Some r"
    and "xj_Attempts x = job_Attempts r" "xj_MaxAttempts x = job_MaxAttempts r"
    and j: "reap_job reaper x w = (l, w')"
  shows "I w' \<and> pass_ok {xj_ID x} [l] (\<alpha> w) (\<alpha> w')"
proof (cases "spent r")
  case True
  obtain res w1 where f: "ls_FailExpiredJob L (xj_ID x) leaseExpiredErrorCode leaseExpiredErrorMessage w = (res, w1)"
    by (cases "ls_FailExpiredJob L (xj_ID x) leaseExpiredErrorCode leaseExpiredErrorMessage w")
  with fail_branch [OF assms(1,2) True f] True j assms(3,4) show ?thesis
    by (cases res) (auto simp: reap_job_def budget_spent_row [symmetric])
next
  case False
  obtain res w1 where f: "ls_RequeueExpiredJob L (xj_ID x) w = (res, w1)"
    by (cases "ls_RequeueExpiredJob L (xj_ID x) w")
  obtain res' w2 where q: "en_Enqueue E (xj_ID x) w1 = (res', w2)" by (cases "en_Enqueue E (xj_ID x) w1")
  note b = requeue_branch [OF assms(1,2) False f]
  show ?thesis
    using b(1,2) b(3) [OF _ q] False j assms(3,4) f q
    by (cases res; cases res') (auto simp: reap_job_def budget_spent_row [symmetric])
qed

lemma reap_jobs_ok:
  assumes "I w" and "distinct (map xj_ID xs)" and "reap_jobs reaper xs w = (ls, w')"
    and "\<forall>x \<in> set xs. \<exists>r. la_rows (\<alpha> w) (xj_ID x) = Some r
          \<and> xj_Attempts x = job_Attempts r \<and> xj_MaxAttempts x = job_MaxAttempts r"
  shows "I w' \<and> pass_ok (xj_ID ` set xs) ls (\<alpha> w) (\<alpha> w') \<and> length ls = length xs"
  using assms
proof (induction xs arbitrary: w ls)
  case (Cons x xs)
  obtain l w1 where j: "reap_job reaper x w = (l, w1)" by (cases "reap_job reaper x w")
  obtain ls1 where k: "reap_jobs reaper xs w1 = (ls1, w')" and ls: "ls = l # ls1"
    using Cons.prems(3) j by (auto simp: Let_def split: prod.splits)
  have new: "xj_ID x \<notin> xj_ID ` set xs" and dist: "distinct (map xj_ID xs)" using Cons.prems(2) by auto
  have p: "I w1 \<and> pass_ok {xj_ID x} [l] (\<alpha> w) (\<alpha> w1)"
    using Cons.prems(4) reap_job_ok [OF Cons.prems(1) _ _ _ j] by force
  then have same: "\<forall>i. i \<noteq> xj_ID x \<longrightarrow> la_rows (\<alpha> w1) i = la_rows (\<alpha> w) i" by (simp add: pass_ok_def)
  have "\<forall>y \<in> set xs. \<exists>r. la_rows (\<alpha> w1) (xj_ID y) = Some r
      \<and> xj_Attempts y = job_Attempts r \<and> xj_MaxAttempts y = job_MaxAttempts r"
    using Cons.prems(4) same new by (metis image_eqI list.set_intros(2))
  with Cons.IH [OF _ dist k] p have q: "I w' \<and> pass_ok (xj_ID ` set xs) ls1 (\<alpha> w1) (\<alpha> w') \<and> length ls1 = length xs"
    by blast
  then show ?case using pass_ok_Cons [OF _ _ new] p ls by auto
qed (simp add: pass_ok_refl)

text \<open>A pass reclaims only rows whose lease has expired at the time of the listing, and when its log
  names no error it has reclaimed all of them.\<close>

lemma ReapOnce_ok:
  assumes I: "I w" and r: "ReapOnce reaper w = (ls, w')"
  shows "I w' \<and> (\<exists>S. (\<forall>i \<in> S. \<exists>r. la_rows (\<alpha> w) i = Some r \<and> lease_expired (now w) r)
      \<and> pass_ok S ls (\<alpha> w) (\<alpha> w'))"
proof -
  obtain res w1 where l: "ls_ListExpiredLeases L w = (res, w1)" by (cases "ls_ListExpiredLeases L w")
  note d = listing [OF I l]
  show ?thesis
  proof (cases res)
    case (Inl e)
    then have "ls = [ListFailed e]" "w' = w1" using r l by (simp_all add: ReapOnce_def)
    then show ?thesis using d by (auto simp: pass_ok_def ok_log_def intro!: exI [of _ "{}"])
  next
    case (Inr xs)
    then have j: "reap_jobs reaper xs w1 = (ls, w')" using r l by (simp add: ReapOnce_def)
    have x: "I w1" "\<alpha> w1 = \<alpha> w" "lists_expired (now w) (\<alpha> w) xs" using d Inr by simp_all
    have "I w' \<and> pass_ok (xj_ID ` set xs) ls (\<alpha> w) (\<alpha> w')"
      using reap_jobs_ok [OF x(1) _ j] x(2,3) by (force simp: lists_expired_def)
    moreover have "\<forall>i \<in> xj_ID ` set xs. \<exists>r. la_rows (\<alpha> w) i = Some r \<and> lease_expired (now w) r"
      using x(3) by (auto simp: lists_expired_def)
    ultimately show ?thesis by blast
  qed
qed

text \<open>A pass whose log names no error has reclaimed every expired row.\<close>

lemma reap_log_names:
  "reap_jobs reaper xs w = (ls, w') \<Longrightarrow> \<forall>l \<in> set ls. \<exists>i. ok_log l i
    \<Longrightarrow> x \<in> set xs \<Longrightarrow> \<exists>l \<in> set ls. ok_log l (xj_ID x)"
proof (induction xs arbitrary: w ls)
  case (Cons y xs)
  obtain l w1 where j: "reap_job reaper y w = (l, w1)" by (cases "reap_job reaper y w")
  obtain ls1 where k: "reap_jobs reaper xs w1 = (ls1, w')" and ls: "ls = l # ls1"
    using Cons.prems(1) j by (auto simp: Let_def split: prod.splits)
  have "\<exists>i. ok_log l i" using Cons.prems(2) ls by simp
  then have "ok_log l (xj_ID y)"
    using j by (auto simp: reap_job_def ok_log_def split: if_splits prod.splits sum.splits)
  with Cons.IH [OF k] Cons.prems(2,3) ls show ?case by auto
qed simp

lemma ReapOnce_complete:
  assumes "I w" and "ReapOnce reaper w = (ls, w')" and "\<forall>l \<in> set ls. \<exists>i. ok_log l i"
    and "la_rows (\<alpha> w) i = Some r" and "lease_expired (now w) r"
  shows "\<exists>r'. reclaimed r r' \<and> la_rows (\<alpha> w') i = Some r'"
proof -
  obtain res w1 where l: "ls_ListExpiredLeases L w = (res, w1)" by (cases "ls_ListExpiredLeases L w")
  then obtain xs where xs: "res = Inr xs" "reap_jobs reaper xs w1 = (ls, w')"
    using assms(2,3) by (cases res) (auto simp: ReapOnce_def ok_log_def)
  have x: "I w1" "\<alpha> w1 = \<alpha> w" "lists_expired (now w) (\<alpha> w) xs"
    using listing [OF assms(1) l] xs(1) by simp_all
  then obtain y where "y \<in> set xs" "xj_ID y = i" using assms(4,5) by (auto simp: lists_expired_def)
  then have "\<exists>l \<in> set ls. ok_log l i" using reap_log_names [OF xs(2) assms(3)] by blast
  moreover have "pass_ok (xj_ID ` set xs) ls (\<alpha> w) (\<alpha> w')"
    using reap_jobs_ok [OF x(1) _ xs(2)] x(2,3) by (force simp: lists_expired_def)
  ultimately show ?thesis using assms(4) unfolding pass_ok_def by blast
qed

end

end
