(* ===== verification/Schema.thy ===== *)
theory Schema
  imports Database "HOL-Library.Sublist" "HOL-Library.More_List"
begin

text \<open>
  What the schema promises of every reachable database, and that every statement of the
  API keeps it.

  \<^item> \<open>row_of d i\<close> is the row of job \<open>i\<close>; an \<open>UPDATE\<close> by primary key is a point update of it.
  \<^item> \<open>schema_ok\<close> collects the constraints of the migrations: primary keys, unique indexes
    (the partial one on \<open>(user_id, idempotency_key)\<close> included), foreign keys, checks and
    column ranges.
  \<^item> \<open>api_stmt\<close> is one atomic statement of the API, whatever its arguments; a run of the API
    processes, however interleaved, is a sequence of such steps.
  \<^item> \<open>evolves\<close> relates a database to a later one: rows are never removed, their identity
    columns never change, a deletion is never undone, the event log only grows.
\<close>

section \<open>Rows by primary key\<close>

definition row_of :: "database \<Rightarrow> uuid \<Rightarrow> db_Job option" where
  "row_of d i = find (\<lambda>r. job_ID r = i) (tbl_jobs d)"

text \<open>The columns no statement ever sets after the insert.\<close>

definition job_static :: "db_Job \<Rightarrow>
    uuid \<times> uuid \<times> string option \<times> string \<times> string \<times> int \<times> string \<times> int \<times> instant" where
  "job_static r = (job_ID r, job_UserID r, job_IdempotencyKey r, job_ObjectKey r,
     job_OriginalFilename r, job_SizeBytes r, job_Model r, job_MaxAttempts r, job_CreatedAt r)"

lemma job_static_eqD:
  assumes "job_static r' = job_static r"
  shows "job_ID r' = job_ID r" "job_UserID r' = job_UserID r"
    "job_IdempotencyKey r' = job_IdempotencyKey r" "job_ObjectKey r' = job_ObjectKey r"
    "job_MaxAttempts r' = job_MaxAttempts r" "job_CreatedAt r' = job_CreatedAt r"
  using assms by (simp_all add: job_static_def)

lemma row_of_ID: "row_of d i = Some r \<Longrightarrow> job_ID r = i"
  by (auto simp: row_of_def dest: find_eq_Some_mem)

lemma row_of_mem: "row_of d i = Some r \<Longrightarrow> r \<in> set (tbl_jobs d)"
  by (auto simp: row_of_def dest: find_eq_Some_mem)

lemma row_of_None: "row_of d i = None \<longleftrightarrow> (\<forall>r \<in> set (tbl_jobs d). job_ID r \<noteq> i)"
  by (simp add: row_of_def find_None_mem)

lemma row_of_Some_unique:
  "distinct (map job_ID (tbl_jobs d)) \<Longrightarrow> r \<in> set (tbl_jobs d) \<Longrightarrow> row_of d (job_ID r) = Some r"
  unfolding row_of_def by (rule find_distinct_key [of job_ID]) auto

lemma row_of_frame [simp]:
  "row_of (d\<lparr>tbl_users := us\<rparr>) = row_of d"
  "row_of (d\<lparr>tbl_api_keys := ks\<rparr>) = row_of d"
  "row_of (d\<lparr>tbl_job_events := es\<rparr>) = row_of d"
  "row_of (d\<lparr>notify_queue := ns\<rparr>) = row_of d"
  "row_of (d\<lparr>tbl_transcripts := ts\<rparr>) = row_of d"
  "row_of (d\<lparr>tbl_segments := ss\<rparr>) = row_of d"
  by (simp_all add: row_of_def fun_eq_iff)

lemma find_update_where:
  assumes "\<And>r. k (f r) = k r"
  shows "find (\<lambda>r. k r = i) (update_where p f rows)
    = map_option (\<lambda>r. if p r then f r else r) (find (\<lambda>r. k r = i) rows)"
  by (induction rows) (simp_all add: assms)

lemma row_of_update:
  assumes "\<And>r. job_ID (f r) = job_ID r"
  shows "row_of (d\<lparr>tbl_jobs := update_where p f (tbl_jobs d)\<rparr>) i
    = map_option (\<lambda>r. if p r then f r else r) (row_of d i)"
  unfolding row_of_def by (simp add: find_update_where [of job_ID, OF assms])

lemma row_of_insert:
  "row_of (d\<lparr>tbl_jobs := tbl_jobs d @ [r]\<rparr>) i
    = (case row_of d i of Some r' \<Rightarrow> Some r' | None \<Rightarrow> if job_ID r = i then Some r else None)"
proof -
  have "find p (xs @ [y]) = (case find p xs of Some z \<Rightarrow> Some z | None \<Rightarrow> if p y then Some y else None)"
    for p :: "db_Job \<Rightarrow> bool" and xs y
    by (induction xs) auto
  then show ?thesis by (simp add: row_of_def)
qed

text \<open>With a primary key, selecting by id reads the row of that id.\<close>

lemma filter_by_ID:
  assumes "distinct (map job_ID (tbl_jobs d))" and "\<And>r. p r \<Longrightarrow> job_ID r = i"
  shows "filter p (tbl_jobs d) = (case row_of d i of Some r \<Rightarrow> if p r then [r] else [] | None \<Rightarrow> [])"
proof -
  have "filter p rows = (case find (\<lambda>r. job_ID r = i) rows of Some r \<Rightarrow> if p r then [r] else [] | None \<Rightarrow> [])"
    if "distinct (map job_ID rows)" for rows
    using that
  proof (induction rows)
    case (Cons r rows)
    show ?case
    proof (cases "job_ID r = i")
      case True
      then have "filter p rows = []"
        using Cons.prems assms(2) by (auto simp: filter_empty_conv image_iff)
      with True show ?thesis by simp
    next
      case False
      then have "\<not> p r" using assms(2) by blast
      with False Cons show ?thesis by simp
    qed
  qed simp
  from this [OF assms(1)] show ?thesis by (simp add: row_of_def)
qed

lemma scanJob_by_ID:
  assumes "distinct (map job_ID (tbl_jobs d))" and "\<And>r. p r \<Longrightarrow> job_ID r = i"
  shows "scanJob (map f (filter p (tbl_jobs d)))
    = (case row_of d i of Some r \<Rightarrow> if p r then Inr (f r) else Inl ErrNoRows | None \<Rightarrow> Inl ErrNoRows)"
  by (simp add: filter_by_ID [OF assms] scanJob_def split: option.splits)

section \<open>The constraints of the schema\<close>

definition idem_keys :: "db_Job list \<Rightarrow> (uuid \<times> string) list" where
  "idem_keys rows =
    List.map_filter (\<lambda>r. map_option (Pair (job_UserID r)) (job_IdempotencyKey r)) rows"

definition job_row_ok :: "db_Job \<Rightarrow> bool" where
  "job_row_ok r \<longleftrightarrow> job_Status r \<in> set all_statuses \<and> in_int32 (job_Attempts r)
     \<and> in_int32 (job_MaxAttempts r)"

definition users_ok :: "database \<Rightarrow> bool" where
  "users_ok d \<longleftrightarrow> distinct (map u_ID (tbl_users d)) \<and> distinct (map u_Email (tbl_users d))"

definition api_keys_ok :: "database \<Rightarrow> bool" where
  "api_keys_ok d \<longleftrightarrow> distinct (map k_ID (tbl_api_keys d)) \<and> distinct (map k_KeyHash (tbl_api_keys d))
     \<and> k_UserID ` set (tbl_api_keys d) \<subseteq> u_ID ` set (tbl_users d)"

definition jobs_ok :: "database \<Rightarrow> bool" where
  "jobs_ok d \<longleftrightarrow> distinct (map job_ID (tbl_jobs d)) \<and> distinct (idem_keys (tbl_jobs d))
     \<and> job_UserID ` set (tbl_jobs d) \<subseteq> u_ID ` set (tbl_users d)
     \<and> (\<forall>r \<in> set (tbl_jobs d). job_row_ok r)"

definition events_ok :: "database \<Rightarrow> bool" where
  "events_ok d \<longleftrightarrow> distinct (map ev_ID (tbl_job_events d))
     \<and> ev_JobID ` set (tbl_job_events d) \<subseteq> job_ID ` set (tbl_jobs d)
     \<and> ev_EventType ` set (tbl_job_events d) \<subseteq> set all_event_types"

definition transcripts_ok :: "database \<Rightarrow> bool" where
  "transcripts_ok d \<longleftrightarrow> distinct (map tr_ID (tbl_transcripts d))
     \<and> distinct (map tr_JobID (tbl_transcripts d))
     \<and> tr_JobID ` set (tbl_transcripts d) \<subseteq> job_ID ` set (tbl_jobs d)
     \<and> distinct (map seg_ID (tbl_segments d))
     \<and> distinct (map (\<lambda>s. (seg_TranscriptID s, seg_Idx s)) (tbl_segments d))
     \<and> seg_TranscriptID ` set (tbl_segments d) \<subseteq> tr_ID ` set (tbl_transcripts d)"

definition schema_ok :: "database \<Rightarrow> bool" where
  "schema_ok d \<longleftrightarrow> users_ok d \<and> api_keys_ok d \<and> jobs_ok d \<and> events_ok d \<and> transcripts_ok d"

lemmas schema_defs = schema_ok_def users_ok_def api_keys_ok_def jobs_ok_def events_ok_def
  transcripts_ok_def

lemma schema_ok_distinct: "schema_ok d \<Longrightarrow> distinct (map job_ID (tbl_jobs d))"
  by (simp add: schema_defs)

lemma schema_ok_row: "schema_ok d \<Longrightarrow> row_of d i = Some r \<Longrightarrow> job_row_ok r"
  by (auto simp: schema_defs dest: row_of_mem)

text \<open>The unique index on idempotency keys, read off \<open>schema_ok\<close>.\<close>

lemma idem_keys_mem: "(u, k) \<in> set (idem_keys rows) \<longleftrightarrow>
    (\<exists>r \<in> set rows. job_UserID r = u \<and> job_IdempotencyKey r = Some k)"
  by (force simp: idem_keys_def List.map_filter_def)

lemma idem_keys_static:
  "map job_static rows = map job_static rows' \<Longrightarrow> idem_keys rows = idem_keys rows'"
proof (induction rows rows' rule: list_induct2')
  case (4 r rows r' rows')
  then have "job_UserID r = job_UserID r'" "job_IdempotencyKey r = job_IdempotencyKey r'"
    by (simp_all add: job_static_def)
  with 4 show ?case by (simp add: idem_keys_def List.map_filter_def)
qed (simp_all add: idem_keys_def)

lemma idem_keys_append: "idem_keys (xs @ ys) = idem_keys xs @ idem_keys ys"
  by (simp add: idem_keys_def List.map_filter_def)

lemma distinct_idem_keysD:
  assumes "distinct (idem_keys rows)" and "r \<in> set rows" "r' \<in> set rows"
    and "job_UserID r = job_UserID r'" and "job_IdempotencyKey r = Some k" "job_IdempotencyKey r' = Some k"
  shows "r = r'"
proof (rule distinct_map_eq)
  let ?key = "\<lambda>r. map_option (Pair (job_UserID r)) (job_IdempotencyKey r)"
  show "distinct (map (the \<circ> ?key) (filter (\<lambda>r. ?key r \<noteq> None) rows))"
    using assms(1) by (simp add: idem_keys_def List.map_filter_def)
  show "r \<in> set (filter (\<lambda>r. ?key r \<noteq> None) rows)" "r' \<in> set (filter (\<lambda>r. ?key r \<noteq> None) rows)"
    "(the \<circ> ?key) r = (the \<circ> ?key) r'"
    using assms(2-) by simp_all
qed

section \<open>Updates that keep the identity columns\<close>

text \<open>The one lemma behind every \<open>UPDATE jobs\<close>.\<close>

lemma schema_ok_update_jobs:
  assumes ok: "schema_ok d" and static: "\<And>r. p r \<Longrightarrow> job_static (f r) = job_static r"
    and row: "\<And>r. r \<in> set (tbl_jobs d) \<Longrightarrow> p r \<Longrightarrow> job_row_ok r \<Longrightarrow> job_row_ok (f r)"
  shows "schema_ok (d\<lparr>tbl_jobs := update_where p f (tbl_jobs d)\<rparr>)"
proof -
  let ?rows = "update_where p f (tbl_jobs d)"
  have st: "map job_static ?rows = map job_static (tbl_jobs d)"
    by (rule map_update_where) (rule static)
  have ids: "map job_ID ?rows = map job_ID (tbl_jobs d)"
    by (rule map_update_where) (rule job_static_eqD(1) [OF static])
  have users: "map job_UserID ?rows = map job_UserID (tbl_jobs d)"
    by (rule map_update_where) (rule job_static_eqD(2) [OF static])
  have keys: "idem_keys ?rows = idem_keys (tbl_jobs d)"
    using st by (rule idem_keys_static)
  have "\<forall>r \<in> set ?rows. job_row_ok r"
    using ok row by (auto simp: set_update_where schema_defs)
  moreover have "job_ID ` set ?rows = job_ID ` set (tbl_jobs d)"
    using ids by (metis set_map)
  moreover have "job_UserID ` set ?rows = job_UserID ` set (tbl_jobs d)"
    using users by (metis set_map)
  ultimately show ?thesis
    using ok ids keys by (simp add: schema_defs)
qed

lemma static_updates [simp]:
  "job_static (set_status s t r) = job_static r"
  "job_static (reset_for_retry r) = job_static r"
  "job_static (set_cancelled t r) = job_static r"
  "job_static (set_requeued r) = job_static r"
  "job_static (set_expired_failed c m t r) = job_static r"
  "job_static (r\<lparr>job_DeletedAt := x\<rparr>) = job_static r"
  by (simp_all add: job_static_def set_status_def reset_for_retry_def set_cancelled_def
      set_requeued_def set_expired_failed_def)

lemma all_statuses_mem [simp]:
  "StatusPending \<in> set all_statuses" "StatusQueued \<in> set all_statuses"
  "StatusProcessing \<in> set all_statuses" "StatusRetrying \<in> set all_statuses"
  "StatusSucceeded \<in> set all_statuses" "StatusFailed \<in> set all_statuses"
  "StatusCancelled \<in> set all_statuses"
  by (simp_all add: all_statuses_def)

lemma all_event_types_mem [simp]:
  "EventCreated \<in> set all_event_types" "EventQueued \<in> set all_event_types"
  "EventLeased \<in> set all_event_types" "EventProgress \<in> set all_event_types"
  "EventSucceeded \<in> set all_event_types" "EventFailed \<in> set all_event_types"
  "EventRetrying \<in> set all_event_types" "EventCancelled \<in> set all_event_types"
  by (simp_all add: all_event_types_def)

section \<open>The statements of the API as steps\<close>

inductive api_stmt :: "database \<Rightarrow> database \<Rightarrow> bool" where
  create_job: "api_stmt d (snd (q_CreateJob p now d))"
| update_status: "api_stmt d (snd (q_UpdateJobStatus i s now d))"
| retry_job: "api_stmt d (snd (q_RetryJob i u now d))"
| cancel_job: "api_stmt d (snd (q_CancelJob i u now d))"
| requeue_expired: "api_stmt d (snd (q_RequeueExpiredJob i now d))"
| fail_expired: "api_stmt d (snd (q_FailExpiredJob i c m now d))"
| soft_delete: "api_stmt d (snd (q_SoftDeleteJob i u now d))"
| create_event: "api_stmt d (snd (q_CreateJobEvent e i ty pl now d))"
| create_user: "api_stmt d (snd (q_CreateUser i em h now d))"
| create_api_key: "api_stmt d (snd (q_CreateAPIKey i u n h now d))"
| revoke_api_key: "api_stmt d (snd (q_RevokeAPIKey i u now d))"
| touch_api_key: "api_stmt d (snd (q_TouchAPIKeyLastUsed i now d))"

subsection \<open>Every statement keeps the constraints\<close>

lemma schema_ok_insert_job:
  assumes ok: "schema_ok d" and row: "job_row_ok r"
    and id: "\<forall>r' \<in> set (tbl_jobs d). job_ID r' \<noteq> job_ID r"
    and key: "\<forall>r' \<in> set (tbl_jobs d). \<not> same_idem_key (job_UserID r) (job_IdempotencyKey r) r'"
    and user: "job_UserID r \<in> u_ID ` set (tbl_users d)"
  shows "schema_ok (d\<lparr>tbl_jobs := tbl_jobs d @ [r]\<rparr>)"
proof -
  have "distinct (idem_keys (tbl_jobs d @ [r]))"
  proof (cases "job_IdempotencyKey r")
    case None
    with ok show ?thesis by (simp add: schema_defs idem_keys_append) (simp add: idem_keys_def List.map_filter_def)
  next
    case (Some k)
    with key have "(job_UserID r, k) \<notin> set (idem_keys (tbl_jobs d))"
      by (auto simp: idem_keys_mem same_idem_key_def)
    with Some ok show ?thesis
      by (simp add: schema_defs idem_keys_append) (simp add: idem_keys_def List.map_filter_def)
  qed
  moreover have "distinct (map job_ID (tbl_jobs d @ [r]))"
    using ok id by (auto simp: schema_defs)
  ultimately show ?thesis
    using ok row user by (auto simp: schema_defs)
qed

lemma schema_ok_CreateJob: "schema_ok d \<Longrightarrow> schema_ok (snd (q_CreateJob p now d))"
  by (auto simp: q_CreateJob_def new_job_row_def job_row_ok_def in_int32_def
      intro!: schema_ok_insert_job intro: rev_image_eqI)

lemma row_ok_updates:
  "s \<in> set all_statuses \<Longrightarrow> job_row_ok r \<Longrightarrow> job_row_ok (set_status s t r)"
  "job_row_ok r \<Longrightarrow> job_row_ok (reset_for_retry r)"
  "job_row_ok r \<Longrightarrow> job_row_ok (set_cancelled t r)"
  "job_row_ok r \<Longrightarrow> in_int32 (job_Attempts r + 1) \<Longrightarrow> job_row_ok (set_requeued r)"
  "job_row_ok r \<Longrightarrow> in_int32 (job_Attempts r + 1) \<Longrightarrow> job_row_ok (set_expired_failed c m t r)"
  "job_row_ok r \<Longrightarrow> job_row_ok (r\<lparr>job_DeletedAt := x\<rparr>)"
  by (auto simp: job_row_ok_def set_status_def reset_for_retry_def set_cancelled_def
      set_requeued_def set_expired_failed_def in_int32_def)

lemma schema_ok_update_returning:
  assumes "schema_ok d" and "\<And>r. job_static (f r) = job_static r"
    and "\<And>r. r \<in> set (tbl_jobs d) \<Longrightarrow> p r \<Longrightarrow> job_row_ok r \<Longrightarrow> job_row_ok (f r)"
  shows "schema_ok (snd (update_jobs_returning p f d))"
  using assms by (simp add: update_jobs_returning_def schema_ok_update_jobs)

lemma schema_ok_UpdateJobStatus: "schema_ok d \<Longrightarrow> schema_ok (snd (q_UpdateJobStatus i s now d))"
  by (auto simp: q_UpdateJobStatus_def Let_def intro!: schema_ok_update_returning row_ok_updates)

lemma schema_ok_RetryJob: "schema_ok d \<Longrightarrow> schema_ok (snd (q_RetryJob i u now d))"
  by (auto simp: q_RetryJob_def intro!: schema_ok_update_returning row_ok_updates)

lemma schema_ok_CancelJob: "schema_ok d \<Longrightarrow> schema_ok (snd (q_CancelJob i u now d))"
  by (auto simp: q_CancelJob_def intro!: schema_ok_update_returning row_ok_updates)

lemma schema_ok_RequeueExpiredJob: "schema_ok d \<Longrightarrow> schema_ok (snd (q_RequeueExpiredJob i now d))"
  by (auto simp: q_RequeueExpiredJob_def Let_def attempts_overflow_def
      intro!: schema_ok_update_returning row_ok_updates)

lemma schema_ok_FailExpiredJob: "schema_ok d \<Longrightarrow> schema_ok (snd (q_FailExpiredJob i c m now d))"
  by (auto simp: q_FailExpiredJob_def Let_def attempts_overflow_def
      intro!: schema_ok_update_returning row_ok_updates)

lemma schema_ok_SoftDeleteJob: "schema_ok d \<Longrightarrow> schema_ok (snd (q_SoftDeleteJob i u now d))"
  by (auto simp: q_SoftDeleteJob_def Let_def intro!: schema_ok_update_jobs row_ok_updates)

lemma schema_ok_CreateJobEvent: "schema_ok d \<Longrightarrow> schema_ok (snd (q_CreateJobEvent e i ty pl now d))"
  by (auto simp: q_CreateJobEvent_def Let_def schema_defs)

lemma schema_ok_CreateUser: "schema_ok d \<Longrightarrow> schema_ok (snd (q_CreateUser i em h now d))"
  by (auto simp: q_CreateUser_def Let_def schema_defs)

lemma schema_ok_CreateAPIKey: "schema_ok d \<Longrightarrow> schema_ok (snd (q_CreateAPIKey i u n h now d))"
  by (auto simp: q_CreateAPIKey_def Let_def schema_defs)

lemma schema_ok_update_keys:
  assumes "schema_ok d" and "\<And>k. k_ID (f k) = k_ID k" "\<And>k. k_KeyHash (f k) = k_KeyHash k"
    and "\<And>k. k_UserID (f k) = k_UserID k"
  shows "schema_ok (d\<lparr>tbl_api_keys := update_where p f (tbl_api_keys d)\<rparr>)"
proof -
  have "map k_UserID (update_where p f (tbl_api_keys d)) = map k_UserID (tbl_api_keys d)"
    using assms(4) by (simp add: map_update_where)
  then have "k_UserID ` set (update_where p f (tbl_api_keys d)) = k_UserID ` set (tbl_api_keys d)"
    by (metis set_map)
  then show ?thesis
    using assms by (simp add: schema_defs map_update_where)
qed

theorem api_stmt_schema_ok: "api_stmt d d' \<Longrightarrow> schema_ok d \<Longrightarrow> schema_ok d'"
proof (induction rule: api_stmt.induct)
  case (revoke_api_key d i u now)
  then show ?case by (simp add: q_RevokeAPIKey_def Let_def schema_ok_update_keys)
next
  case (touch_api_key d i now)
  then show ?case by (simp add: q_TouchAPIKeyLastUsed_def schema_ok_update_keys)
qed (blast intro: schema_ok_CreateJob schema_ok_UpdateJobStatus schema_ok_RetryJob
    schema_ok_CancelJob schema_ok_RequeueExpiredJob schema_ok_FailExpiredJob schema_ok_SoftDeleteJob
    schema_ok_CreateJobEvent schema_ok_CreateUser schema_ok_CreateAPIKey)+

lemma api_stmts_schema_ok: "api_stmt\<^sup>*\<^sup>* d d' \<Longrightarrow> schema_ok d \<Longrightarrow> schema_ok d'"
  by (induction rule: rtranclp_induct) (auto intro: api_stmt_schema_ok)

subsection \<open>How a database evolves\<close>

definition row_evolves :: "db_Job \<Rightarrow> db_Job \<Rightarrow> bool" where
  "row_evolves r r' \<longleftrightarrow> job_static r' = job_static r
     \<and> (job_DeletedAt r \<noteq> None \<longrightarrow> job_DeletedAt r' = job_DeletedAt r)"

definition evolves :: "database \<Rightarrow> database \<Rightarrow> bool" where
  "evolves d d' \<longleftrightarrow>
     (\<forall>i r. row_of d i = Some r \<longrightarrow> (\<exists>r'. row_of d' i = Some r' \<and> row_evolves r r'))
     \<and> prefix (tbl_job_events d) (tbl_job_events d')
     \<and> prefix (notify_queue d) (notify_queue d')
     \<and> prefix (tbl_users d) (tbl_users d')"

lemma row_evolves_refl [simp]: "row_evolves r r"
  by (simp add: row_evolves_def)

lemma row_evolves_trans: "row_evolves r s \<Longrightarrow> row_evolves s t \<Longrightarrow> row_evolves r t"
  by (simp add: row_evolves_def)

lemma evolves_refl [simp]: "evolves d d"
  by (simp add: evolves_def)

lemma evolves_trans: "evolves d e \<Longrightarrow> evolves e f \<Longrightarrow> evolves d f"
  unfolding evolves_def by (meson prefix_order.trans row_evolves_trans)

lemma evolves_update_jobs:
  assumes "\<And>r. job_static (f r) = job_static r"
    and "\<And>r. p r \<Longrightarrow> job_DeletedAt r \<noteq> None \<Longrightarrow> job_DeletedAt (f r) = job_DeletedAt r"
  shows "evolves d (d\<lparr>tbl_jobs := update_where p f (tbl_jobs d)\<rparr>)"
proof -
  have "\<And>r. job_ID (f r) = job_ID r" using job_static_eqD(1) [OF assms(1)] .
  then show ?thesis
    using assms by (auto simp: evolves_def row_of_update row_evolves_def)
qed

lemma evolves_update_returning:
  assumes "\<And>r. job_static (f r) = job_static r" and "\<And>r. job_DeletedAt (f r) = job_DeletedAt r"
  shows "evolves d (snd (update_jobs_returning p f d))"
  using assms by (simp add: update_jobs_returning_def evolves_update_jobs)

lemma deleted_updates [simp]:
  "job_DeletedAt (set_status s t r) = job_DeletedAt r"
  "job_DeletedAt (reset_for_retry r) = job_DeletedAt r"
  "job_DeletedAt (set_cancelled t r) = job_DeletedAt r"
  "job_DeletedAt (set_requeued r) = job_DeletedAt r"
  "job_DeletedAt (set_expired_failed c m t r) = job_DeletedAt r"
  by (simp_all add: set_status_def reset_for_retry_def set_cancelled_def
      set_requeued_def set_expired_failed_def)

theorem api_stmt_evolves: "api_stmt d d' \<Longrightarrow> evolves d d'"
proof (induction rule: api_stmt.induct)
  case (create_job d p now)
  show ?case
    by (auto simp: q_CreateJob_def evolves_def row_of_insert split: option.splits)
next
  case (soft_delete d i u now)
  show ?case by (auto simp: q_SoftDeleteJob_def Let_def intro!: evolves_update_jobs)
qed (auto simp: q_UpdateJobStatus_def q_RetryJob_def q_CancelJob_def q_RequeueExpiredJob_def
    q_FailExpiredJob_def q_CreateJobEvent_def q_CreateUser_def q_CreateAPIKey_def q_RevokeAPIKey_def
    q_TouchAPIKeyLastUsed_def Let_def evolves_update_returning, auto simp: evolves_def)

lemma api_stmts_evolves: "api_stmt\<^sup>*\<^sup>* d d' \<Longrightarrow> evolves d d'"
  by (induction rule: rtranclp_induct) (auto intro: evolves_trans api_stmt_evolves)

end
