(* ===== verification/World.thy ===== *)
theory World
  imports Schema
begin

text \<open>
  The state a call of the API runs in, and its calls to Postgres, Redis and the object store.

  The servers behind \<open>pgx\<close>, \<open>go-redis\<close> and \<open>minio-go\<close> are outside the repository. What the
  code relies on is a parameter: an environment \<open>env\<close> that gives, for the \<open>n\<close>-th call that
  leaves the process, the time it runs at and whether it fails. A call can fail before the
  server acted on it (\<open>LostRequest\<close>) or after (\<open>LostReply\<close>); in both cases the caller gets an
  error that is neither \<open>pgx.ErrNoRows\<close> nor a \<open>PgError\<close>. \<open>LostRequest\<close> also stands for a statement that the server refuses for a limit
  of its own, which no code of the repository tells apart from a lost one: the trigger's \<open>pg_notify\<close> refuses a payload of 8000 bytes or
  more, and the insert of the event fails with it. \<open>uuid.New()\<close> reads the next value of
  a sequence of which nothing is assumed, and so does \<open>rand.Read\<close>. A theorem about every world is a theorem about
  every clock, every pattern of failures and every sequence of identifiers and random bytes.
\<close>

section \<open>State and environment\<close>

datatype fault = NoFault | LostRequest | LostReply

record env =
  clock :: "nat \<Rightarrow> instant"
  fault_at :: "nat \<Rightarrow> fault"
  uuid_at :: "nat \<Rightarrow> uuid"
  rand_at :: "nat \<Rightarrow> nat \<Rightarrow> bytes option"

text \<open>A Redis stream is the list of its entries, oldest first; an entry is a list of field and
  value pairs, with a job id kept as the identifier itself rather than as its text.\<close>

type_synonym redis_entry = "(string \<times> uuid) list"

record world =
  w_env :: env
  w_calls :: nat
  w_uuids :: nat
  w_rands :: nat
  w_db :: database
  w_redis :: "string \<Rightarrow> redis_entry list"
  w_bucket :: "string set"

definition uuid_New :: "world \<Rightarrow> uuid \<times> world" where
  "uuid_New w = (uuid_at (w_env w) (w_uuids w), w\<lparr>w_uuids := Suc (w_uuids w)\<rparr>)"

text \<open>\<open>rand.Read(buf)\<close> on a buffer of \<open>k\<close> bytes.\<close>

definition rand_Read :: "nat \<Rightarrow> (world, bytes) go" where
  "rand_Read k w = (case rand_at (w_env w) (w_rands w) k of None \<Rightarrow> Inl (ErrIO ''rand'') | Some b \<Rightarrow> Inr b,
     w\<lparr>w_rands := Suc (w_rands w)\<rparr>)"

text \<open>\<open>time.Now()\<close> in the process: a call like the others, which never fails.\<close>

definition time_Now :: "world \<Rightarrow> instant \<times> world" where
  "time_Now w = (clock (w_env w) (w_calls w), w\<lparr>w_calls := Suc (w_calls w)\<rparr>)"

section \<open>Calls that leave the process\<close>

text \<open>\<open>remote get put act\<close> runs \<open>act\<close> (at the time of the call) on the part of the world a server
  holds.\<close>

definition remote ::
  "(world \<Rightarrow> 's) \<Rightarrow> ('s \<Rightarrow> world \<Rightarrow> world) \<Rightarrow> (instant \<Rightarrow> ('s, 'a) go) \<Rightarrow> (world, 'a) go" where
  "remote get put act w =
    (let n = w_calls w; w1 = w\<lparr>w_calls := Suc n\<rparr>; (r, s) = act (clock (w_env w) n) (get w)
     in case fault_at (w_env w) n of
          NoFault \<Rightarrow> (r, put s w1)
        | LostRequest \<Rightarrow> (Inl (ErrIO ''connection''), w1)
        | LostReply \<Rightarrow> (Inl (ErrIO ''connection''), put s w1))"

definition put_db :: "database \<Rightarrow> world \<Rightarrow> world" where
  "put_db d w = w\<lparr>w_db := d\<rparr>"

definition pg :: "(instant \<Rightarrow> (database, 'a) go) \<Rightarrow> (world, 'a) go" where
  "pg stmt = remote w_db put_db stmt"

definition xadd :: "string \<Rightarrow> redis_entry \<Rightarrow> (world, unit) go" where
  "xadd name entry = remote w_redis (\<lambda>s w. w\<lparr>w_redis := s\<rparr>)
     (\<lambda>now s. (Inr (), s(name := s name @ [entry])))"

definition remove_object :: "string \<Rightarrow> (world, unit) go" where
  "remove_object key = remote w_bucket (\<lambda>s w. w\<lparr>w_bucket := s\<rparr>) (\<lambda>now s. (Inr (), s - {key}))"

section \<open>What a call does to the rest of the world\<close>

text \<open>The call is answered: no fault is scheduled for it.\<close>

definition answered :: "world \<Rightarrow> bool" where
  "answered w \<longleftrightarrow> fault_at (w_env w) (w_calls w) = NoFault"

definition time_of :: "world \<Rightarrow> instant" where
  "time_of w = clock (w_env w) (w_calls w)"

text \<open>No fault is scheduled for any call from here on.\<close>

definition fault_free :: "world \<Rightarrow> bool" where
  "fault_free w \<longleftrightarrow> (\<forall>n \<ge> w_calls w. fault_at (w_env w) n = NoFault)"

lemma fault_free_answered [simp]: "fault_free w \<Longrightarrow> answered w"
  by (simp add: fault_free_def answered_def)

lemma fault_free_next:
  "fault_free w \<Longrightarrow> w_env w' = w_env w \<Longrightarrow> w_calls w \<le> w_calls w' \<Longrightarrow> fault_free w'"
  by (simp add: fault_free_def)

definition after :: "world \<Rightarrow> database \<Rightarrow> world" where
  "after w d = w\<lparr>w_calls := Suc (w_calls w), w_db := d\<rparr>"

lemma after_simps [simp]:
  "w_env (after w d) = w_env w" "w_calls (after w d) = Suc (w_calls w)" "w_db (after w d) = d"
  "w_uuids (after w d) = w_uuids w" "w_rands (after w d) = w_rands w" "w_redis (after w d) = w_redis w" "w_bucket (after w d) = w_bucket w"
  by (simp_all add: after_def)

lemma fault_free_after [simp]: "fault_free w \<Longrightarrow> fault_free (after w d)"
  by (erule fault_free_next) simp_all

lemma pg_eq:
  "pg stmt w = (case fault_at (w_env w) (w_calls w) of
      NoFault \<Rightarrow> (fst (stmt (time_of w) (w_db w)), after w (snd (stmt (time_of w) (w_db w))))
    | LostRequest \<Rightarrow> (Inl (ErrIO ''connection''), after w (w_db w))
    | LostReply \<Rightarrow> (Inl (ErrIO ''connection''), after w (snd (stmt (time_of w) (w_db w)))))"
  by (simp add: pg_def remote_def put_db_def after_def time_of_def Let_def case_prod_beta
      split: fault.splits)

lemma pg_answered:
  "answered w \<Longrightarrow> pg stmt w = (fst (stmt (time_of w) (w_db w)), after w (snd (stmt (time_of w) (w_db w))))"
  by (simp add: pg_eq answered_def)

lemma pg_cases:
  obtains (answered) "pg stmt w = (fst (stmt (time_of w) (w_db w)), after w (snd (stmt (time_of w) (w_db w))))"
    | (lost) d where "pg stmt w = (Inl (ErrIO ''connection''), after w d)"
        and "d = w_db w \<or> d = snd (stmt (time_of w) (w_db w))"
  by (cases "fault_at (w_env w) (w_calls w)") (auto simp: pg_eq)

text \<open>A statement's effect on the database, whatever the fault: none, or the statement's.\<close>

lemma pg_keeps_db:
  assumes "\<And>d. R d d" and "\<And>now d. R d (snd (stmt now d))"
  shows "keeps (\<lambda>w w'. R (w_db w) (w_db w')) (pg stmt)"
proof (rule keepsI)
  fix w
  show "R (w_db w) (w_db (snd (pg stmt w)))"
    by (rule pg_cases [of stmt w]) (auto simp: assms)
qed

lemma pg_read_only:
  assumes "\<And>now d. snd (stmt now d) = d"
  shows "snd (pg stmt w) = after w (w_db w)"
  by (rule pg_cases [of stmt w]) (auto simp: assms)

text \<open>Only Postgres changes the database, only \<open>XADD\<close> a stream, only a delete the bucket.\<close>

definition same_env :: "world \<Rightarrow> world \<Rightarrow> bool" where
  "same_env w w' \<longleftrightarrow> w_env w' = w_env w \<and> w_calls w \<le> w_calls w'"

lemma reflp_same_env [simp]: "reflp same_env"
  by (simp add: reflp_def same_env_def)

lemma transp_same_env [simp]: "transp same_env"
  by (auto simp: transp_def same_env_def)

lemma pg_same_env [keeps_intros]: "keeps same_env (pg stmt)"
  by (auto simp: keeps_def same_env_def pg_eq split: fault.splits)

lemma pg_frame [simp]:
  "w_redis (snd (pg stmt w)) = w_redis w" "w_bucket (snd (pg stmt w)) = w_bucket w"
  "w_uuids (snd (pg stmt w)) = w_uuids w" "w_env (snd (pg stmt w)) = w_env w"
  "w_calls (snd (pg stmt w)) = Suc (w_calls w)"
  by (simp_all add: pg_eq split: fault.splits)

lemma xadd_frame [simp]:
  "w_db (snd (xadd s e w)) = w_db w" "w_bucket (snd (xadd s e w)) = w_bucket w"
  "w_uuids (snd (xadd s e w)) = w_uuids w" "w_env (snd (xadd s e w)) = w_env w"
  "w_calls (snd (xadd s e w)) = Suc (w_calls w)"
  by (simp_all add: xadd_def remote_def Let_def split: fault.splits)

lemma xadd_answered:
  "answered w \<Longrightarrow> xadd s e w =
    (Inr (), w\<lparr>w_calls := Suc (w_calls w), w_redis := (w_redis w)(s := w_redis w s @ [e])\<rparr>)"
  by (simp add: xadd_def remote_def answered_def Let_def)

lemma xadd_Inr:
  "xadd s e w = (Inr x, w') \<Longrightarrow> w_redis w' s = w_redis w s @ [e]"
  by (auto simp: xadd_def remote_def Let_def split: fault.splits)

lemma xadd_streams:
  "w_redis (snd (xadd s e w)) \<in> {w_redis w, (w_redis w)(s := w_redis w s @ [e])}"
  by (auto simp: xadd_def remote_def Let_def split: fault.splits)

lemma remove_object_frame [simp]:
  "w_db (snd (remove_object k w)) = w_db w" "w_redis (snd (remove_object k w)) = w_redis w"
  "w_uuids (snd (remove_object k w)) = w_uuids w" "w_env (snd (remove_object k w)) = w_env w"
  "w_calls (snd (remove_object k w)) = Suc (w_calls w)"
  by (simp_all add: remove_object_def remote_def Let_def split: fault.splits)

lemma remove_object_answered:
  "answered w \<Longrightarrow> w_bucket (snd (remove_object k w)) = w_bucket w - {k}"
  by (simp add: remove_object_def remote_def answered_def Let_def)

end
