(* ===== verification/Job_Service.thy ===== *)
theory Job_Service
  imports Job_Interface
begin

text \<open>
  The job service of \<open>src/api/internal/job/service.go\<close>: one definition per method, over any
  implementation of its three interfaces, and what each method does for every backend that
  meets the contract \<open>job_backend\<close>: on every returned value, on the sentinel errors, and on
  every other error after any of its calls.

  \<open>uuid.New()\<close> is the argument \<open>new\<close>. \<open>recordEvent\<close> takes the payload as the result of
  \<open>json.Marshal\<close> on it (\<open>None\<close> is the \<open>nil\<close> map, which every caller passes).
\<close>

section \<open>The service\<close>

record 'w Service =
  sv_store :: "'w Store"
  sv_queue :: "'w Queue"
  sv_objects :: "'w ObjectStore"

definition NewService :: "'w Store \<Rightarrow> 'w Queue \<Rightarrow> 'w ObjectStore \<Rightarrow> 'w Service" where
  "NewService store queue objects = \<lparr>sv_store = store, sv_queue = queue, sv_objects = objects\<rparr>"

record CreateParams =
  cp_UserID :: uuid
  cp_IdempotencyKey :: "string option"
  cp_ObjectKey :: string
  cp_OriginalFilename :: string
  cp_SizeBytes :: int
  cp_Model :: string

definition recordEvent ::
  "'w Service \<Rightarrow> uuid \<Rightarrow> EventType \<Rightarrow> (error + bytes) option \<Rightarrow> ('w, unit) go" where
  "recordEvent s jobID eventType payload =
    (let store_event = (\<lambda>body.
           check (st_CreateEvent (sv_store s) jobID eventType body)
             (Errorf (''job: record event '' @ eventType)) (\<lambda>_. ret ()))
     in case payload of
          None \<Rightarrow> store_event ''{}''
        | Some (Inl e) \<Rightarrow> fail (Errorf ''job: encode event payload'' e)
        | Some (Inr encoded) \<Rightarrow> store_event encoded)"

definition transition :: "'w Service \<Rightarrow> uuid \<Rightarrow> Status \<Rightarrow> EventType \<Rightarrow> ('w, Job) go" where
  "transition s jobID to event =
    check (st_UpdateJobStatus (sv_store s) jobID to) (Errorf (''job: transition to '' @ to)) (\<lambda>updated.
    check (recordEvent s jobID event None) id (\<lambda>_.
    ret updated))"

definition zero_time :: instant where
  "zero_time = - 62135596800 * 10 ^ 9"

definition new_job :: "uuid \<Rightarrow> CreateParams \<Rightarrow> Job" where
  "new_job i p =
    \<lparr>job_ID = i, job_UserID = cp_UserID p, job_Status = StatusPending,
     job_IdempotencyKey = cp_IdempotencyKey p, job_ObjectKey = cp_ObjectKey p,
     job_OriginalFilename = cp_OriginalFilename p, job_SizeBytes = cp_SizeBytes p,
     job_DurationSeconds = None, job_Model = cp_Model p, job_Attempts = 0, job_MaxAttempts = 3,
     job_ErrorCode = None, job_ErrorMessage = None, job_WorkerID = None, job_LeaseExpiresAt = None,
     job_CreatedAt = zero_time, job_StartedAt = None, job_FinishedAt = None\<rparr>"

text \<open>\<open>Create\<close> from the literal \<open>j := Job{...}\<close> on, and the whole method.\<close>

definition create_new :: "('w \<Rightarrow> uuid \<times> 'w) \<Rightarrow> 'w Service \<Rightarrow> CreateParams \<Rightarrow> ('w, Job) go" where
  "create_new new s p = (\<lambda>w. let (i, w1) = new w in
    check (st_CreateJob (sv_store s) (new_job i p)) (Errorf ''job: create'') (\<lambda>created.
    check (recordEvent s (job_ID created) EventCreated None) id (\<lambda>_.
    check (transition s (job_ID created) StatusQueued EventQueued) id (\<lambda>queued.
    check (qu_Enqueue (sv_queue s) (job_ID created)) (Errorf ''job: enqueue'') (\<lambda>_.
    ret queued)))) w1)"

definition Create :: "('w \<Rightarrow> uuid \<times> 'w) \<Rightarrow> 'w Service \<Rightarrow> CreateParams \<Rightarrow> ('w, Job) go" where
  "Create new s p =
    (case cp_IdempotencyKey p of
       None \<Rightarrow> create_new new s p
     | Some key \<Rightarrow> (\<lambda>w.
         case st_GetJobByIdempotencyKey (sv_store s) (cp_UserID p) key w of
           (Inr existing, w1) \<Rightarrow> (Inr existing, w1)
         | (Inl err, w1) \<Rightarrow>
             if err \<noteq> ErrNotFound then (Inl (Errorf ''job: check idempotency key'' err), w1)
             else create_new new s p w1))"

definition Get :: "'w Service \<Rightarrow> uuid \<Rightarrow> uuid \<Rightarrow> ('w, Job \<times> Event list) go" where
  "Get s userID jobID =
    check (st_GetJob (sv_store s) jobID userID) id (\<lambda>j.
    check (st_ListEvents (sv_store s) jobID) (Errorf ''job: list events'') (\<lambda>events.
    ret (j, events)))"

definition GetTranscript ::
  "'w Service \<Rightarrow> uuid \<Rightarrow> uuid \<Rightarrow> ('w, Job \<times> Transcript \<times> Segment list) go" where
  "GetTranscript s userID jobID =
    check (st_GetJob (sv_store s) jobID userID) id (\<lambda>j.
    check (st_GetTranscript (sv_store s) jobID) id (\<lambda>t.
    check (st_ListSegments (sv_store s) (tr_ID t)) (Errorf ''job: list segments'') (\<lambda>segments.
    ret (j, t, segments))))"

definition clamp_limit :: "int \<Rightarrow> int" where
  "clamp_limit limit = (if limit \<le> 0 \<or> limit > 100 then 20 else limit)"

definition List_jobs ::
  "'w Service \<Rightarrow> uuid \<Rightarrow> Status option \<Rightarrow> instant option \<Rightarrow> int \<Rightarrow> ('w, Job list) go" where
  "List_jobs s userID status cursor limit =
    check (st_ListJobs (sv_store s) userID status cursor (clamp_limit limit)) (Errorf ''job: list'')
      (\<lambda>jobs. ret jobs)"

definition Cancel :: "'w Service \<Rightarrow> uuid \<Rightarrow> uuid \<Rightarrow> ('w, Job) go" where
  "Cancel s userID jobID =
    check (st_GetJob (sv_store s) jobID userID) id (\<lambda>current.
    if \<not> CanCancel (job_Status current) then fail ErrNotCancellable
    else
    check (st_CancelJob (sv_store s) jobID userID) (Errorf ''job: cancel'') (\<lambda>updated.
    check (recordEvent s jobID EventCancelled None) id (\<lambda>_.
    ret updated)))"

definition Retry :: "'w Service \<Rightarrow> uuid \<Rightarrow> uuid \<Rightarrow> ('w, Job) go" where
  "Retry s userID jobID =
    check (st_GetJob (sv_store s) jobID userID) id (\<lambda>current.
    if \<not> CanRetry (job_Status current) then fail ErrNotRetryable
    else
    check (st_RetryJob (sv_store s) jobID userID) (Errorf ''job: retry'') (\<lambda>updated.
    check (recordEvent s jobID EventRetrying None) id (\<lambda>_.
    check (qu_Enqueue (sv_queue s) jobID) (Errorf ''job: enqueue retry'') (\<lambda>_.
    check (recordEvent s jobID EventQueued None) id (\<lambda>_.
    ret updated)))))"

definition Delete :: "'w Service \<Rightarrow> uuid \<Rightarrow> uuid \<Rightarrow> ('w, unit) go" where
  "Delete s userID jobID =
    check (st_GetJob (sv_store s) jobID userID) id (\<lambda>current.
    check (st_SoftDeleteJob (sv_store s) jobID userID) (Errorf ''job: delete'') (\<lambda>_.
    ignore (os_DeleteObject (sv_objects s) (job_ObjectKey current)) (ret ())))"

lemma recordEvent_None:
  "recordEvent s i ty None = check (st_CreateEvent (sv_store s) i ty ''{}'')
     (Errorf (''job: record event '' @ ty)) (\<lambda>_. ret ())"
  by (simp add: recordEvent_def)

lemma clamp_limit_range: "1 \<le> clamp_limit n \<and> clamp_limit n \<le> 100"
  by (simp add: clamp_limit_def)

lemma clamp_limit_id: "1 \<le> n \<Longrightarrow> n \<le> 100 \<Longrightarrow> clamp_limit n = n"
  by (simp add: clamp_limit_def)

text \<open>The job \<open>Create\<close> inserts, before and after it is moved to \<open>queued\<close>.\<close>

definition pending_job :: "instant \<Rightarrow> uuid \<Rightarrow> CreateParams \<Rightarrow> Job" where
  "pending_job now i p = created_job now (new_job i p)"

definition queued_job :: "instant \<Rightarrow> uuid \<Rightarrow> CreateParams \<Rightarrow> Job" where
  "queued_job now i p = (pending_job now i p)\<lparr>job_Status := StatusQueued\<rparr>"

lemma pending_job_fields [simp]:
  "job_ID (pending_job now i p) = i" "job_UserID (pending_job now i p) = cp_UserID p"
  "job_Status (pending_job now i p) = StatusPending"
  "job_IdempotencyKey (pending_job now i p) = cp_IdempotencyKey p"
  "job_ObjectKey (pending_job now i p) = cp_ObjectKey p"
  by (simp_all add: pending_job_def created_job_def new_job_def)

lemma queued_job_fields [simp]:
  "job_ID (queued_job now i p) = i" "job_UserID (queued_job now i p) = cp_UserID p"
  "job_Status (queued_job now i p) = StatusQueued"
  "job_IdempotencyKey (queued_job now i p) = cp_IdempotencyKey p"
  "job_ObjectKey (queued_job now i p) = cp_ObjectKey p"
  by (simp_all add: queued_job_def)

lemma set_status_queued: "set_status StatusQueued now (pending_job t i p) = queued_job t i p"
  by (simp add: set_status_def queued_job_def)

lemma eff_create_new:
  "eff_create (new_job i p) c a a' \<longleftrightarrow> a_view a i = None
     \<and> (\<forall>k. cp_IdempotencyKey p = Some k \<longrightarrow> (\<forall>c. \<not> has_key (cp_UserID p) k a c))
     \<and> (\<exists>now. c = pending_job now i p \<and> a' = put_job i c a)"
  by (auto simp: eff_create_def pending_job_def new_job_def)

text \<open>The states a run of \<open>Create\<close> that inserts job \<open>i\<close> passes through, in order.\<close>

definition create_trace :: "instant \<Rightarrow> uuid \<Rightarrow> CreateParams \<Rightarrow> jobs_abs \<Rightarrow> jobs_abs list" where
  "create_trace now i p a =
    (let a1 = put_job i (pending_job now i p) a; a2 = log_event i EventCreated a1;
         a3 = put_job i (queued_job now i p) a2; a4 = log_event i EventQueued a3
     in [a1, a2, a3, a4, send_msg i a4])"

definition creatable :: "uuid \<Rightarrow> CreateParams \<Rightarrow> jobs_abs \<Rightarrow> bool" where
  "creatable i p a \<longleftrightarrow> a_view a i = None
     \<and> (\<forall>k. cp_IdempotencyKey p = Some k \<longrightarrow> (\<forall>c. \<not> has_key (cp_UserID p) k a c))"

section \<open>What the methods do, for every backend that meets the contract\<close>

text \<open>How a user's request may change what users see: it never touches another user's job.\<close>

definition only_user :: "uuid \<Rightarrow> jobs_abs \<Rightarrow> jobs_abs \<Rightarrow> bool" where
  "only_user u a a' \<longleftrightarrow>
     (\<forall>i c. a_view a i = Some c \<and> job_UserID c \<noteq> u \<longrightarrow> a_view a' i = Some c)
     \<and> (\<forall>i c. a_view a' i = Some c \<and> job_UserID c \<noteq> u \<longrightarrow> a_view a i = Some c)"

lemma only_user_refl [simp]: "only_user u a a"
  by (simp add: only_user_def)

lemma only_user_trans: "only_user u a b \<Longrightarrow> only_user u b c \<Longrightarrow> only_user u a c"
  unfolding only_user_def by blast

lemma only_user_log [simp]: "only_user u a (log_event i ty b) = only_user u a b"
  by (simp add: only_user_def)

lemma only_user_send [simp]: "only_user u a (send_msg i b) = only_user u a b"
  by (simp add: only_user_def)

lemma only_user_effects:
  "eff_cancel i u j a a' \<Longrightarrow> only_user u a a'"
  "eff_retry i u j a a' \<Longrightarrow> only_user u a a'"
  "eff_delete i u a a' \<Longrightarrow> only_user u a a'"
  by (auto simp: eff_cancel_def eff_retry_def eff_delete_def only_user_def owned_def)

lemma only_user_create: "job_UserID j0 = u \<Longrightarrow> eff_create j0 j a a' \<Longrightarrow> only_user u a a'"
  by (auto simp: eff_create_def only_user_def created_job_def)

lemma only_user_status:
  "a_view a i = Some c \<Longrightarrow> job_UserID c = u \<Longrightarrow> eff_status i s j a a' \<Longrightarrow> only_user u a a'"
  by (auto simp: eff_status_def only_user_def)

context job_backend
begin

abbreviation svc :: "'w Service" where
  "svc \<equiv> NewService S Q B"

lemma svc_simps [simp]: "sv_store svc = S" "sv_queue svc = Q" "sv_objects svc = B"
  by (simp_all add: NewService_def)

lemma record_event: "implements I \<alpha> (recordEvent svc i ty None) (\<lambda>_ a a'. a' = log_event i ty a) (\<lambda>_. False)"
proof (rule implementsI)
  fix w r w' assume I: "I w" and rw: "recordEvent svc i ty None w = (r, w')"
  obtain r0 w0 where c: "st_CreateEvent S i ty ''{}'' w = (r0, w0)" by (cases "st_CreateEvent S i ty ''{}'' w")
  with rw have "w0 = w'" by (auto simp: recordEvent_None check_def split: sum.splits)
  with rw c implementsD [OF create_event I c]
  show "I w' \<and> (case r of Inr x \<Rightarrow> \<alpha> w' = log_event i ty (\<alpha> w)
      | Inl e \<Rightarrow> err_effect (\<lambda>_ a a'. a' = log_event i ty a) (\<lambda>_. False) e (\<alpha> w) (\<alpha> w'))"
    by (cases r0) (auto simp: recordEvent_None check_def err_effect_def)
qed

lemmas arun_rules = arun_ret arun_fail arun_if arun_ignore [OF delete_object]
  arun_call [OF get] arun_call [OF get_by_key] arun_call [OF list_jobs] arun_call [OF create]
  arun_call [OF update_status] arun_call [OF cancel] arun_call [OF retry] arun_call [OF soft_delete]
  arun_call [OF list_events] arun_call [OF get_transcript] arun_call [OF list_segments]
  arun_call [OF record_event] arun_call [OF enqueue]

subsection \<open>Cancel, retry, delete\<close>

lemma Cancel_run:
  "arun I \<alpha> (\<lambda>a. a = a0) (Cancel svc u i)
    (\<lambda>j a'. \<exists>b. eff_cancel i u j a0 b \<and> a' = log_event i EventCancelled b)
    (\<lambda>e a'. e = ErrNotFound \<and> a' = a0 \<and> \<not> (\<exists>c. owned i u a0 c)
      \<or> e = ErrNotCancellable \<and> a' = a0 \<and> (\<exists>c. owned i u a0 c \<and> job_Status c \<notin> {StatusQueued, StatusProcessing})
      \<or> opaque_err e \<and> (a' = a0
          \<or> (\<exists>j b. eff_cancel i u j a0 b \<and> a' \<in> {b, log_event i EventCancelled b})))"
  unfolding Cancel_def svc_simps by (intro arun_rules) (auto simp: err_effect_def CanCancel_def)

lemma Retry_run:
  "arun I \<alpha> (\<lambda>a. a = a0) (Retry svc u i)
    (\<lambda>j a'. \<exists>b. eff_retry i u j a0 b
       \<and> a' = log_event i EventQueued (send_msg i (log_event i EventRetrying b)))
    (\<lambda>e a'. e = ErrNotFound \<and> a' = a0 \<and> \<not> (\<exists>c. owned i u a0 c)
      \<or> e = ErrNotRetryable \<and> a' = a0 \<and> (\<exists>c. owned i u a0 c \<and> job_Status c \<noteq> StatusFailed)
      \<or> opaque_err e \<and> (a' = a0
          \<or> (\<exists>j b. eff_retry i u j a0 b \<and> a' \<in> {b, log_event i EventRetrying b,
               send_msg i (log_event i EventRetrying b),
               log_event i EventQueued (send_msg i (log_event i EventRetrying b))})))"
  unfolding Retry_def svc_simps by (intro arun_rules) (auto simp: err_effect_def CanRetry_def)

lemma Delete_run:
  "arun I \<alpha> (\<lambda>a. a = a0) (Delete svc u i)
    (\<lambda>_ a'. eff_delete i u a0 a')
    (\<lambda>e a'. e = ErrNotFound \<and> a' = a0 \<and> \<not> (\<exists>c. owned i u a0 c)
      \<or> opaque_err e \<and> (a' = a0 \<or> eff_delete i u a0 a'))"
  unfolding Delete_def svc_simps by (intro arun_rules) (auto simp: err_effect_def)

subsection \<open>Reads\<close>

lemma Get_run:
  "arun I \<alpha> (\<lambda>a. a = a0) (Get svc u i)
    (\<lambda>(j, _) a'. a' = a0 \<and> owned i u a0 j)
    (\<lambda>e a'. a' = a0 \<and> (e = ErrNotFound \<and> \<not> (\<exists>c. owned i u a0 c) \<or> opaque_err e))"
  unfolding Get_def svc_simps by (intro arun_rules) (auto simp: err_effect_def)

lemma GetTranscript_run:
  "arun I \<alpha> (\<lambda>a. a = a0) (GetTranscript svc u i)
    (\<lambda>(j, _) a'. a' = a0 \<and> owned i u a0 j)
    (\<lambda>e a'. a' = a0 \<and> (e = ErrNotFound \<or> opaque_err e))"
  unfolding GetTranscript_def svc_simps by (intro arun_rules) (auto simp: err_effect_def)

lemma List_jobs_run:
  "arun I \<alpha> (\<lambda>a. a = a0) (List_jobs svc u st cur n)
    (\<lambda>js a'. a' = a0 \<and> (\<forall>j \<in> set js. owned (job_ID j) u a0 j))
    (\<lambda>e a'. a' = a0 \<and> opaque_err e)"
  unfolding List_jobs_def svc_simps by (intro arun_rules) (auto simp: err_effect_def)

subsection \<open>Create\<close>

lemma create_new_run:
  "arun I \<alpha> (\<lambda>a. a = a0) (create_new new svc p)
    (\<lambda>j a'. \<exists>i now. creatable i p a0 \<and> j = queued_job now i p \<and> a' = last (create_trace now i p a0))
    (\<lambda>e a'. opaque_err e \<and>
       (a' = a0 \<or> (\<exists>i now. creatable i p a0 \<and> a' \<in> set (create_trace now i p a0))))"
  unfolding create_new_def transition_def svc_simps check_assoc check_ret
  apply (rule arun_new [OF new_inv], assumption+)
  by (intro arun_rules)
    (fastforce simp: err_effect_def eff_create_new creatable_def create_trace_def Let_def
      eff_status_def set_status_queued)+

lemma Create_run:
  "arun I \<alpha> (\<lambda>a. a = a0) (Create new svc p)
    (\<lambda>j a'. (\<exists>k. cp_IdempotencyKey p = Some k \<and> has_key (cp_UserID p) k a0 j \<and> a' = a0)
       \<or> (\<exists>i now. creatable i p a0 \<and> j = queued_job now i p \<and> a' = last (create_trace now i p a0)))
    (\<lambda>e a'. opaque_err e \<and>
       (a' = a0 \<or> (\<exists>i now. creatable i p a0 \<and> a' \<in> set (create_trace now i p a0))))"
proof (cases "cp_IdempotencyKey p")
  case None
  then show ?thesis
    using create_new_run [of a0 p] by (auto simp: Create_def arun_def elim!: hoare_weaken)
next
  case (Some k)
  have "arun I \<alpha> (\<lambda>a. a = a0 \<and> \<not> (\<exists>j. has_key (cp_UserID p) k a j)) (create_new new svc p)
    (\<lambda>j a'. \<exists>i now. creatable i p a0 \<and> j = queued_job now i p \<and> a' = last (create_trace now i p a0))
    (\<lambda>e a'. opaque_err e \<and>
       (a' = a0 \<or> (\<exists>i now. creatable i p a0 \<and> a' \<in> set (create_trace now i p a0))))"
    using create_new_run [of a0 p] by (auto simp: arun_def elim!: hoare_weaken)
  then have "arun I \<alpha> (\<lambda>a. a = a0 \<and> \<not> (\<exists>j. has_key (cp_UserID p) k a j)) (create_new new svc p)
    (\<lambda>j a'. (\<exists>k. cp_IdempotencyKey p = Some k \<and> has_key (cp_UserID p) k a0 j \<and> a' = a0)
       \<or> (\<exists>i now. creatable i p a0 \<and> j = queued_job now i p \<and> a' = last (create_trace now i p a0)))
    (\<lambda>e a'. opaque_err e \<and>
       (a' = a0 \<or> (\<exists>i now. creatable i p a0 \<and> a' \<in> set (create_trace now i p a0))))"
    by (auto simp: arun_def elim!: hoare_weaken)
  then show ?thesis
    unfolding Create_def Some option.case svc_simps
    by (intro arun_found_or [OF get_by_key]) (auto simp: Some)
qed

end

end
