(* ===== verification/Job_Store.thy ===== *)
theory Job_Store
  imports World Job_Service
begin

text \<open>
  The implementations the API runs the job service with: \<open>store.JobStore\<close>
  (\<open>src/api/internal/store/jobstore.go\<close>) over the statements of \<open>Database\<close>, \<open>queue.Producer\<close>
  (\<open>src/api/internal/queue/queue.go\<close>) over the Redis stream, \<open>objectstore.Client.DeleteObject\<close>;
  and the proof that they meet the contract \<open>job_backend\<close> in every world, whatever calls fail.
\<close>

section \<open>The job store\<close>

definition mapNotFound :: "error \<Rightarrow> error" where
  "mapNotFound err = (if errors_Is err ErrNoRows then ErrNotFound else Errorf ''jobstore'' err)"

definition fromDBJob :: "db_Job \<Rightarrow> Job" where
  "fromDBJob r =
    \<lparr>job_ID = job_ID r, job_UserID = job_UserID r, job_Status = job_Status r,
     job_IdempotencyKey = job_IdempotencyKey r, job_ObjectKey = job_ObjectKey r,
     job_OriginalFilename = job_OriginalFilename r, job_SizeBytes = job_SizeBytes r,
     job_DurationSeconds = job_DurationSeconds r, job_Model = job_Model r,
     job_Attempts = job_Attempts r, job_MaxAttempts = job_MaxAttempts r,
     job_ErrorCode = job_ErrorCode r, job_ErrorMessage = job_ErrorMessage r,
     job_WorkerID = job_WorkerID r, job_LeaseExpiresAt = job_LeaseExpiresAt r,
     job_CreatedAt = job_CreatedAt r, job_StartedAt = job_StartedAt r,
     job_FinishedAt = job_FinishedAt r\<rparr>"

definition fromDBEvent :: "db_JobEvent \<Rightarrow> Event" where
  "fromDBEvent r = \<lparr>ev_ID = ev_ID r, ev_JobID = ev_JobID r, ev_EventType = ev_EventType r,
     ev_Payload = ev_Payload r, ev_CreatedAt = ev_CreatedAt r\<rparr>"

definition JobStore_CreateJob :: "Job \<Rightarrow> (world, Job) go" where
  "JobStore_CreateJob j =
    check (pg (q_CreateJob
      \<lparr>cj_ID = job_ID j, cj_UserID = job_UserID j, cj_Status = job_Status j,
       cj_IdempotencyKey = job_IdempotencyKey j, cj_ObjectKey = job_ObjectKey j,
       cj_OriginalFilename = job_OriginalFilename j, cj_SizeBytes = job_SizeBytes j,
       cj_Model = job_Model j\<rparr>)) (Errorf ''jobstore: create'') (\<lambda>row.
    ret (fromDBJob row))"

definition JobStore_GetJob :: "uuid \<Rightarrow> uuid \<Rightarrow> (world, Job) go" where
  "JobStore_GetJob jid userID =
    check (pg (q_GetJobByID jid userID)) mapNotFound (\<lambda>row. ret (fromDBJob row))"

definition JobStore_GetJobByIdempotencyKey :: "uuid \<Rightarrow> string \<Rightarrow> (world, Job) go" where
  "JobStore_GetJobByIdempotencyKey userID key =
    check (pg (q_GetJobByIdempotencyKey userID key)) mapNotFound (\<lambda>row. ret (fromDBJob row))"

definition JobStore_ListJobs ::
  "uuid \<Rightarrow> Status option \<Rightarrow> instant option \<Rightarrow> int \<Rightarrow> (world, Job list) go" where
  "JobStore_ListJobs userID status cursor limit =
    check (pg (q_ListJobsByUser userID status cursor limit)) (Errorf ''jobstore: list'') (\<lambda>rows.
    ret (map fromDBJob rows))"

definition JobStore_UpdateJobStatus :: "uuid \<Rightarrow> Status \<Rightarrow> (world, Job) go" where
  "JobStore_UpdateJobStatus jid status =
    check (pg (q_UpdateJobStatus jid status)) mapNotFound (\<lambda>row. ret (fromDBJob row))"

definition JobStore_CancelJob :: "uuid \<Rightarrow> uuid \<Rightarrow> (world, Job) go" where
  "JobStore_CancelJob jid userID =
    check (pg (q_CancelJob jid userID)) mapNotFound (\<lambda>row. ret (fromDBJob row))"

definition JobStore_RetryJob :: "uuid \<Rightarrow> uuid \<Rightarrow> (world, Job) go" where
  "JobStore_RetryJob jid userID =
    check (pg (q_RetryJob jid userID)) mapNotFound (\<lambda>row. ret (fromDBJob row))"

definition JobStore_SoftDeleteJob :: "uuid \<Rightarrow> uuid \<Rightarrow> (world, unit) go" where
  "JobStore_SoftDeleteJob jid userID =
    check (pg (q_SoftDeleteJob jid userID)) (Errorf ''jobstore: soft delete'') (\<lambda>affected.
    if affected = 0 then fail ErrNotFound else ret ())"

definition JobStore_CreateEvent :: "uuid \<Rightarrow> EventType \<Rightarrow> bytes \<Rightarrow> (world, Event) go" where
  "JobStore_CreateEvent jobID eventType payload = (\<lambda>w. let (i, w1) = uuid_New w in
    check (pg (q_CreateJobEvent i jobID eventType payload)) (Errorf ''jobstore: create event'') (\<lambda>row.
    ret (fromDBEvent row)) w1)"

definition JobStore_ListEvents :: "uuid \<Rightarrow> (world, Event list) go" where
  "JobStore_ListEvents jobID =
    check (pg (q_ListJobEventsByJob jobID)) (Errorf ''jobstore: list events'') (\<lambda>rows.
    ret (map fromDBEvent rows))"

definition JobStore_GetTranscript :: "uuid \<Rightarrow> (world, Transcript) go" where
  "JobStore_GetTranscript jobID =
    check (pg (q_GetTranscriptByJobID jobID)) mapNotFound (\<lambda>row.
    ret \<lparr>tr_ID = tr_ID row, tr_JobID = tr_JobID row, tr_Text = tr_Text row,
         tr_LanguageDetected = tr_LanguageDetected row,
         tr_LanguageProbability = tr_LanguageProbability row, tr_Model = tr_Model row,
         tr_ProcessingSeconds = tr_ProcessingSeconds row, tr_RealTimeFactor = tr_RealTimeFactor row,
         tr_CreatedAt = tr_CreatedAt row\<rparr>)"

definition JobStore_ListSegments :: "uuid \<Rightarrow> (world, Segment list) go" where
  "JobStore_ListSegments transcriptID =
    check (pg (q_ListSegmentsByTranscript transcriptID)) (Errorf ''jobstore: list segments'') (\<lambda>rows.
    ret (map (\<lambda>r. \<lparr>seg_ID = seg_ID r, seg_TranscriptID = seg_TranscriptID r, seg_Idx = seg_Idx r,
                   seg_StartMs = seg_StartMs r, seg_EndMs = seg_EndMs r, seg_Text = seg_Text r,
                   seg_AvgLogprob = seg_AvgLogprob r\<rparr>) rows))"

definition JobStore :: "world Store" where
  "JobStore = \<lparr>st_CreateJob = JobStore_CreateJob, st_GetJob = JobStore_GetJob,
     st_GetJobByIdempotencyKey = JobStore_GetJobByIdempotencyKey, st_ListJobs = JobStore_ListJobs,
     st_UpdateJobStatus = JobStore_UpdateJobStatus, st_CancelJob = JobStore_CancelJob,
     st_RetryJob = JobStore_RetryJob, st_SoftDeleteJob = JobStore_SoftDeleteJob,
     st_CreateEvent = JobStore_CreateEvent, st_ListEvents = JobStore_ListEvents,
     st_GetTranscript = JobStore_GetTranscript, st_ListSegments = JobStore_ListSegments\<rparr>"

section \<open>The producer and the object store\<close>

definition StreamName :: string where
  "StreamName = ''jobs:pending''"

definition ConsumerGroup :: string where
  "ConsumerGroup = ''workers''"

definition Producer_Enqueue :: "uuid \<Rightarrow> (world, unit) go" where
  "Producer_Enqueue jobID =
    check (xadd StreamName [(''job_id'', jobID)]) (Errorf ''queue: enqueue job'') (\<lambda>_. ret ())"

definition Producer :: "world Queue" where
  "Producer = \<lparr>qu_Enqueue = Producer_Enqueue\<rparr>"

definition Client_DeleteObject :: "string \<Rightarrow> (world, unit) go" where
  "Client_DeleteObject objectKey =
    check (remove_object objectKey) (Errorf ''objectstore: delete object'') (\<lambda>_. ret ())"

definition Client :: "world ObjectStore" where
  "Client = \<lparr>os_DeleteObject = Client_DeleteObject\<rparr>"

text \<open>\<open>jobSvc := job.NewService(store.NewJobStore(pool), producer, objects)\<close> of \<open>cmd/api/main.go\<close>.\<close>

definition jobSvc :: "world Service" where
  "jobSvc = NewService JobStore Producer Client"

section \<open>The abstraction\<close>

definition visible :: "database \<Rightarrow> uuid \<Rightarrow> Job option" where
  "visible d i = (case row_of d i of None \<Rightarrow> None
     | Some r \<Rightarrow> if job_DeletedAt r = None then Some (fromDBJob r) else None)"

definition event_log :: "database \<Rightarrow> (uuid \<times> EventType) list" where
  "event_log d = map (\<lambda>e. (ev_JobID e, ev_EventType e)) (tbl_job_events d)"

definition abs_db :: "database \<Rightarrow> uuid list \<Rightarrow> jobs_abs" where
  "abs_db d ms = \<lparr>a_view = visible d, a_log = event_log d, a_msgs = ms\<rparr>"

definition job_msgs :: "redis_entry list \<Rightarrow> uuid list" where
  "job_msgs es = concat (map (\<lambda>e. [v. (k, v) \<leftarrow> e, k = ''job_id'']) es)"

definition abs_world :: "world \<Rightarrow> jobs_abs" where
  "abs_world w = abs_db (w_db w) (job_msgs (w_redis w StreamName))"

definition inv_world :: "world \<Rightarrow> bool" where
  "inv_world w \<longleftrightarrow> schema_ok (w_db w)"

lemma abs_db_sel [simp]:
  "a_view (abs_db d ms) = visible d" "a_log (abs_db d ms) = event_log d" "a_msgs (abs_db d ms) = ms"
  by (simp_all add: abs_db_def)

lemma fromDBJob_fields [simp]:
  "job_ID (fromDBJob r) = job_ID r" "job_UserID (fromDBJob r) = job_UserID r"
  "job_Status (fromDBJob r) = job_Status r" "job_IdempotencyKey (fromDBJob r) = job_IdempotencyKey r"
  "job_ObjectKey (fromDBJob r) = job_ObjectKey r" "job_CreatedAt (fromDBJob r) = job_CreatedAt r"
  "job_Attempts (fromDBJob r) = job_Attempts r" "job_MaxAttempts (fromDBJob r) = job_MaxAttempts r"
  by (simp_all add: fromDBJob_def)

lemma fromDBJob_updates [simp]:
  "fromDBJob (set_status s t r) = set_status s t (fromDBJob r)"
  "fromDBJob (set_cancelled t r) = set_cancelled t (fromDBJob r)"
  "fromDBJob (reset_for_retry r) = reset_for_retry (fromDBJob r)"
  "fromDBJob (set_requeued r) = set_requeued (fromDBJob r)"
  "fromDBJob (set_expired_failed c m t r) = set_expired_failed c m t (fromDBJob r)"
  by (simp_all add: row_update_defs fromDBJob_def)

lemma visible_Some:
  "visible d i = Some j \<longleftrightarrow> (\<exists>r. row_of d i = Some r \<and> job_DeletedAt r = None \<and> j = fromDBJob r)"
  by (auto simp: visible_def split: option.splits if_splits)

text \<open>An update by primary key that leaves \<open>deleted_at\<close> alone is a point update of what is visible.\<close>

lemma visible_update:
  assumes "\<And>r. job_ID (f r) = job_ID r" and "\<And>r. job_DeletedAt (f r) = job_DeletedAt r"
    and "row_of d i = Some r" and "job_DeletedAt r = None" and "p r" and "\<And>r. p r \<Longrightarrow> job_ID r = i"
  shows "visible (d\<lparr>tbl_jobs := update_where p f (tbl_jobs d)\<rparr>) = (visible d)(i \<mapsto> fromDBJob (f r))"
proof
  fix k
  note row = row_of_update [where f = f and p = p and d = d, OF assms(1)]
  show "visible (d\<lparr>tbl_jobs := update_where p f (tbl_jobs d)\<rparr>) k = ((visible d)(i \<mapsto> fromDBJob (f r))) k"
  proof (cases "k = i")
    case True
    with assms(2-5) row show ?thesis by (simp add: visible_def)
  next
    case False
    then have "\<not> p r'" if "row_of d k = Some r'" for r'
      using assms(6) row_of_ID [OF that] by blast
    with False row show ?thesis by (simp add: visible_def split: option.splits)
  qed
qed

lemma update_none:
  assumes "distinct (map job_ID (tbl_jobs d))" and "\<And>r. p r \<Longrightarrow> job_ID r = i"
    and "\<And>r. row_of d i = Some r \<Longrightarrow> \<not> p r"
  shows "d\<lparr>tbl_jobs := update_where p f (tbl_jobs d)\<rparr> = d"
proof -
  have "update_where p f (tbl_jobs d) = tbl_jobs d"
    using assms row_of_Some_unique [OF assms(1)] by (intro update_where_none) metis
  then show ?thesis by simp
qed

section \<open>From statements to the contract\<close>

definition stmt_ok :: "(instant \<Rightarrow> (database, 'r) go)
    \<Rightarrow> ('r \<Rightarrow> jobs_abs \<Rightarrow> jobs_abs \<Rightarrow> bool) \<Rightarrow> (jobs_abs \<Rightarrow> bool) \<Rightarrow> bool" where
  "stmt_ok stmt F N \<longleftrightarrow> (\<forall>now d ms. schema_ok d \<longrightarrow> schema_ok (snd (stmt now d)) \<and>
     (case fst (stmt now d) of
        Inr x \<Rightarrow> F x (abs_db d ms) (abs_db (snd (stmt now d)) ms)
      | Inl e \<Rightarrow> snd (stmt now d) = d \<and> (e = ErrNoRows \<and> N (abs_db d ms) \<or> (\<exists>c. e = PgError c))))"

lemma stmt_okI:
  assumes "\<And>now d. schema_ok d \<Longrightarrow> schema_ok (snd (stmt now d))"
    and "\<And>now d x d' ms. schema_ok d \<Longrightarrow> stmt now d = (Inr x, d') \<Longrightarrow> F x (abs_db d ms) (abs_db d' ms)"
    and "\<And>now d e d' ms. schema_ok d \<Longrightarrow> stmt now d = (Inl e, d')
      \<Longrightarrow> d' = d \<and> (e = ErrNoRows \<and> N (abs_db d ms) \<or> (\<exists>c. e = PgError c))"
  shows "stmt_ok stmt F N"
  unfolding stmt_ok_def
proof (intro allI impI conjI)
  fix now d ms assume ok: "schema_ok d"
  then show "schema_ok (snd (stmt now d))" by (rule assms(1))
  obtain r d' where s: "stmt now d = (r, d')" by (cases "stmt now d")
  show "case fst (stmt now d) of
        Inr x \<Rightarrow> F x (abs_db d ms) (abs_db (snd (stmt now d)) ms)
      | Inl e \<Rightarrow> snd (stmt now d) = d \<and> (e = ErrNoRows \<and> N (abs_db d ms) \<or> (\<exists>c. e = PgError c))"
    using assms(2,3) [OF ok] s by (cases r) auto
qed

lemma mapNotFound_simps [simp]:
  "mapNotFound ErrNoRows = ErrNotFound" "mapNotFound (PgError c) = Errorf ''jobstore'' (PgError c)"
  "mapNotFound (ErrIO m) = Errorf ''jobstore'' (ErrIO m)"
  by (simp_all add: mapNotFound_def)

lemma pg_implements:
  assumes stmt: "stmt_ok stmt (\<lambda>x. F (g x)) N"
    and f: "f ErrNoRows = ErrNotFound \<or> opaque_err (f ErrNoRows)"
    and f': "\<And>c. opaque_err (f (PgError c))" "\<And>m. opaque_err (f (ErrIO m))"
  shows "implements inv_world abs_world (check (pg stmt) f (\<lambda>x. ret (g x))) F N"
proof (rule implementsI)
  fix w r w' assume I: "inv_world w" and c: "check (pg stmt) f (\<lambda>x. ret (g x)) w = (r, w')"
  let ?d = "snd (stmt (time_of w) (w_db w))" and ?ms = "job_msgs (w_redis w StreamName)"
  have S: "schema_ok (w_db w)" using I by (simp add: inv_world_def)
  have ok: "schema_ok ?d" and res: "case fst (stmt (time_of w) (w_db w)) of
        Inr x \<Rightarrow> F (g x) (abs_db (w_db w) ?ms) (abs_db ?d ?ms)
      | Inl e \<Rightarrow> ?d = w_db w \<and> (e = ErrNoRows \<and> N (abs_db (w_db w) ?ms) \<or> (\<exists>c. e = PgError c))"
    using stmt S unfolding stmt_ok_def by blast+
  show "inv_world w' \<and> (case r of Inr x \<Rightarrow> F x (abs_world w) (abs_world w')
      | Inl e \<Rightarrow> err_effect F N e (abs_world w) (abs_world w'))"
  proof (cases rule: pg_cases [of stmt w])
    case answered
    then show ?thesis
      using c res ok f f' by (cases "fst (stmt (time_of w) (w_db w))")
        (auto simp: inv_world_def abs_world_def err_effect_def)
  next
    case (lost d)
    then have "r = Inl (f (ErrIO ''connection''))" and "w' = after w d" using c by auto
    with lost(2) S ok res f' show ?thesis
      by (cases "fst (stmt (time_of w) (w_db w))")
        (auto simp: inv_world_def abs_world_def err_effect_def)
  qed
qed

lemma pg_read:
  assumes "\<And>now d. snd (stmt now d) = d"
    and "\<And>now d x ms. schema_ok d \<Longrightarrow> fst (stmt now d) = Inr x \<Longrightarrow> F x (abs_db d ms) (abs_db d ms)"
    and "\<And>now d e ms. schema_ok d \<Longrightarrow> fst (stmt now d) = Inl e
      \<Longrightarrow> e = ErrNoRows \<and> N (abs_db d ms) \<or> (\<exists>c. e = PgError c)"
  shows "stmt_ok stmt F N"
  unfolding stmt_ok_def using assms by (simp split: sum.splits)

text \<open>\<open>UPDATE jobs \<dots> WHERE id = $1 AND g RETURNING \<dots>\<close> on a visible row.\<close>

lemma update_stmt_ok:
  assumes p: "\<And>r. p r \<longleftrightarrow> job_ID r = i \<and> job_DeletedAt r = None \<and> g (fromDBJob r)"
    and static: "\<And>r. job_static (f r) = job_static r" and del: "\<And>r. job_DeletedAt (f r) = job_DeletedAt r"
    and row: "\<forall>r. job_row_ok r \<longrightarrow> job_row_ok (f r)"
    and ok: "schema_ok d"
  shows "schema_ok (snd (update_jobs_returning p f d))"
    and "update_jobs_returning p f d = (Inr x, d') \<Longrightarrow>
      \<exists>r. visible d i = Some (fromDBJob r) \<and> g (fromDBJob r) \<and> x = f r
        \<and> abs_db d' ms = put_job i (fromDBJob x) (abs_db d ms)"
    and "update_jobs_returning p f d = (Inl e, d') \<Longrightarrow>
      d' = d \<and> e = ErrNoRows \<and> \<not> (\<exists>c. visible d i = Some c \<and> g c)"
proof -
  note dist = schema_ok_distinct [OF ok]
  have pid: "\<And>r. p r \<Longrightarrow> job_ID r = i" using p by blast
  have fid: "\<And>r. job_ID (f r) = job_ID r" using job_static_eqD(1) [OF static] .
  note scan = scanJob_by_ID [OF dist pid]
  show "schema_ok (snd (update_jobs_returning p f d))"
    using ok static row by (intro schema_ok_update_returning) auto
  show "\<exists>r. visible d i = Some (fromDBJob r) \<and> g (fromDBJob r) \<and> x = f r
        \<and> abs_db d' ms = put_job i (fromDBJob x) (abs_db d ms)"
    if "update_jobs_returning p f d = (Inr x, d')"
  proof -
    from that obtain r where r: "row_of d i = Some r" "p r" "x = f r"
      and d': "d' = d\<lparr>tbl_jobs := update_where p f (tbl_jobs d)\<rparr>"
      by (auto simp: update_jobs_returning_def scan split: option.splits if_splits)
    have del_r: "job_DeletedAt r = None" and g: "g (fromDBJob r)" using r(2) p by blast+
    have "visible d' = (visible d)(i \<mapsto> fromDBJob x)"
      unfolding d' r(3) by (intro visible_update fid del r(1,2) del_r pid)
    moreover have "event_log d' = event_log d" by (simp add: d' event_log_def)
    moreover have "visible d i = Some (fromDBJob r)" using r(1) del_r by (simp add: visible_Some)
    ultimately show ?thesis using g r(3) by (auto simp: put_job_def abs_db_def)
  qed
  show "d' = d \<and> e = ErrNoRows \<and> \<not> (\<exists>c. visible d i = Some c \<and> g c)"
    if "update_jobs_returning p f d = (Inl e, d')"
  proof -
    from that have e: "e = ErrNoRows" and none: "\<And>r. row_of d i = Some r \<Longrightarrow> \<not> p r"
      and d': "d' = d\<lparr>tbl_jobs := update_where p f (tbl_jobs d)\<rparr>"
      by (auto simp: update_jobs_returning_def scan split: option.splits if_splits)
    have "d' = d" unfolding d' by (rule update_none [where i = i, OF dist]) (blast intro: pid none dest: none)+
    moreover have "\<not> (\<exists>c. visible d i = Some c \<and> g c)"
      using none p by (auto simp: visible_Some dest: row_of_ID)
    ultimately show ?thesis using e by blast
  qed
qed

section \<open>The laws, operation by operation\<close>

lemma stmt_ok_update:
  assumes p: "\<And>r. p r \<longleftrightarrow> job_ID r = i \<and> job_DeletedAt r = None \<and> g (fromDBJob r)"
    and "\<And>now r. job_static (f now r) = job_static r"
    and "\<And>now r. job_DeletedAt (f now r) = job_DeletedAt r"
    and row: "\<And>now. \<forall>r. job_row_ok r \<longrightarrow> job_row_ok (f now r)"
    and F: "\<And>now r a. a_view a i = Some (fromDBJob r) \<Longrightarrow> g (fromDBJob r)
      \<Longrightarrow> F (f now r) a (put_job i (fromDBJob (f now r)) a)"
    and N: "\<And>a. \<not> (\<exists>c. a_view a i = Some c \<and> g c) \<Longrightarrow> N a"
  shows "stmt_ok (\<lambda>now. update_jobs_returning p (f now)) F N"
proof (rule stmt_okI)
  fix now d assume ok: "schema_ok d"
  note u = update_stmt_ok [of p i g "f now", OF p assms(2,3) row ok]
  show "schema_ok (snd (update_jobs_returning p (f now) d))" by (rule u(1))
  show "F x (abs_db d ms) (abs_db d' ms)" if "update_jobs_returning p (f now) d = (Inr x, d')" for x d' ms
    using u(2) [OF that, of ms] F by (metis abs_db_sel(1))
  show "d' = d \<and> (e = ErrNoRows \<and> N (abs_db d ms) \<or> (\<exists>c. e = PgError c))"
    if "update_jobs_returning p (f now) d = (Inl e, d')" for e d' ms
    using u(3) [OF that] N by simp
qed

lemma JobStore_Get: "implements inv_world abs_world (JobStore_GetJob i u)
    (\<lambda>j a a'. a' = a \<and> owned i u a j) (\<lambda>a. \<not> (\<exists>j. owned i u a j))"
  unfolding JobStore_GetJob_def
proof (rule pg_implements)
  show "stmt_ok (q_GetJobByID i u) (\<lambda>x a a'. a' = a \<and> owned i u a (fromDBJob x))
      (\<lambda>a. \<not> (\<exists>j. owned i u a j))"
    using scanJob_by_ID [OF schema_ok_distinct, of _ "\<lambda>r. job_ID r = i \<and> job_UserID r = u
        \<and> job_DeletedAt r = None" i "\<lambda>r. r"]
    by (intro pg_read)
      (auto simp: q_GetJobByID_def owned_def visible_def dest: row_of_ID split: option.splits if_splits)
qed simp_all

lemma idem_visible:
  assumes "schema_ok d"
  shows "has_key u k (abs_db d ms) j \<longleftrightarrow> (\<exists>r \<in> set (tbl_jobs d). job_UserID r = u
     \<and> job_IdempotencyKey r = Some k \<and> job_DeletedAt r = None \<and> j = fromDBJob r)"
  using row_of_Some_unique [OF schema_ok_distinct [OF assms]]
  by (auto simp: has_key_def visible_Some dest: row_of_mem)

lemma JobStore_GetByKey: "implements inv_world abs_world (JobStore_GetJobByIdempotencyKey u k)
    (\<lambda>j a a'. a' = a \<and> has_key u k a j) (\<lambda>a. \<not> (\<exists>j. has_key u k a j))"
  unfolding JobStore_GetJobByIdempotencyKey_def
proof (rule pg_implements)
  let ?p = "\<lambda>r. job_UserID r = u \<and> job_IdempotencyKey r = Some k \<and> job_DeletedAt r = None"
  have scan: "case scanJob (filter ?p (tbl_jobs d)) of
      Inr x \<Rightarrow> x \<in> set (tbl_jobs d) \<and> ?p x | Inl e \<Rightarrow> e = ErrNoRows \<and> (\<forall>r \<in> set (tbl_jobs d). \<not> ?p r)" for d
    by (cases "filter ?p (tbl_jobs d)")
      (auto simp: scanJob_def filter_empty_conv dest: filter_eq_ConsD)
  show "stmt_ok (q_GetJobByIdempotencyKey u k) (\<lambda>x a a'. a' = a \<and> has_key u k a (fromDBJob x))
      (\<lambda>a. \<not> (\<exists>j. has_key u k a j))"
  proof (rule pg_read)
    fix now d x ms assume ok: "schema_ok d" and "fst (q_GetJobByIdempotencyKey u k now d) = Inr x"
    then show "abs_db d ms = abs_db d ms \<and> has_key u k (abs_db d ms) (fromDBJob x)"
      using scan [of d] by (auto simp: q_GetJobByIdempotencyKey_def idem_visible [OF ok])
  next
    fix now d e ms assume ok: "schema_ok d" and "fst (q_GetJobByIdempotencyKey u k now d) = Inl e"
    then show "e = ErrNoRows \<and> \<not> (\<exists>j. has_key u k (abs_db d ms) j) \<or> (\<exists>c. e = PgError c)"
      using scan [of d] by (auto simp: q_GetJobByIdempotencyKey_def idem_visible [OF ok])
  qed (simp add: q_GetJobByIdempotencyKey_def)
qed simp_all

lemma JobStore_List: "implements inv_world abs_world (JobStore_ListJobs u st cur n)
    (\<lambda>js a a'. a' = a \<and> (\<forall>j \<in> set js. owned (job_ID j) u a j)) (\<lambda>_. False)"
  unfolding JobStore_ListJobs_def
proof (rule pg_implements)
  show "stmt_ok (q_ListJobsByUser u st cur n)
      (\<lambda>x a a'. a' = a \<and> (\<forall>j \<in> set (map fromDBJob x). owned (job_ID j) u a j)) (\<lambda>_. False)"
  proof (rule pg_read)
    fix now d x ms assume ok: "schema_ok d" and "fst (q_ListJobsByUser u st cur n now d) = Inr x"
    then show "abs_db d ms = abs_db d ms
        \<and> (\<forall>j \<in> set (map fromDBJob x). owned (job_ID j) u (abs_db d ms) j)"
      using row_of_Some_unique [OF schema_ok_distinct [OF ok]]
      by (auto simp: q_ListJobsByUser_def list_filter_def owned_def visible_Some
          dest!: in_set_takeD split: if_splits)
  qed (auto simp: q_ListJobsByUser_def split: if_splits)
qed simp_all

lemma JobStore_Create: "implements inv_world abs_world (JobStore_CreateJob j0) (eff_create j0) (\<lambda>_. False)"
  unfolding JobStore_CreateJob_def
proof (rule pg_implements)
  let ?p = "\<lparr>cj_ID = job_ID j0, cj_UserID = job_UserID j0, cj_Status = job_Status j0,
       cj_IdempotencyKey = job_IdempotencyKey j0, cj_ObjectKey = job_ObjectKey j0,
       cj_OriginalFilename = job_OriginalFilename j0, cj_SizeBytes = job_SizeBytes j0,
       cj_Model = job_Model j0\<rparr>"
  show "stmt_ok (q_CreateJob ?p) (\<lambda>x. eff_create j0 (fromDBJob x)) (\<lambda>_. False)"
  proof (rule stmt_okI)
    fix now d x d' ms assume ok: "schema_ok d" and c: "q_CreateJob ?p now d = (Inr x, d')"
    let ?r = "new_job_row ?p now"
    from c have x: "x = ?r" and d': "d' = d\<lparr>tbl_jobs := tbl_jobs d @ [?r]\<rparr>"
      and none: "row_of d (job_ID j0) = None"
      and key: "\<forall>r \<in> set (tbl_jobs d). \<not> same_idem_key (job_UserID j0) (job_IdempotencyKey j0) r"
      by (auto simp: q_CreateJob_def scanJob_def row_of_None split: if_splits)
    have "visible d' = (visible d)(job_ID j0 \<mapsto> fromDBJob ?r)"
      using none by (auto simp: d' visible_def row_of_insert new_job_row_def fun_eq_iff split: option.splits)
    moreover have "event_log d' = event_log d" by (simp add: d' event_log_def)
    moreover have "fromDBJob ?r = created_job now j0"
      by (simp add: new_job_row_def fromDBJob_def created_job_def)
    ultimately show "eff_create j0 (fromDBJob x) (abs_db d ms) (abs_db d' ms)"
      using none key by (auto simp: eff_create_def x put_job_def abs_db_def visible_def
          idem_visible [OF ok, unfolded abs_db_def] same_idem_key_def)
  qed (auto simp: q_CreateJob_def scanJob_def split: if_splits dest: schema_ok_CreateJob [unfolded q_CreateJob_def])
qed simp_all

lemma JobStore_Cancel: "implements inv_world abs_world (JobStore_CancelJob i u) (eff_cancel i u)
    (\<lambda>a. \<not> (\<exists>c. owned i u a c \<and> CanCancel (job_Status c)))"
  unfolding JobStore_CancelJob_def q_CancelJob_def
  by (intro pg_implements stmt_ok_update [where i = i and g = "\<lambda>c. job_UserID c = u \<and> CanCancel (job_Status c)"])
    (auto simp: CanCancel_def eff_cancel_def owned_def row_ok_updates update_specs)

lemma JobStore_Retry: "implements inv_world abs_world (JobStore_RetryJob i u) (eff_retry i u)
    (\<lambda>a. \<not> (\<exists>c. owned i u a c \<and> CanRetry (job_Status c)))"
  unfolding JobStore_RetryJob_def q_RetryJob_def
  by (intro pg_implements stmt_ok_update [where i = i and g = "\<lambda>c. job_UserID c = u \<and> CanRetry (job_Status c)"])
    (auto simp: CanRetry_def eff_retry_def owned_def row_ok_updates update_specs)

lemma JobStore_UpdateStatus: "implements inv_world abs_world (JobStore_UpdateJobStatus i s) (eff_status i s)
    (\<lambda>a. a_view a i = None)"
  unfolding JobStore_UpdateJobStatus_def
proof (rule pg_implements)
  let ?p = "\<lambda>r. job_ID r = i \<and> job_DeletedAt r = None"
  show "stmt_ok (q_UpdateJobStatus i s) (\<lambda>x. eff_status i s (fromDBJob x)) (\<lambda>a. a_view a i = None)"
  proof (cases "s \<in> set all_statuses")
    case True
    then have "q_UpdateJobStatus i s = (\<lambda>now. update_jobs_returning ?p (set_status s now))"
      by (simp add: q_UpdateJobStatus_def fun_eq_iff)
    with True show ?thesis
      by (auto intro!: stmt_ok_update [where i = i and g = "\<lambda>_. True"] simp: row_ok_updates eff_status_def)
  next
    case False
    have *: "fst (q_UpdateJobStatus i s now d) \<in> {Inl (PgError ''23514''), Inl ErrNoRows}
        \<and> snd (q_UpdateJobStatus i s now d) = d
        \<and> (fst (q_UpdateJobStatus i s now d) = Inl ErrNoRows \<longrightarrow> visible d i = None)" for now d
      using False
      by (auto simp: q_UpdateJobStatus_def update_jobs_returning_def scanJob_def visible_def update_where_none
          Let_def dest: row_of_mem row_of_ID split: option.splits list.splits)
    show ?thesis
    proof (rule pg_read)
      fix now d e ms assume "fst (q_UpdateJobStatus i s now d) = Inl e"
      then show "e = ErrNoRows \<and> a_view (abs_db d ms) i = None \<or> (\<exists>c. e = PgError c)"
        using * [of now d] by auto
    next
      fix now d x ms assume "fst (q_UpdateJobStatus i s now d) = Inr x"
      then show "eff_status i s (fromDBJob x) (abs_db d ms) (abs_db d ms)"
        using * [of now d] by auto
    qed (use * in blast)
  qed
qed simp_all

lemma JobStore_Delete: "implements inv_world abs_world (JobStore_SoftDeleteJob i u) (\<lambda>_. eff_delete i u)
    (\<lambda>a. \<not> (\<exists>c. owned i u a c))"
proof (rule implementsI)
  fix w r w' assume I: "inv_world w" and c: "JobStore_SoftDeleteJob i u w = (r, w')"
  let ?p = "\<lambda>r. job_ID r = i \<and> job_UserID r = u \<and> job_DeletedAt r = None"
  let ?n = "length (filter ?p (tbl_jobs (w_db w)))" and ?d = "snd (q_SoftDeleteJob i u (time_of w) (w_db w))"
  have ok: "schema_ok (w_db w)" using I by (simp add: inv_world_def)
  have n: "?n = (if \<exists>c. owned i u (abs_world w) c then 1 else 0)"
    by (auto simp: filter_by_ID [OF schema_ok_distinct [OF ok], of ?p i] owned_def abs_world_def visible_Some
        dest: row_of_ID split: option.splits)
  have eff: "eff_delete i u (abs_world w) (abs_world (after w ?d))" if "\<exists>c. owned i u (abs_world w) c"
  proof -
    have d: "?d = w_db w\<lparr>tbl_jobs := update_where ?p (\<lambda>r. r\<lparr>job_DeletedAt := Some (time_of w)\<rparr>)
        (tbl_jobs (w_db w))\<rparr>"
      by (simp add: q_SoftDeleteJob_def Let_def)
    have "visible ?d k = ((visible (w_db w))(i := None)) k" for k
      using that unfolding d visible_def
      by (subst row_of_update) (auto simp: owned_def abs_world_def visible_Some
          dest: row_of_ID split: option.splits if_splits)
    moreover have "event_log ?d = event_log (w_db w)" by (simp add: q_SoftDeleteJob_def event_log_def Let_def)
    ultimately show ?thesis
      using that by (auto simp: eff_delete_def abs_world_def abs_db_def hide_job_def fun_eq_iff)
  qed
  have same: "?d = w_db w" if "\<not> (\<exists>c. owned i u (abs_world w) c)"
  proof -
    have "?n = 0" using n that by presburger
    then have "\<And>r. r \<in> set (tbl_jobs (w_db w)) \<Longrightarrow> \<not> ?p r" by (simp add: filter_empty_conv)
    then show ?thesis by (simp add: q_SoftDeleteJob_def Let_def update_where_none)
  qed
  have rn: "fst (q_SoftDeleteJob i u (time_of w) (w_db w)) = Inr (int ?n)"
    by (simp add: q_SoftDeleteJob_def Let_def)
  show "inv_world w' \<and> (case r of Inr x \<Rightarrow> eff_delete i u (abs_world w) (abs_world w')
      | Inl e \<Rightarrow> err_effect (\<lambda>_. eff_delete i u) (\<lambda>a. \<not> (\<exists>c. owned i u a c)) e (abs_world w) (abs_world w'))"
  proof (cases rule: pg_cases [of "q_SoftDeleteJob i u" w])
    case answered
    then have pg: "pg (q_SoftDeleteJob i u) w = (Inr (int ?n), after w ?d)" using rn by simp
    show ?thesis
    proof (cases "\<exists>c. owned i u (abs_world w) c")
      case True
      then have "?n = 1" using n by presburger
      with pg c eff True schema_ok_SoftDeleteJob [OF ok, of i u "time_of w"] show ?thesis
        by (auto simp: JobStore_SoftDeleteJob_def inv_world_def)
    next
      case False
      then have "?n = 0" using n by presburger
      with pg c have "r = Inl ErrNotFound" "w' = after w ?d" by (auto simp: JobStore_SoftDeleteJob_def)
      with False ok same show ?thesis by (auto simp: inv_world_def err_effect_def abs_world_def)
    qed
  next
    case (lost d)
    then show ?thesis
      using c ok eff same schema_ok_SoftDeleteJob [OF ok, of i u "time_of w"]
      by (cases "\<exists>c. owned i u (abs_world w) c")
        (auto simp: JobStore_SoftDeleteJob_def inv_world_def err_effect_def abs_world_def)
  qed
qed

lemma JobStore_Event: "implements inv_world abs_world (JobStore_CreateEvent i ty body)
    (\<lambda>_ a a'. a' = log_event i ty a) (\<lambda>_. False)"
proof (rule implementsI)
  fix w r w' assume I: "inv_world w" and c: "JobStore_CreateEvent i ty body w = (r, w')"
  obtain e w1 where n: "uuid_New w = (e, w1)" by (cases "uuid_New w")
  have w1: "inv_world w1" "abs_world w1 = abs_world w"
    using I n by (auto simp: uuid_New_def inv_world_def abs_world_def)
  have "implements inv_world abs_world (check (pg (q_CreateJobEvent e i ty body))
      (Errorf ''jobstore: create event'') (\<lambda>row. ret (fromDBEvent row)))
      (\<lambda>_ a a'. a' = log_event i ty a) (\<lambda>_. False)"
  proof (rule pg_implements)
    show "stmt_ok (q_CreateJobEvent e i ty body) (\<lambda>_ a a'. a' = log_event i ty a) (\<lambda>_. False)"
    proof (rule stmt_okI)
      show "schema_ok (snd (q_CreateJobEvent e i ty body now d))" if "schema_ok d" for now d
        using that by (rule schema_ok_CreateJobEvent)
    qed (auto simp: q_CreateJobEvent_def Let_def log_event_def abs_db_def event_log_def visible_def
        fun_eq_iff split: if_splits)
  qed simp_all
  from implementsD [OF this w1(1)] c n w1(2)
  show "inv_world w' \<and> (case r of Inr x \<Rightarrow> abs_world w' = log_event i ty (abs_world w)
      | Inl e \<Rightarrow> err_effect (\<lambda>(_::Event) a a'. a' = log_event i ty a) (\<lambda>_. False) e (abs_world w) (abs_world w'))"
    by (auto simp: JobStore_CreateEvent_def split: sum.splits)
qed

lemma JobStore_Reads:
  "implements inv_world abs_world (JobStore_ListEvents i) (\<lambda>_ a a'. a' = a) (\<lambda>_. False)"
  "implements inv_world abs_world (JobStore_GetTranscript i) (\<lambda>_ a a'. a' = a) (\<lambda>_. True)"
  "implements inv_world abs_world (JobStore_ListSegments i) (\<lambda>_ a a'. a' = a) (\<lambda>_. False)"
  unfolding JobStore_ListEvents_def JobStore_GetTranscript_def JobStore_ListSegments_def
  by (intro pg_implements pg_read; auto simp: q_ListJobEventsByJob_def q_GetTranscriptByJobID_def
      q_ListSegmentsByTranscript_def split: list.splits)+

lemma job_msgs_append [simp]: "job_msgs (es @ [[(''job_id'', i)]]) = job_msgs es @ [i]"
  by (simp add: job_msgs_def)

lemma Producer_implements: "implements inv_world abs_world (Producer_Enqueue i) (\<lambda>_ a a'. a' = send_msg i a)
    (\<lambda>_. False)"
  by (rule implementsI)
    (auto simp: Producer_Enqueue_def xadd_def remote_def check_def Let_def inv_world_def abs_world_def
      abs_db_def send_msg_def err_effect_def split: fault.splits)

lemma Client_implements: "implements inv_world abs_world (Client_DeleteObject key) (\<lambda>_ a a'. a' = a) (\<lambda>_. True)"
  by (rule implementsI)
    (auto simp: Client_DeleteObject_def remove_object_def remote_def check_def Let_def inv_world_def
      abs_world_def err_effect_def split: fault.splits)

lemma visible_key_unique:
  assumes "schema_ok d" and "has_key u k (abs_db d ms) c" and "has_key u k (abs_db d ms) c'"
  shows "c = c'"
  using assms distinct_idem_keysD [of "tbl_jobs d"]
  by (auto simp: idem_visible schema_defs)

text \<open>Postgres, Redis and the object store meet the contract the job service relies on.\<close>

interpretation pgjobs: job_backend JobStore Producer Client uuid_New inv_world abs_world
proof unfold_locales
  show "job_ID c = i" if "a_view (abs_world w) i = Some c" for w i c
    using that by (auto simp: abs_world_def visible_Some dest: row_of_ID)
  show "c = c'" if "inv_world w" "has_key u k (abs_world w) c" "has_key u k (abs_world w) c'" for w u k c c'
    using that visible_key_unique by (simp add: inv_world_def abs_world_def)
  show "inv_world w' \<and> abs_world w' = abs_world w" if "inv_world w" "uuid_New w = (i, w')" for w i w'
    using that by (auto simp: uuid_New_def inv_world_def abs_world_def)
qed (simp_all only: JobStore_def Producer_def Client_def Store.select_convs Queue.select_convs
    ObjectStore.select_convs JobStore_Get JobStore_GetByKey JobStore_List
    JobStore_Create JobStore_UpdateStatus JobStore_Cancel JobStore_Retry JobStore_Delete JobStore_Event
    JobStore_Reads Producer_implements Client_implements)

end
