(* ===== verification/Job_Correct.thy ===== *)
theory Job_Correct
  imports Job_Store
begin

text \<open>
  What the job service promises when it runs on Postgres, Redis and the object store, as
  \<open>cmd/api/main.go\<close> assembles it (\<open>jobSvc\<close>), in every world: for every clock, every pattern of
  failing calls and every sequence of identifiers.

  \<^item> The outcome of each method, branch by branch (through the interpretation \<open>pgjobs\<close>), and that an error which is not one of the
    job package's own needs a lost call or an identifier in use (\<open>cancel_calm\<close>, \<open>retry_calm\<close>, \<open>delete_calm\<close>).
  \<^item> What a cancellation or a retry answers that loses a race against another process.
  \<^item> What happens when no call fails: the request succeeds.
  \<^item> Each method's effect on the database is a sequence of statements of the API.
\<close>

section \<open>A concrete world\<close>

text \<open>One user with one job in status \<open>s\<close>, no failures, identifiers from 100 on.\<close>

definition sample_user :: db_User where
  "sample_user = \<lparr>u_ID = 1, u_Email = ''a@b.c'', u_PasswordHash = ''h'', u_CreatedAt = 0\<rparr>"

definition sample_job :: "Status \<Rightarrow> db_Job" where
  "sample_job s = \<lparr>job_ID = 7, job_UserID = 1, job_Status = s, job_IdempotencyKey = Some ''k'',
     job_ObjectKey = ''uploads/x'', job_OriginalFilename = ''x.wav'', job_SizeBytes = 10,
     job_DurationSeconds = None, job_Model = ''tiny.en'', job_Attempts = 0, job_MaxAttempts = 3,
     job_ErrorCode = None, job_ErrorMessage = None, job_WorkerID = None, job_LeaseExpiresAt = None,
     job_CreatedAt = 5, job_StartedAt = None, job_FinishedAt = None, job_DeletedAt = None\<rparr>"

definition sample_db :: "Status \<Rightarrow> database" where
  "sample_db s = \<lparr>tbl_users = [sample_user], tbl_api_keys = [], tbl_jobs = [sample_job s],
     tbl_transcripts = [], tbl_segments = [], tbl_job_events = [], notify_queue = []\<rparr>"

definition sample_env :: env where
  "sample_env = \<lparr>clock = (\<lambda>n. 10 + int n), fault_at = (\<lambda>_. NoFault), uuid_at = (\<lambda>n. 100 + of_nat n),
     rand_at = (\<lambda>n k. Some (replicate k (CHR ''r'')))\<rparr>"

definition sample_world :: "Status \<Rightarrow> world" where
  "sample_world s = \<lparr>w_env = sample_env, w_calls = 0, w_uuids = 0, w_rands = 0, w_db = sample_db s,
     w_redis = (\<lambda>_. []), w_bucket = {''uploads/x''}\<rparr>"

definition sample_params :: "string option \<Rightarrow> CreateParams" where
  "sample_params k = \<lparr>cp_UserID = 1, cp_IdempotencyKey = k, cp_ObjectKey = ''uploads/y'',
     cp_OriginalFilename = ''y.wav'', cp_SizeBytes = 20, cp_Model = ''tiny.en''\<rparr>"

lemmas sample_defs = sample_user_def sample_job_def sample_db_def sample_env_def sample_world_def
  sample_params_def

lemma sample_schema: "s \<in> set all_statuses \<Longrightarrow> schema_ok (sample_db s)"
  by (simp add: schema_defs sample_defs job_row_ok_def in_int32_def idem_keys_def List.map_filter_def)

lemma sample_inv: "s \<in> set all_statuses \<Longrightarrow> inv_world (sample_world s)"
  using sample_schema by (simp add: inv_world_def sample_world_def)

lemma sample_fault_free [simp]: "fault_free (sample_world s)"
  by (simp add: fault_free_def sample_world_def sample_env_def)

section \<open>When the next calls are answered\<close>

text \<open>No fault is scheduled for the next \<open>k\<close> calls; the next \<open>k\<close> identifiers are different and in no event row.\<close>

definition quiet :: "nat \<Rightarrow> world \<Rightarrow> bool" where
  "quiet k w \<longleftrightarrow> (\<forall>n < k. fault_at (w_env w) (w_calls w + n) = NoFault)"

fun fresh_events :: "nat \<Rightarrow> world \<Rightarrow> bool" where
  "fresh_events 0 w = True"
| "fresh_events (Suc k) w \<longleftrightarrow> uuid_at (w_env w) (w_uuids w) \<notin> ev_ID ` set (tbl_job_events (w_db w))
     \<and> uuid_at (w_env w) (w_uuids w) \<notin> (\<lambda>n. uuid_at (w_env w) (w_uuids w + n)) ` {1..k}
     \<and> fresh_events k (w\<lparr>w_uuids := Suc (w_uuids w)\<rparr>)"

lemma quiet_answered: "quiet (Suc k) w \<Longrightarrow> answered w"
  by (auto simp: quiet_def answered_def)

lemma quiet_next: "quiet (Suc k) w \<Longrightarrow> w_env w' = w_env w \<Longrightarrow> w_calls w' = Suc (w_calls w) \<Longrightarrow> quiet k w'"
  unfolding quiet_def by (metis add_Suc add_Suc_right Suc_less_eq)

lemma fault_free_quiet [simp]: "fault_free w \<Longrightarrow> quiet k w"
  by (simp add: fault_free_def quiet_def)

lemma GetJob_answered:
  assumes "inv_world w" and "answered w"
  shows "JobStore_GetJob i u w = (case visible (w_db w) i of Some c \<Rightarrow> if job_UserID c = u then Inr c else Inl ErrNotFound
    | None \<Rightarrow> Inl ErrNotFound, after w (w_db w))"
proof -
  let ?p = "\<lambda>r. job_ID r = i \<and> job_UserID r = u \<and> job_DeletedAt r = None"
  have "distinct (map job_ID (tbl_jobs (w_db w)))" using assms(1) by (simp add: inv_world_def schema_ok_distinct)
  from scanJob_by_ID [OF this, of ?p i "\<lambda>r. r"] have
    "scanJob (filter ?p (tbl_jobs (w_db w))) = (case row_of (w_db w) i of Some r \<Rightarrow> if ?p r then Inr r else Inl ErrNoRows | None \<Rightarrow> Inl ErrNoRows)"
    by simp
  then show ?thesis
    using assms(2) by (auto simp: JobStore_GetJob_def check_def pg_answered q_GetJobByID_def visible_def mapNotFound_def
        dest: row_of_ID split: option.splits)
qed

text \<open>An update of the row a visible job has, read back with \<open>RETURNING\<close>.\<close>

lemma update_returning_row:
  assumes "schema_ok d" and "row_of d i = Some r" and "p r" and "\<And>r. p r \<Longrightarrow> job_ID r = i"
  shows "fst (update_jobs_returning p f d) = Inr (f r)"
  using scanJob_by_ID [OF schema_ok_distinct [OF assms(1)], of p i f] assms(2-4) by (auto simp: update_jobs_returning_def)

definition has_row :: "uuid \<Rightarrow> database \<Rightarrow> bool" where
  "has_row i d \<longleftrightarrow> (\<exists>r \<in> set (tbl_jobs d). job_ID r = i)"

lemma has_row_update: "(\<And>r. job_ID (f r) = job_ID r) \<Longrightarrow> has_row i (snd (update_jobs_returning p f d)) = has_row i d"
  by (auto simp: has_row_def update_jobs_returning_def set_update_where)

lemma owned_row:
  assumes "owned i u (abs_world w) c"
  obtains r where "row_of (w_db w) i = Some r" "job_DeletedAt r = None" "c = fromDBJob r" "job_UserID r = u" "job_ID r = i"
  using assms row_of_ID by (fastforce simp: owned_def abs_world_def visible_Some)

lemma updates_answered:
  assumes "inv_world w" and "answered w" and "owned i u (abs_world w) c"
  shows "job_Status c \<in> {StatusQueued, StatusProcessing} \<Longrightarrow>
      \<exists>j d. JobStore_CancelJob i u w = (Inr j, after w d) \<and> has_row i d \<and> tbl_job_events d = tbl_job_events (w_db w)"
    and "job_Status c = StatusFailed \<Longrightarrow>
      \<exists>j d. JobStore_RetryJob i u w = (Inr j, after w d) \<and> has_row i d \<and> tbl_job_events d = tbl_job_events (w_db w)"
proof -
  obtain r where r: "row_of (w_db w) i = Some r" "job_DeletedAt r = None" "c = fromDBJob r" "job_UserID r = u" "job_ID r = i"
    using owned_row [OF assms(3)] .
  have ok: "schema_ok (w_db w)" using assms(1) by (simp add: inv_world_def)
  have row: "has_row i (w_db w)" using row_of_mem [OF r(1)] r(5) by (auto simp: has_row_def)
  show "\<exists>j d. JobStore_CancelJob i u w = (Inr j, after w d) \<and> has_row i d \<and> tbl_job_events d = tbl_job_events (w_db w)"
    if "job_Status c \<in> {StatusQueued, StatusProcessing}"
  proof -
    have "fst (q_CancelJob i u (time_of w) (w_db w)) = Inr (set_cancelled (time_of w) r)" unfolding q_CancelJob_def
      by (rule update_returning_row [OF ok r(1)]) (use that r in auto)
    moreover have "has_row i (snd (q_CancelJob i u (time_of w) (w_db w)))" unfolding q_CancelJob_def by (simp add: has_row_update row)
    moreover have "tbl_job_events (snd (q_CancelJob i u (time_of w) (w_db w))) = tbl_job_events (w_db w)" by (simp add: q_CancelJob_def update_jobs_returning_def)
    ultimately show ?thesis
      by (intro exI [of _ "fromDBJob (set_cancelled (time_of w) r)"] exI [of _ "snd (q_CancelJob i u (time_of w) (w_db w))"]) (simp add: JobStore_CancelJob_def check_def pg_answered [OF assms(2)])
  qed
  show "\<exists>j d. JobStore_RetryJob i u w = (Inr j, after w d) \<and> has_row i d \<and> tbl_job_events d = tbl_job_events (w_db w)"
    if "job_Status c = StatusFailed"
  proof -
    have "fst (q_RetryJob i u (time_of w) (w_db w)) = Inr (reset_for_retry r)" unfolding q_RetryJob_def
      by (rule update_returning_row [OF ok r(1)]) (use that r in auto)
    moreover have "has_row i (snd (q_RetryJob i u (time_of w) (w_db w)))" unfolding q_RetryJob_def by (simp add: has_row_update row)
    moreover have "tbl_job_events (snd (q_RetryJob i u (time_of w) (w_db w))) = tbl_job_events (w_db w)" by (simp add: q_RetryJob_def update_jobs_returning_def)
    ultimately show ?thesis
      by (intro exI [of _ "fromDBJob (reset_for_retry r)"] exI [of _ "snd (q_RetryJob i u (time_of w) (w_db w))"]) (simp add: JobStore_RetryJob_def check_def pg_answered [OF assms(2)])
  qed
qed

lemma after_uuids: "(after w d)\<lparr>w_uuids := n\<rparr> = after (w\<lparr>w_uuids := n\<rparr>) d"
  by (simp add: after_def)

lemma recordEvent_answered:
  assumes "answered w" and "has_row i (w_db w)" and "fresh_events (Suc k) w" and "ty \<in> set all_event_types"
  shows "\<exists>d. recordEvent jobSvc i ty None w = (Inr (), after (w\<lparr>w_uuids := Suc (w_uuids w)\<rparr>) d) \<and> has_row i d
    \<and> fresh_events k (after (w\<lparr>w_uuids := Suc (w_uuids w)\<rparr>) d)"
proof -
  let ?w = "w\<lparr>w_uuids := Suc (w_uuids w)\<rparr>" and ?e = "\<lparr>ev_ID = uuid_at (w_env w) (w_uuids w), ev_JobID = i, ev_EventType = ty,
    ev_Payload = ''{}'', ev_CreatedAt = time_of w\<rparr>"
  let ?d = "(w_db w)\<lparr>tbl_job_events := tbl_job_events (w_db w) @ [?e], notify_queue := notify_queue (w_db w) @ notify_job_event ?e (tbl_jobs (w_db w))\<rparr>"
  have ans: "answered ?w" "time_of ?w = time_of w" using assms(1) by (simp_all add: answered_def time_of_def)
  have "q_CreateJobEvent (uuid_at (w_env w) (w_uuids w)) i ty ''{}'' (time_of w) (w_db w) = (Inr ?e, ?d)"
    using assms(2-4) by (force simp: q_CreateJobEvent_def has_row_def Let_def image_iff)
  then have "recordEvent jobSvc i ty None w = (Inr (), after ?w ?d)"
    by (simp add: recordEvent_None jobSvc_def NewService_def JobStore_def JobStore_CreateEvent_def uuid_New_def check_def pg_answered [OF ans(1)] ans(2))
  moreover have "fresh_events n (after v ?d)" if "fresh_events n v" "w_db v = w_db w" "w_env v = w_env w"
    "uuid_at (w_env w) (w_uuids w) \<notin> (\<lambda>m. uuid_at (w_env w) (w_uuids v + m)) ` {0..<n}" for n v
    using that
  proof (induction n arbitrary: v)
    case (Suc n)
    have "uuid_at (w_env w) (w_uuids w) \<notin> (\<lambda>m. uuid_at (w_env w) (Suc (w_uuids v) + m)) ` {0..<n}"
      using Suc.prems(4) by (force simp: image_iff)
    then have "fresh_events n (after (v\<lparr>w_uuids := Suc (w_uuids v)\<rparr>) ?d)" using Suc.prems by (intro Suc.IH) simp_all
    moreover have "uuid_at (w_env w) (w_uuids v) \<noteq> uuid_at (w_env w) (w_uuids w)" using Suc.prems(4) by (force simp: image_iff)
    ultimately show ?case using Suc.prems by (simp add: after_uuids)
  qed simp
  moreover have "uuid_at (w_env w) (w_uuids w) \<notin> (\<lambda>m. uuid_at (w_env w) (w_uuids ?w + m)) ` {0..<k}"
    using assms(3) by (force simp: image_iff)
  ultimately show ?thesis using assms(2,3) by (intro exI [of _ ?d]) (simp add: has_row_def)
qed

lemma jobSvc_sel [simp]: "sv_store jobSvc = JobStore" "sv_queue jobSvc = Producer" "sv_objects jobSvc = Client"
  by (simp_all add: jobSvc_def NewService_def)

lemma GetJob_found:
  assumes "inv_world w" and "answered w"
  shows "owned i u (abs_world w) c \<Longrightarrow> st_GetJob JobStore i u w = (Inr c, after w (w_db w))"
    and "\<not> (\<exists>c. owned i u (abs_world w) c) \<Longrightarrow> st_GetJob JobStore i u w = (Inl ErrNotFound, after w (w_db w))"
  using GetJob_answered [OF assms, of i u] by (auto simp: JobStore_def owned_def abs_world_def split: option.splits)

lemma fresh_events_db: "tbl_job_events d = tbl_job_events (w_db w) \<Longrightarrow> fresh_events k (after w d) = fresh_events k w"
  by (induction k arbitrary: w) (auto simp: after_uuids)

lemma after_same: "inv_world w \<Longrightarrow> inv_world (after w (w_db w))" "abs_world (after w (w_db w)) = abs_world w"
  "fresh_events k (after w (w_db w)) = fresh_events k w"
  by (simp_all add: inv_world_def abs_world_def fresh_events_db)

text \<open>A method that fails although its calls are answered and its identifiers are fresh fails for a reason of its own.\<close>

lemma Cancel_quiet:
  assumes "inv_world w" and q: "quiet 3 w" and "fresh_events 1 w" and "owned i u (abs_world w) c"
    and "job_Status c \<in> {StatusQueued, StatusProcessing}"
  shows "\<exists>j w'. Cancel jobSvc u i w = (Inr j, w')"
proof -
  let ?w1 = "after w (w_db w)"
  have "answered w" and q1: "quiet 2 ?w1" using q quiet_answered [of 2 w] quiet_next [of 2 w ?w1] by (simp_all add: numeral_eq_Suc)
  then have a1: "answered ?w1" using quiet_answered [of 1 ?w1] by (simp add: numeral_eq_Suc)
  obtain j d where u: "JobStore_CancelJob i u ?w1 = (Inr j, after ?w1 d)" "has_row i d" "tbl_job_events d = tbl_job_events (w_db ?w1)"
    using updates_answered(1) [OF after_same(1) [OF assms(1)] a1, of i u c] assms(4,5) by (auto simp: after_same(2))
  have a2: "answered (after ?w1 d)" using quiet_next [of 1 ?w1 "after ?w1 d"] quiet_answered [of 0 "after ?w1 d"] q1 by (simp add: numeral_eq_Suc)
  have "fresh_events (Suc 0) (after ?w1 d)" using assms(3) fresh_events_db [OF u(3)] by (simp add: after_same(3))
  then obtain d' where "recordEvent jobSvc i EventCancelled None (after ?w1 d) = (Inr (), d')"
    using recordEvent_answered [OF a2, of i 0 EventCancelled] u(2) by (auto simp: all_event_types_def)
  then show ?thesis using GetJob_found(1) [OF assms(1) \<open>answered w\<close> assms(4)] u(1) assms(5)
    by (auto simp: Cancel_def CanCancel_def JobStore_def check_def)
qed

lemma Retry_quiet:
  assumes "inv_world w" and q: "quiet 5 w" and "fresh_events 2 w" and "owned i u (abs_world w) c" and "job_Status c = StatusFailed"
  shows "\<exists>j w'. Retry jobSvc u i w = (Inr j, w')"
proof -
  let ?w1 = "after w (w_db w)"
  have "answered w" and q1: "quiet 4 ?w1" using q quiet_answered [of 4 w] quiet_next [of 4 w ?w1] by (simp_all add: numeral_eq_Suc)
  then have a1: "answered ?w1" using quiet_answered [of 3 ?w1] by (simp add: numeral_eq_Suc)
  obtain j d where u: "JobStore_RetryJob i u ?w1 = (Inr j, after ?w1 d)" "has_row i d" "tbl_job_events d = tbl_job_events (w_db ?w1)"
    using updates_answered(2) [OF after_same(1) [OF assms(1)] a1, of i u c] assms(4,5) by (auto simp: after_same(2))
  let ?w2 = "after ?w1 d"
  have q2: "quiet 3 ?w2" using quiet_next [of 3 ?w1 ?w2] q1 by (simp add: numeral_eq_Suc)
  have a2: "answered ?w2" using quiet_answered [of 2 ?w2] q2 by (simp add: numeral_eq_Suc)
  have "fresh_events (Suc (Suc 0)) ?w2" using assms(3) fresh_events_db [OF u(3)] by (simp add: after_same(3) numeral_eq_Suc)
  then obtain d3 where e: "recordEvent jobSvc i EventRetrying None ?w2 = (Inr (), after (?w2\<lparr>w_uuids := Suc (w_uuids ?w2)\<rparr>) d3)" "has_row i d3"
      "fresh_events (Suc 0) (after (?w2\<lparr>w_uuids := Suc (w_uuids ?w2)\<rparr>) d3)"
    using recordEvent_answered [OF a2, of i "Suc 0" EventRetrying] u(2) by (auto simp: all_event_types_def)
  let ?w3 = "after (?w2\<lparr>w_uuids := Suc (w_uuids ?w2)\<rparr>) d3"
  have q3: "quiet 2 ?w3" using quiet_next [of 2 ?w2 ?w3] q2 by (simp add: numeral_eq_Suc)
  have a3: "answered ?w3" using quiet_answered [of 1 ?w3] q3 by (simp add: numeral_eq_Suc)
  obtain w4 where x: "Producer_Enqueue i ?w3 = (Inr (), w4)" "w_db w4 = d3" "w_env w4 = w_env ?w3" "w_calls w4 = Suc (w_calls ?w3)"
      "w_uuids w4 = w_uuids ?w3"
  proof -
    let ?w4 = "snd (xadd StreamName [(''job_id'', i)] ?w3)"
    have "Producer_Enqueue i ?w3 = (Inr (), ?w4)" unfolding Producer_Enqueue_def check_def xadd_answered [OF a3] by simp
    then show ?thesis by (rule that) simp_all
  qed
  have a4: "answered w4" using quiet_next [of 1 ?w3 w4] quiet_answered [of 0 w4] q3 x by (simp add: numeral_eq_Suc)
  have "fresh_events (Suc 0) w4" using e(3) x by simp
  then obtain w5 where "recordEvent jobSvc i EventQueued None w4 = (Inr (), w5)"
    using recordEvent_answered [OF a4, of i 0 EventQueued] e(2) x by (auto simp: all_event_types_def)
  then show ?thesis using GetJob_found(1) [OF assms(1) \<open>answered w\<close> assms(4)] u(1) e(1) x(1) assms(5)
    by (auto simp: Retry_def CanRetry_def JobStore_def Producer_def check_def)
qed

text \<open>A deletion does not depend on the object store.\<close>

lemma Delete_quiet:
  assumes "inv_world w" and q: "quiet 2 w" and "owned i u (abs_world w) c"
  shows "\<exists>w2. eff_delete i u (abs_world w) (abs_world w2) \<and>
    (\<forall>B. Delete (jobSvc\<lparr>sv_objects := B\<rparr>) u i w = (Inr (), snd (os_DeleteObject B (job_ObjectKey c) w2)))"
proof -
  let ?w1 = "after w (w_db w)" and ?d = "snd (q_SoftDeleteJob i u (time_of (after w (w_db w))) (w_db w))"
  have "answered w" and a1: "answered ?w1"
    using q quiet_answered [of 1 w] quiet_next [of 1 w ?w1] quiet_answered [of 0 ?w1] by (simp_all add: numeral_eq_Suc)
  obtain r where r: "row_of (w_db w) i = Some r" "job_DeletedAt r = None" "c = fromDBJob r" "job_UserID r = u" "job_ID r = i"
    using owned_row [OF assms(3)] .
  have "filter (\<lambda>r. job_ID r = i \<and> job_UserID r = u \<and> job_DeletedAt r = None) (tbl_jobs (w_db w)) \<noteq> []"
    using row_of_mem [OF r(1)] r by (auto simp: filter_empty_conv)
  then have del: "JobStore_SoftDeleteJob i u ?w1 = (Inr (), after ?w1 ?d)"
    by (simp add: JobStore_SoftDeleteJob_def check_def pg_answered [OF a1] q_SoftDeleteJob_def Let_def)
  have "eff_delete i u (abs_world w) (abs_world (after ?w1 ?d))"
    using implementsD(2) [OF pgjobs.soft_delete, of ?w1 i u "Inr ()" "after ?w1 ?d" "()"] after_same(1) [OF assms(1)] del
    by (simp add: JobStore_def after_same(2))
  moreover have "Delete (jobSvc\<lparr>sv_objects := B\<rparr>) u i w = (Inr (), snd (os_DeleteObject B (job_ObjectKey c) (after ?w1 ?d)))" for B
    using GetJob_found(1) [OF assms(1) \<open>answered w\<close> assms(3)] del by (simp add: Delete_def JobStore_def check_def)
  ultimately show ?thesis by blast
qed

section \<open>The outcome of each method\<close>

lemma arun_case:
  "arun I \<alpha> (\<lambda>a. a = \<alpha> w) m Q E \<Longrightarrow> I w \<Longrightarrow>
    (case m w of (Inr x, w') \<Rightarrow> I w' \<and> Q x (\<alpha> w') | (Inl e, w') \<Rightarrow> I w' \<and> E e (\<alpha> w'))"
  by (simp add: arun_def hoare_def)

text \<open>C5. \<open>Create\<close>, in every world. A returned job is either the visible job that already carries
  the idempotency key, with nothing changed, or a new queued job whose creation went through
  insert, \<open>created\<close> event, status \<open>queued\<close>, \<open>queued\<close> event and then one message to the stream, in that
  order. An error leaves nothing, or a prefix of that sequence: a message is never sent
  for a job whose row and events are not committed.\<close>

theorem Create_outcome:
  assumes "inv_world w"
  shows "case Create uuid_New jobSvc p w of
      (Inr j, w') \<Rightarrow> inv_world w' \<and>
        ((\<exists>k. cp_IdempotencyKey p = Some k \<and> has_key (cp_UserID p) k (abs_world w) j
            \<and> abs_world w' = abs_world w)
         \<or> (\<exists>i now. creatable i p (abs_world w) \<and> j = queued_job now i p
            \<and> abs_world w' = last (create_trace now i p (abs_world w))))
    | (Inl e, w') \<Rightarrow> inv_world w' \<and> opaque_err e \<and>
        (abs_world w' = abs_world w
         \<or> (\<exists>i now. creatable i p (abs_world w)
            \<and> abs_world w' \<in> set (create_trace now i p (abs_world w))))"
  using arun_case [OF pgjobs.Create_run [of "abs_world w" p] assms] by (simp add: jobSvc_def)

text \<open>What an error \<open>e\<close> of a method means that a user calls on job \<open>i\<close> and that requires \<open>can\<close> of it: the job is not
  the caller's; or its status does not allow the operation, which is the error \<open>refusal\<close>; or the calls were not \<open>calm\<close>, one being
  lost or an identifier drawn for an event being in use, and then the state is unchanged or as \<open>partial\<close> says.\<close>

definition error_means ::
  "error \<Rightarrow> (Job \<Rightarrow> bool) \<Rightarrow> bool \<Rightarrow> (jobs_abs \<Rightarrow> bool) \<Rightarrow> uuid \<Rightarrow> uuid \<Rightarrow> error \<Rightarrow> jobs_abs \<Rightarrow> jobs_abs \<Rightarrow> bool" where
  "error_means refusal can calm partial i u e a a' \<longleftrightarrow>
     e = ErrNotFound \<and> a' = a \<and> \<not> (\<exists>c. owned i u a c)
   \<or> e = refusal \<and> a' = a \<and> (\<exists>c. owned i u a c \<and> \<not> can c)
   \<or> opaque_err e \<and> \<not> calm \<and> (a' = a \<or> partial a')"

text \<open>The calls of a cancellation, a retry and a deletion are answered and the identifiers of their events are fresh.\<close>

definition cancel_calm :: "world \<Rightarrow> bool" where
  "cancel_calm w \<longleftrightarrow> quiet 3 w \<and> fresh_events 1 w"

definition retry_calm :: "world \<Rightarrow> bool" where
  "retry_calm w \<longleftrightarrow> quiet 5 w \<and> fresh_events 2 w"

definition delete_calm :: "world \<Rightarrow> bool" where
  "delete_calm w \<longleftrightarrow> quiet 2 w"

lemmas calm_defs = cancel_calm_def retry_calm_def delete_calm_def

lemma calm_answered: "cancel_calm w \<Longrightarrow> answered w" "retry_calm w \<Longrightarrow> answered w" "delete_calm w \<Longrightarrow> answered w"
  using quiet_answered [of 2 w] quiet_answered [of 4 w] quiet_answered [of 1 w] by (simp_all add: calm_defs numeral_eq_Suc)

lemma Cancel_calm_error:
  assumes "inv_world w" and "cancel_calm w" and "Cancel jobSvc u i w = (Inl e, w')"
  shows "\<not> opaque_err e"
proof (cases "\<exists>c. owned i u (abs_world w) c")
  case True
  then obtain c where c: "owned i u (abs_world w) c" by blast
  then have "job_Status c \<notin> {StatusQueued, StatusProcessing}"
    using Cancel_quiet [OF assms(1) _ _ c] assms(2,3) by (auto simp: calm_defs)
  then show ?thesis
    using GetJob_found(1) [OF assms(1) calm_answered(1) [OF assms(2)] c] assms(3) by (auto simp: Cancel_def CanCancel_def check_def)
qed (use GetJob_found(2) [OF assms(1) calm_answered(1) [OF assms(2)]] assms(3) in \<open>auto simp: Cancel_def check_def\<close>)

lemma Retry_calm_error:
  assumes "inv_world w" and "retry_calm w" and "Retry jobSvc u i w = (Inl e, w')"
  shows "\<not> opaque_err e"
proof (cases "\<exists>c. owned i u (abs_world w) c")
  case True
  then obtain c where c: "owned i u (abs_world w) c" by blast
  then have "job_Status c \<noteq> StatusFailed"
    using Retry_quiet [OF assms(1) _ _ c] assms(2,3) by (auto simp: calm_defs)
  then show ?thesis
    using GetJob_found(1) [OF assms(1) calm_answered(2) [OF assms(2)] c] assms(3) by (auto simp: Retry_def CanRetry_def check_def)
qed (use GetJob_found(2) [OF assms(1) calm_answered(2) [OF assms(2)]] assms(3) in \<open>auto simp: Retry_def check_def\<close>)

lemma jobSvc_objects: "jobSvc\<lparr>sv_objects := Client\<rparr> = jobSvc"
  by (simp add: jobSvc_def NewService_def)

lemma Delete_calm_error:
  assumes "inv_world w" and "delete_calm w" and "Delete jobSvc u i w = (Inl e, w')"
  shows "\<not> opaque_err e"
proof (cases "\<exists>c. owned i u (abs_world w) c")
  case True
  then obtain c where "owned i u (abs_world w) c" by blast
  from Delete_quiet [OF assms(1) _ this] obtain w2 where
    "\<forall>B. Delete (jobSvc\<lparr>sv_objects := B\<rparr>) u i w = (Inr (), snd (os_DeleteObject B (job_ObjectKey c) w2))"
    using assms(2) unfolding delete_calm_def by blast
  from spec [OF this, of Client] show ?thesis using assms(3) by (simp add: jobSvc_objects)
qed (use GetJob_found(2) [OF assms(1) calm_answered(3) [OF assms(2)]] assms(3) in \<open>auto simp: Delete_def check_def\<close>)

text \<open>The meaning of every error, which the HTTP handlers translate into a status.\<close>

lemma Cancel_error:
  assumes "inv_world w" and "Cancel jobSvc u i w = (Inl e, w')"
  shows "error_means ErrNotCancellable (\<lambda>c. job_Status c \<in> {StatusQueued, StatusProcessing}) (cancel_calm w)
    (\<lambda>a'. \<exists>j b. eff_cancel i u j (abs_world w) b \<and> a' \<in> {b, log_event i EventCancelled b}) i u e (abs_world w) (abs_world w')"
  using arunD(3) [OF pgjobs.Cancel_run [of "abs_world w" u i, folded jobSvc_def] assms(1,2)] Cancel_calm_error [OF assms(1) _ assms(2)]
  unfolding error_means_def by blast

lemma Retry_error:
  assumes "inv_world w" and "Retry jobSvc u i w = (Inl e, w')"
  shows "error_means ErrNotRetryable (\<lambda>c. job_Status c = StatusFailed) (retry_calm w)
    (\<lambda>a'. \<exists>j b. eff_retry i u j (abs_world w) b \<and> a' \<in> {b, log_event i EventRetrying b, send_msg i (log_event i EventRetrying b),
        log_event i EventQueued (send_msg i (log_event i EventRetrying b))}) i u e (abs_world w) (abs_world w')"
  using arunD(3) [OF pgjobs.Retry_run [of "abs_world w" u i, folded jobSvc_def] assms(1,2)] Retry_calm_error [OF assms(1) _ assms(2)]
  unfolding error_means_def by blast

lemma Delete_error:
  assumes "inv_world w" and "Delete jobSvc u i w = (Inl e, w')"
  shows "e = ErrNotFound \<and> abs_world w' = abs_world w \<and> \<not> (\<exists>c. owned i u (abs_world w) c)
    \<or> opaque_err e \<and> \<not> delete_calm w \<and> (abs_world w' = abs_world w \<or> eff_delete i u (abs_world w) (abs_world w'))"
  using arunD(3) [OF pgjobs.Delete_run [of "abs_world w" u i, folded jobSvc_def] assms(1,2)] Delete_calm_error [OF assms(1) _ assms(2)]
  by blast

text \<open>C8. \<open>Cancel\<close>, in every world: the job becomes \<open>cancelled\<close> with its finish time and one
  \<open>cancelled\<close> event, and only if it is visible, belongs to the caller, and was queued or
  processing. \<open>ErrNotFound\<close> means it is not visible to the caller, \<open>ErrNotCancellable\<close> that it is in
  another status; both leave everything as it was. Any other error is possible only when one of the three calls is lost or the
  identifier drawn for the event is in use, and the job is then untouched, or cancelled with or without its event. So
  when the calls are answered, a queued or processing job of the caller is always cancelled, and every other request gets the
  error of its cause.\<close>

theorem Cancel_outcome:
  assumes "inv_world w"
  shows "case Cancel jobSvc u i w of
      (Inr j, w') \<Rightarrow> inv_world w' \<and> (\<exists>b. eff_cancel i u j (abs_world w) b
        \<and> abs_world w' = log_event i EventCancelled b)
    | (Inl e, w') \<Rightarrow> inv_world w' \<and>
        error_means ErrNotCancellable (\<lambda>c. job_Status c \<in> {StatusQueued, StatusProcessing}) (cancel_calm w)
          (\<lambda>a'. \<exists>j b. eff_cancel i u j (abs_world w) b \<and> a' \<in> {b, log_event i EventCancelled b})
          i u e (abs_world w) (abs_world w')"
  using arun_case [OF pgjobs.Cancel_run [of "abs_world w" u i, folded jobSvc_def] assms] Cancel_error [OF assms, of u i]
  by (simp split: prod.splits sum.splits)

text \<open>C9. \<open>Retry\<close>, in every world: a failed job of the caller is reset (queued, no attempts used, no
  error, no worker, no lease, no times), then a \<open>retrying\<close> event, a message to the stream and
  a \<open>queued\<close> event, in that order. \<open>ErrNotFound\<close> means the job is not visible to the caller, \<open>ErrNotRetryable\<close> that it has not
  failed; both leave everything as it was. Any other error is possible only when one of the five calls is lost or an identifier
  drawn for an event is in use, and leaves a prefix of that sequence. So when the calls are answered, a failed job of the caller
  is always retried, and every other request gets the error of its cause.\<close>

theorem Retry_outcome:
  assumes "inv_world w"
  shows "case Retry jobSvc u i w of
      (Inr j, w') \<Rightarrow> inv_world w' \<and> (\<exists>b. eff_retry i u j (abs_world w) b
        \<and> abs_world w' = log_event i EventQueued (send_msg i (log_event i EventRetrying b)))
    | (Inl e, w') \<Rightarrow> inv_world w' \<and>
        error_means ErrNotRetryable (\<lambda>c. job_Status c = StatusFailed) (retry_calm w)
          (\<lambda>a'. \<exists>j b. eff_retry i u j (abs_world w) b \<and> a' \<in> {b, log_event i EventRetrying b,
                  send_msg i (log_event i EventRetrying b),
                  log_event i EventQueued (send_msg i (log_event i EventRetrying b))})
          i u e (abs_world w) (abs_world w')"
  using arun_case [OF pgjobs.Retry_run [of "abs_world w" u i, folded jobSvc_def] assms] Retry_error [OF assms, of u i]
  by (simp split: prod.splits sum.splits)

text \<open>C10. \<open>Delete\<close>, in every world: the caller's job disappears from view and nothing else changes; \<open>ErrNotFound\<close> means that
  the caller has no such job, and any other error that one of the two calls to the database was lost. And whatever the object
  store does: when those two calls are answered, deleting a job of the caller succeeds with every object store, which is asked to
  remove the job's object only after the job is hidden, and whose answer is ignored.\<close>

theorem Delete_outcome:
  assumes "inv_world w"
  shows "(case Delete jobSvc u i w of
      (Inr _, w') \<Rightarrow> inv_world w' \<and> eff_delete i u (abs_world w) (abs_world w')
    | (Inl e, w') \<Rightarrow> inv_world w' \<and>
        (e = ErrNotFound \<and> abs_world w' = abs_world w \<and> \<not> (\<exists>c. owned i u (abs_world w) c)
         \<or> opaque_err e \<and> \<not> delete_calm w
             \<and> (abs_world w' = abs_world w \<or> eff_delete i u (abs_world w) (abs_world w'))))
    \<and> (\<forall>c. delete_calm w \<and> owned i u (abs_world w) c \<longrightarrow>
        (\<exists>w2. eff_delete i u (abs_world w) (abs_world w2) \<and>
          (\<forall>B. Delete (jobSvc\<lparr>sv_objects := B\<rparr>) u i w = (Inr (), snd (os_DeleteObject B (job_ObjectKey c) w2)))))"
  using arun_case [OF pgjobs.Delete_run [of "abs_world w" u i, folded jobSvc_def] assms] Delete_error [OF assms, of u i] Delete_quiet [OF assms, of i u]
  by (simp add: delete_calm_def split: prod.splits sum.splits)

section \<open>Interference\<close>

text \<open>Between the read of a job and the statement that changes it, other processes may change the database: \<open>other\<close> is what they do.\<close>

definition disturbed :: "(world \<Rightarrow> world) \<Rightarrow> world Service" where
  "disturbed other = jobSvc\<lparr>sv_store := JobStore\<lparr>st_GetJob := (\<lambda>i u w. case JobStore_GetJob i u w of (r, w1) \<Rightarrow> (r, other w1))\<rparr>\<rparr>"

lemma no_row_matches:
  assumes "schema_ok d" and "\<And>r. p r \<Longrightarrow> job_ID r = i" and "\<And>r. row_of d i = Some r \<Longrightarrow> \<not> p r"
  shows "fst (update_jobs_returning p f d) = Inl ErrNoRows"
  using scanJob_by_ID [OF schema_ok_distinct [OF assms(1)], of p i f] assms(2,3)
  by (auto simp: update_jobs_returning_def split: option.splits)

text \<open>A cancellation or a retry that loses the race against another process changes nothing and gets the wrapped \<open>ErrNotFound\<close>, although
  the job was found, and allowed the operation, when it was read.\<close>

lemma Cancel_lost_race:
  assumes "inv_world w" and "answered w" and "owned i u (abs_world w) c" and "job_Status c \<in> {StatusQueued, StatusProcessing}"
    and "w1 = other (after w (w_db w))" and "inv_world w1" and "answered w1"
    and "\<And>c. owned i u (abs_world w1) c \<Longrightarrow> job_Status c \<notin> {StatusQueued, StatusProcessing}"
  shows "fst (Cancel (disturbed other) u i w) = Inl (Errorf ''job: cancel'' ErrNotFound)"
proof -
  have "fst (q_CancelJob i u (time_of w1) (w_db w1)) = Inl ErrNoRows" unfolding q_CancelJob_def
    by (rule no_row_matches [where i = i]) (use assms(6,8) in \<open>fastforce simp: inv_world_def owned_def abs_world_def visible_Some\<close>)+
  then have "fst (JobStore_CancelJob i u w1) = Inl ErrNotFound"
    by (simp add: JobStore_CancelJob_def check_def pg_answered [OF assms(7)] mapNotFound_def split: prod.splits)
  then show ?thesis
    using GetJob_found(1) [OF assms(1-3)] assms(4,5)
    by (auto simp: Cancel_def disturbed_def JobStore_def CanCancel_def check_def split: prod.splits)
qed

lemma Retry_lost_race:
  assumes "inv_world w" and "answered w" and "owned i u (abs_world w) c" and "job_Status c = StatusFailed"
    and "w1 = other (after w (w_db w))" and "inv_world w1" and "answered w1"
    and "\<And>c. owned i u (abs_world w1) c \<Longrightarrow> job_Status c \<noteq> StatusFailed"
  shows "fst (Retry (disturbed other) u i w) = Inl (Errorf ''job: retry'' ErrNotFound)"
proof -
  have "fst (q_RetryJob i u (time_of w1) (w_db w1)) = Inl ErrNoRows" unfolding q_RetryJob_def
    by (rule no_row_matches [where i = i]) (use assms(6,8) in \<open>fastforce simp: inv_world_def owned_def abs_world_def visible_Some\<close>)+
  then have "fst (JobStore_RetryJob i u w1) = Inl ErrNotFound"
    by (simp add: JobStore_RetryJob_def check_def pg_answered [OF assms(7)] mapNotFound_def split: prod.splits)
  then show ?thesis
    using GetJob_found(1) [OF assms(1-3)] assms(4,5)
    by (auto simp: Retry_def disturbed_def JobStore_def CanRetry_def check_def split: prod.splits)
qed

section \<open>Evaluation on concrete worlds\<close>

lemmas service_eval = jobSvc_def NewService_def JobStore_def Producer_def Client_def
  JobStore_CreateJob_def JobStore_GetJob_def JobStore_GetJobByIdempotencyKey_def JobStore_UpdateJobStatus_def
  JobStore_CancelJob_def JobStore_RetryJob_def JobStore_SoftDeleteJob_def JobStore_CreateEvent_def
  Producer_Enqueue_def Client_DeleteObject_def recordEvent_def transition_def check_def pg_eq after_def
  time_of_def uuid_New_def xadd_def remove_object_def remote_def scanJob_def update_jobs_returning_def Let_def

lemmas statement_eval = q_CreateJob_def q_GetJobByID_def q_GetJobByIdempotencyKey_def q_UpdateJobStatus_def
  q_CancelJob_def q_RetryJob_def q_SoftDeleteJob_def q_CreateJobEvent_def same_idem_key_def new_job_row_def
  row_update_defs fromDBJob_def

theorem Create_outcome_witness:
  "inv_world (sample_world StatusQueued)
   \<and> (case Create uuid_New jobSvc (sample_params (Some ''k'')) (sample_world StatusQueued) of
      (Inr j, w') \<Rightarrow> inv_world w' \<and> j = fromDBJob (sample_job StatusQueued) | _ \<Rightarrow> False)"
  using Create_outcome [OF sample_inv, of StatusQueued "sample_params (Some ''k'')"]
    sample_inv [of StatusQueued]
  by (simp add: Create_def service_eval statement_eval sample_defs)

theorem Cancel_outcome_witness:
  "case Cancel jobSvc 1 7 (sample_world StatusQueued) of
      (Inr j, w') \<Rightarrow> inv_world w' \<and> job_Status j = StatusCancelled | _ \<Rightarrow> False"
  using Cancel_outcome [OF sample_inv, of StatusQueued 7 1]
  by (simp add: Cancel_def service_eval statement_eval sample_defs CanCancel_def)

theorem Retry_outcome_witness:
  "case Retry jobSvc 1 7 (sample_world StatusFailed) of
      (Inr j, w') \<Rightarrow> inv_world w' \<and> job_Status j = StatusQueued | _ \<Rightarrow> False"
  using Retry_outcome [OF sample_inv, of StatusFailed 7 1]
  by (simp add: Retry_def service_eval statement_eval sample_defs CanRetry_def)

theorem Delete_outcome_witness:
  "case Delete jobSvc 1 7 (sample_world StatusFailed) of
      (Inr _, w') \<Rightarrow> eff_delete 7 1 (abs_world (sample_world StatusFailed)) (abs_world w') | _ \<Rightarrow> False"
  using Delete_outcome [OF sample_inv, of StatusFailed 7 1]
  by (simp add: Delete_def service_eval statement_eval sample_defs)

section \<open>When no call fails\<close>

text \<open>The next \<open>k\<close> identifiers are different and not in use.\<close>

definition fresh_ids :: "nat \<Rightarrow> world \<Rightarrow> bool" where
  "fresh_ids k w \<longleftrightarrow> (let ids = map (uuid_at (w_env w)) [w_uuids w ..< w_uuids w + k] in
     distinct ids \<and> set ids \<inter> job_ID ` set (tbl_jobs (w_db w)) = {}
     \<and> set ids \<inter> ev_ID ` set (tbl_job_events (w_db w)) = {})"

definition user_exists :: "uuid \<Rightarrow> world \<Rightarrow> bool" where
  "user_exists u w \<longleftrightarrow> (\<exists>r \<in> set (tbl_users (w_db w)). u_ID r = u)"

text \<open>No row, deleted or not, carries the request's idempotency key.\<close>

definition key_unused :: "CreateParams \<Rightarrow> world \<Rightarrow> bool" where
  "key_unused p w \<longleftrightarrow>
     (\<forall>r \<in> set (tbl_jobs (w_db w)). \<not> same_idem_key (cp_UserID p) (cp_IdempotencyKey p) r)"

lemma fresh_ids_3:
  "fresh_ids 3 w \<longleftrightarrow> (let n = w_uuids w; f = uuid_at (w_env w) in
     distinct [f n, f (Suc n), f (Suc (Suc n))]
     \<and> {f n, f (Suc n), f (Suc (Suc n))} \<inter> job_ID ` set (tbl_jobs (w_db w)) = {}
     \<and> {f n, f (Suc n), f (Suc (Suc n))} \<inter> ev_ID ` set (tbl_job_events (w_db w)) = {})"
  by (simp add: fresh_ids_def Let_def upt_conv_Cons numeral_3_eq_3)

lemma fault_free_at: "fault_free w \<Longrightarrow> w_calls w \<le> n \<Longrightarrow> fault_at (w_env w) n = NoFault"
  by (simp add: fault_free_def)

lemma create_new_fault_free:
  assumes ok: "fault_free w" and user: "user_exists (cp_UserID p) w" and key: "key_unused p w"
    and ids: "fresh_ids 3 w"
  shows "fst (create_new uuid_New jobSvc p w) = Inr (queued_job (time_of w) (uuid_at (w_env w) (w_uuids w)) p)"
proof -
  let ?i = "uuid_at (w_env w) (w_uuids w)"
  have f: "fault_at (w_env w) (w_calls w) = NoFault" "fault_at (w_env w) (Suc (w_calls w)) = NoFault"
    "fault_at (w_env w) (Suc (Suc (w_calls w))) = NoFault"
    "fault_at (w_env w) (Suc (Suc (Suc (w_calls w)))) = NoFault"
    "fault_at (w_env w) (Suc (Suc (Suc (Suc (w_calls w))))) = NoFault"
    using ok by (simp_all add: fault_free_at)
  have new: "\<forall>r \<in> set (tbl_jobs (w_db w)). job_ID r \<noteq> ?i"
    and ev: "\<forall>e \<in> set (tbl_job_events (w_db w)). ev_ID e \<noteq> uuid_at (w_env w) (Suc (w_uuids w))
      \<and> ev_ID e \<noteq> uuid_at (w_env w) (Suc (Suc (w_uuids w)))"
    and ne: "uuid_at (w_env w) (Suc (w_uuids w)) \<noteq> uuid_at (w_env w) (Suc (Suc (w_uuids w)))"
    using ids by (auto simp: fresh_ids_3 Let_def image_iff)
  have none: "filter (\<lambda>r. job_ID r = ?i \<and> job_DeletedAt r = None) (tbl_jobs (w_db w)) = []"
    using new by (simp add: filter_empty_conv)
  show ?thesis
    using f user key new ev ne none
    by (simp add: create_new_def service_eval q_CreateJob_def q_UpdateJobStatus_def q_CreateJobEvent_def
        user_exists_def key_unused_def new_job_def new_job_row_def update_where_def fromDBJob_def
        set_status_def queued_job_def pending_job_def created_job_def)
qed

lemma Create_key_lookup:
  assumes "answered w" and "cp_IdempotencyKey p = Some k"
    and "\<forall>r \<in> set (tbl_jobs (w_db w)). \<not> (same_idem_key (cp_UserID p) (Some k) r \<and> job_DeletedAt r = None)"
  shows "Create uuid_New jobSvc p w = create_new uuid_New jobSvc p (after w (w_db w))"
proof -
  have "filter (\<lambda>r. job_UserID r = cp_UserID p \<and> job_IdempotencyKey r = Some k \<and> job_DeletedAt r = None)
      (tbl_jobs (w_db w)) = []"
    using assms(3) by (auto simp: filter_empty_conv same_idem_key_def)
  then show ?thesis
    using assms(1,2)
    by (simp add: Create_def jobSvc_def NewService_def JobStore_def JobStore_GetJobByIdempotencyKey_def
        check_def pg_answered q_GetJobByIdempotencyKey_def scanJob_def)
qed

text \<open>C6. When no call fails, the user exists, the identifiers are fresh and no row carries the
  idempotency key, \<open>Create\<close> returns the new queued job, with both events logged and exactly one
  message for it appended to the stream.\<close>

theorem Create_succeeds:
  assumes "inv_world w" and ff: "fault_free w" and user: "user_exists (cp_UserID p) w"
    and key: "key_unused p w" and ids: "fresh_ids 3 w"
  shows "\<exists>now w'. Create uuid_New jobSvc p w = (Inr (queued_job now (uuid_at (w_env w) (w_uuids w)) p), w')
    \<and> abs_world w' = last (create_trace now (uuid_at (w_env w) (w_uuids w)) p (abs_world w))"
proof -
  let ?i = "uuid_at (w_env w) (w_uuids w)"
  obtain now where r: "fst (Create uuid_New jobSvc p w) = Inr (queued_job now ?i p)"
  proof (cases "cp_IdempotencyKey p")
    case None
    with create_new_fault_free [OF ff user key ids] that show ?thesis by (simp add: Create_def)
  next
    case (Some k)
    let ?w = "after w (w_db w)"
    have "user_exists (cp_UserID p) ?w" "key_unused p ?w" "fresh_ids 3 ?w"
      using user key ids by (simp_all add: user_exists_def key_unused_def fresh_ids_def)
    with create_new_fault_free [of ?w p] ff Create_key_lookup [OF _ Some, of w] key Some that
    show ?thesis by (simp add: key_unused_def)
  qed
  then obtain w' where c: "Create uuid_New jobSvc p w = (Inr (queued_job now ?i p), w')"
    by (metis prod.collapse)
  have "\<not> has_key (cp_UserID p) k (abs_world w) j" if "cp_IdempotencyKey p = Some k" for k j
    using key that assms(1)
    by (auto simp: key_unused_def abs_world_def inv_world_def idem_visible same_idem_key_def)
  then have "\<exists>i t. queued_job now ?i p = queued_job t i p
      \<and> abs_world w' = last (create_trace t i p (abs_world w))"
    using arun_case [OF pgjobs.Create_run [of "abs_world w" p] assms(1)] c
    by (auto simp: jobSvc_def)
  moreover have "?i = i \<and> now = t" if "queued_job now ?i p = queued_job t i p" for i t
    using that by (simp add: queued_job_def pending_job_def created_job_def new_job_def)
  ultimately show ?thesis using c by blast
qed

lemma sample_facts:
  "user_exists 1 (sample_world s)" "fresh_ids 3 (sample_world s)"
  "key_unused (sample_params (Some ''fresh'')) (sample_world s)"
  "a_msgs (abs_world (sample_world s)) = []" "uuid_at (w_env (sample_world s)) (w_uuids (sample_world s)) = 100"
  "cp_UserID (sample_params k) = 1" "cp_IdempotencyKey (sample_params k) = k"
  by (simp_all add: user_exists_def key_unused_def fresh_ids_3 sample_defs same_idem_key_def Let_def
      abs_world_def job_msgs_def)

theorem Create_succeeds_witness:
  "\<exists>now w'. Create uuid_New jobSvc (sample_params (Some ''fresh'')) (sample_world StatusQueued)
      = (Inr (queued_job now 100 (sample_params (Some ''fresh''))), w')
    \<and> a_msgs (abs_world w') = [100]"
  using Create_succeeds [OF sample_inv sample_fault_free, of StatusQueued "sample_params (Some ''fresh'')"]
  by (auto simp: sample_facts create_trace_def Let_def)

text \<open>C7. A request that repeats an idempotency key gets the job the key already names, and changes
  nothing: no row, no event, no message, no object.\<close>

theorem Create_replay:
  assumes "inv_world w" and "answered w" and "cp_IdempotencyKey p = Some k"
    and "has_key (cp_UserID p) k (abs_world w) j"
  shows "Create uuid_New jobSvc p w = (Inr j, after w (w_db w))"
proof -
  let ?p = "\<lambda>r. job_UserID r = cp_UserID p \<and> job_IdempotencyKey r = Some k \<and> job_DeletedAt r = None"
  have ok: "schema_ok (w_db w)" using assms(1) by (simp add: inv_world_def)
  obtain r where r: "r \<in> set (tbl_jobs (w_db w))" "?p r" "j = fromDBJob r"
    using assms(4) by (auto simp: abs_world_def idem_visible [OF ok])
  have "filter ?p (tbl_jobs (w_db w)) \<noteq> []"
    using r by (auto simp: filter_empty_conv)
  then obtain x xs where f: "filter ?p (tbl_jobs (w_db w)) = x # xs" by (meson neq_Nil_conv)
  then have "x \<in> set (tbl_jobs (w_db w))" "?p x" by (auto dest: filter_eq_ConsD)
  then have "x = r"
    using r ok distinct_idem_keysD [of "tbl_jobs (w_db w)" x r k] by (simp add: schema_defs)
  with f r assms(2,3) show ?thesis
    by (simp add: Create_def jobSvc_def NewService_def JobStore_def JobStore_GetJobByIdempotencyKey_def
        check_def pg_answered q_GetJobByIdempotencyKey_def scanJob_def)
qed

theorem Create_replay_witness:
  "Create uuid_New jobSvc (sample_params (Some ''k'')) (sample_world StatusQueued)
    = (Inr (fromDBJob (sample_job StatusQueued)), after (sample_world StatusQueued) (sample_db StatusQueued))"
  using Create_replay [OF sample_inv, of StatusQueued "sample_params (Some ''k'')" "''k''"
      "fromDBJob (sample_job StatusQueued)"] fault_free_answered [OF sample_fault_free, of StatusQueued]
  by (simp add: sample_facts) (simp add: sample_defs has_key_def abs_world_def visible_Some row_of_def)

text \<open>C18. After a job is deleted its idempotency key stays taken: the lookup does not see the deleted
  row, the unique index does, so every later request with that key fails with the driver's
  unique violation and creates nothing.\<close>

theorem Create_deleted_key_fails:
  assumes "inv_world w" and "fault_free w" and "cp_IdempotencyKey p = Some k"
    and "r \<in> set (tbl_jobs (w_db w))" and "job_UserID r = cp_UserID p" and "job_IdempotencyKey r = Some k"
    and "job_DeletedAt r \<noteq> None"
  shows "\<exists>w'. Create uuid_New jobSvc p w
      = (Inl (Errorf ''job: create'' (Errorf ''jobstore: create'' (PgError ''23505''))), w')
    \<and> w_db w' = w_db w \<and> w_redis w' = w_redis w"
proof -
  have dist: "distinct (idem_keys (tbl_jobs (w_db w)))"
    using assms(1) by (simp add: inv_world_def schema_defs)
  have none: "\<forall>r' \<in> set (tbl_jobs (w_db w)).
      \<not> (same_idem_key (cp_UserID p) (Some k) r' \<and> job_DeletedAt r' = None)"
    using distinct_idem_keysD [OF dist _ assms(4)] assms(5-7) by (auto simp: same_idem_key_def)
  have "\<exists>r \<in> set (tbl_jobs (w_db w)). same_idem_key (cp_UserID p) (cp_IdempotencyKey p) r"
    using assms(3-6) by (auto simp: same_idem_key_def)
  with assms(2,3) Create_key_lookup [OF _ assms(3) none] fault_free_at [OF assms(2), of "Suc (w_calls w)"]
  show ?thesis
    by (simp add: create_new_def service_eval q_CreateJob_def new_job_def)
qed

text \<open>The sample world after its job was deleted.\<close>

definition sample_deleted :: world where
  "sample_deleted = (let w = sample_world StatusFailed in w\<lparr>w_db := snd (q_SoftDeleteJob 7 1 20 (w_db w))\<rparr>)"

lemma sample_deleted_inv: "inv_world sample_deleted"
  using schema_ok_SoftDeleteJob [OF sample_schema, of StatusFailed 7 1 20]
  by (simp add: inv_world_def sample_deleted_def sample_world_def Let_def)

theorem Create_deleted_key_fails_witness:
  "\<exists>w'. Create uuid_New jobSvc (sample_params (Some ''k'')) sample_deleted
      = (Inl (Errorf ''job: create'' (Errorf ''jobstore: create'' (PgError ''23505''))), w')"
proof -
  let ?r = "(sample_job StatusFailed)\<lparr>job_DeletedAt := Some 20\<rparr>"
  have "?r \<in> set (tbl_jobs (w_db sample_deleted))" and "fault_free sample_deleted"
    by (simp_all add: sample_deleted_def q_SoftDeleteJob_def Let_def sample_defs fault_free_def)
  then show ?thesis
    using Create_deleted_key_fails [OF sample_deleted_inv, of "sample_params (Some ''k'')" "''k''" ?r]
    by (auto simp: sample_facts sample_job_def)
qed

section \<open>Isolation and history\<close>

lemma only_user_trace:
  assumes "creatable i p a" and "b \<in> set (create_trace now i p a)"
  shows "only_user (cp_UserID p) a b"
  using assms by (auto simp: create_trace_def Let_def creatable_def only_user_def split: if_splits)

text \<open>C11. Whatever fails, a request of one user leaves every other user's jobs exactly as they were,
  and makes none appear.\<close>

theorem service_isolation:
  assumes "inv_world w"
  shows "only_user (cp_UserID p) (abs_world w) (abs_world (snd (Create uuid_New jobSvc p w)))
    \<and> only_user u (abs_world w) (abs_world (snd (Cancel jobSvc u i w)))
    \<and> only_user u (abs_world w) (abs_world (snd (Retry jobSvc u i w)))
    \<and> only_user u (abs_world w) (abs_world (snd (Delete jobSvc u i w)))"
proof (intro conjI)
  note run = arun_case [where I = inv_world and \<alpha> = abs_world and w = w, OF _ assms]
  have "only_user (cp_UserID p) a (last (create_trace now i p a))" if "creatable i p a" for now i a
    by (rule only_user_trace [OF that, of _ now]) (simp add: create_trace_def Let_def)
  with run [OF pgjobs.Create_run [of "abs_world w" p]]
  show "only_user (cp_UserID p) (abs_world w) (abs_world (snd (Create uuid_New jobSvc p w)))"
    by (auto simp: jobSvc_def split: prod.splits sum.splits intro: only_user_trace)
  show "only_user u (abs_world w) (abs_world (snd (Cancel jobSvc u i w)))"
    using run [OF pgjobs.Cancel_run [of "abs_world w" u i]] only_user_effects(1)
    by (auto simp: jobSvc_def split: prod.splits sum.splits)
  show "only_user u (abs_world w) (abs_world (snd (Retry jobSvc u i w)))"
    using run [OF pgjobs.Retry_run [of "abs_world w" u i]] only_user_effects(2)
    by (auto simp: jobSvc_def split: prod.splits sum.splits)
  show "only_user u (abs_world w) (abs_world (snd (Delete jobSvc u i w)))"
    using run [OF pgjobs.Delete_run [of "abs_world w" u i]] only_user_effects(3)
    by (auto simp: jobSvc_def split: prod.splits sum.splits)
qed

theorem service_isolation_witness:
  "only_user 2 (abs_world (sample_world StatusFailed)) (abs_world (snd (Delete jobSvc 2 7 (sample_world StatusFailed))))
   \<and> fst (Delete jobSvc 2 7 (sample_world StatusFailed)) = Inl ErrNotFound"
  using service_isolation [OF sample_inv, of StatusFailed "sample_params None" 2 7]
  by (simp add: Delete_def service_eval statement_eval sample_defs mapNotFound_def)

text \<open>Every method moves the database by statements of the API only.\<close>

abbreviation by_stmts :: "world \<Rightarrow> world \<Rightarrow> bool" where
  "by_stmts w w' \<equiv> api_stmt\<^sup>*\<^sup>* (w_db w) (w_db w')"

lemma by_stmts_rel [simp]: "reflp by_stmts" "transp by_stmts"
  by (auto simp: reflp_def transp_def)

lemma pg_by_stmts:
  assumes "\<And>now d. api_stmt\<^sup>*\<^sup>* d (snd (stmt now d))"
  shows "keeps by_stmts (pg stmt)"
  using pg_keeps_db [of "api_stmt\<^sup>*\<^sup>*" stmt] assms by simp

lemma keeps_uuid_New:
  assumes "\<And>i. keeps by_stmts (k i)"
  shows "keeps by_stmts (\<lambda>w. let (i, w1) = uuid_New w in k i w1)"
proof (rule keepsI)
  fix w :: world
  let ?w = "w\<lparr>w_uuids := Suc (w_uuids w)\<rparr>" and ?i = "uuid_at (w_env w) (w_uuids w)"
  have "by_stmts ?w (snd (k ?i ?w))" using assms unfolding keeps_def by blast
  then show "by_stmts w (snd (let (i, w1) = uuid_New w in k i w1))" by (simp add: uuid_New_def)
qed

lemma calls_by_stmts [keeps_intros]:
  "keeps by_stmts (pg (q_GetJobByID i u))" "keeps by_stmts (pg (q_GetJobByIdempotencyKey u k))"
  "keeps by_stmts (xadd s e)" "keeps by_stmts (remove_object key)"
  by (intro pg_by_stmts; simp add: q_GetJobByID_def q_GetJobByIdempotencyKey_def)+ (simp_all add: keeps_def)

lemma store_by_stmts [keeps_intros]:
  "keeps by_stmts (JobStore_CreateJob j)" "keeps by_stmts (JobStore_GetJob i u)"
  "keeps by_stmts (JobStore_GetJobByIdempotencyKey u k)" "keeps by_stmts (JobStore_UpdateJobStatus i s)"
  "keeps by_stmts (JobStore_CancelJob i u)" "keeps by_stmts (JobStore_RetryJob i u)"
  "keeps by_stmts (JobStore_SoftDeleteJob i u)" "keeps by_stmts (JobStore_CreateEvent i ty b)"
  "keeps by_stmts (Producer_Enqueue i)" "keeps by_stmts (Client_DeleteObject key)"
  unfolding JobStore_CreateJob_def JobStore_GetJob_def JobStore_GetJobByIdempotencyKey_def
    JobStore_UpdateJobStatus_def JobStore_CancelJob_def JobStore_RetryJob_def JobStore_SoftDeleteJob_def
    JobStore_CreateEvent_def Producer_Enqueue_def Client_DeleteObject_def
  by ((rule keeps_uuid_New)?, intro keeps_intros by_stmts_rel,
      (rule pg_by_stmts, rule r_into_rtranclp, rule api_stmt.intros)?)+

lemma impl_sel [simp]:
  "st_CreateJob JobStore = JobStore_CreateJob" "st_GetJob JobStore = JobStore_GetJob"
  "st_GetJobByIdempotencyKey JobStore = JobStore_GetJobByIdempotencyKey"
  "st_UpdateJobStatus JobStore = JobStore_UpdateJobStatus" "st_CancelJob JobStore = JobStore_CancelJob"
  "st_RetryJob JobStore = JobStore_RetryJob" "st_SoftDeleteJob JobStore = JobStore_SoftDeleteJob"
  "st_CreateEvent JobStore = JobStore_CreateEvent" "qu_Enqueue Producer = Producer_Enqueue"
  "os_DeleteObject Client = Client_DeleteObject"
  by (simp_all add: JobStore_def Producer_def Client_def)

lemma recordEvent_by_stmts [keeps_intros]: "keeps by_stmts (recordEvent jobSvc i ty None)"
  unfolding recordEvent_None jobSvc_sel impl_sel by (intro keeps_intros by_stmts_rel)

lemma create_new_by_stmts: "keeps by_stmts (create_new uuid_New jobSvc p)"
  unfolding create_new_def transition_def jobSvc_sel impl_sel
  by (rule keeps_uuid_New) (intro keeps_intros by_stmts_rel)

lemma Create_by_stmts: "keeps by_stmts (Create uuid_New jobSvc p)"
proof (cases "cp_IdempotencyKey p")
  case (Some k)
  show ?thesis
  proof (rule keepsI)
    fix w
    obtain r w1 where g: "JobStore_GetJobByIdempotencyKey (cp_UserID p) k w = (r, w1)"
      by (cases "JobStore_GetJobByIdempotencyKey (cp_UserID p) k w")
    have "by_stmts w w1" using store_by_stmts(3) g by (rule keepsD)
    moreover have "by_stmts w1 (snd (create_new uuid_New jobSvc p w1))"
      using create_new_by_stmts unfolding keeps_def by blast
    ultimately show "by_stmts w (snd (Create uuid_New jobSvc p w))"
      using g Some by (auto simp: Create_def split: sum.splits)
  qed
qed (simp add: Create_def create_new_by_stmts)

text \<open>C12. Whatever fails, each method of the service changes the database by a sequence of the API's
  statements, so the schema's constraints survive, no row disappears or changes owner, no
  deletion is undone and the event log only grows.\<close>

theorem service_history:
  assumes "w' \<in> {snd (Create uuid_New jobSvc p w), snd (Cancel jobSvc u i w),
    snd (Retry jobSvc u i w), snd (Delete jobSvc u i w)}"
  shows "api_stmt\<^sup>*\<^sup>* (w_db w) (w_db w') \<and> evolves (w_db w) (w_db w')"
proof -
  have "keeps by_stmts (Cancel jobSvc u i)" "keeps by_stmts (Retry jobSvc u i)" "keeps by_stmts (Delete jobSvc u i)"
    unfolding Cancel_def Retry_def Delete_def jobSvc_sel impl_sel by (intro keeps_intros by_stmts_rel)+
  with assms Create_by_stmts [of p] have "by_stmts w w'" by (auto simp: keeps_def)
  then show ?thesis using api_stmts_evolves by blast
qed

theorem service_history_witness:
  "evolves (sample_db StatusFailed) (w_db (snd (Retry jobSvc 1 7 (sample_world StatusFailed))))"
  using service_history [of "snd (Retry jobSvc 1 7 (sample_world StatusFailed))" "sample_params None"
      "sample_world StatusFailed" 1 7]
  by (simp add: sample_world_def)

end
