(* ===== verification/Lease_Store.thy ===== *)
theory Lease_Store
  imports Reaper Job_Correct
begin

text \<open>
  \<open>store.LeaseStore\<close> (\<open>src/api/internal/store/leasestore.go\<close>) over the statements of \<open>Database\<close>,
  the proof that with \<open>queue.Producer\<close> it meets the reaper's contract \<open>lease_backend\<close>, and what
  the reaper does to the database and the stream; the gauge of
  \<open>src/api/internal/queue/metrics.go\<close>.
\<close>

section \<open>The lease store\<close>

text \<open>\<open>%q\<close> of an ASCII string: \<open>strconv.Quote\<close>.\<close>

definition hex_digit :: "nat \<Rightarrow> char" where
  "hex_digit n = (''0123456789abcdef'' ! (n mod 16))"

definition quote_char :: "char \<Rightarrow> string" where
  "quote_char c =
    (if c = CHR 0x22 then [CHR 0x5C, CHR 0x22] else if c = CHR 0x5C then [CHR 0x5C, CHR 0x5C]
     else if c = CHR 0x07 then [CHR 0x5C, CHR ''a''] else if c = CHR 0x08 then [CHR 0x5C, CHR ''b'']
     else if c = CHR 0x0C then [CHR 0x5C, CHR ''f''] else if c = CHR 0x0A then [CHR 0x5C, CHR ''n'']
     else if c = CHR 0x0D then [CHR 0x5C, CHR ''r''] else if c = CHR 0x09 then [CHR 0x5C, CHR ''t'']
     else if c = CHR 0x0B then [CHR 0x5C, CHR ''v'']
     else if of_char c < (32::nat) \<or> of_char c = (127::nat)
       then [CHR 0x5C, CHR ''x'', hex_digit (of_char c div 16), hex_digit (of_char c)]
     else [c])"

definition strconv_Quote :: "string \<Rightarrow> string" where
  "strconv_Quote s = CHR 0x22 # concat (map quote_char s) @ [CHR 0x22]"

definition LeaseStore_ListExpiredLeases :: "(world, ExpiredJob list) go" where
  "LeaseStore_ListExpiredLeases =
    check (pg q_ListExpiredLeases) (Errorf ''leasestore: list expired leases'') (\<lambda>rows.
    ret (map (\<lambda>r. \<lparr>xj_ID = job_ID r, xj_Attempts = job_Attempts r, xj_MaxAttempts = job_MaxAttempts r\<rparr>) rows))"

definition LeaseStore_event :: "uuid \<Rightarrow> string \<Rightarrow> bytes \<Rightarrow> string \<Rightarrow> (world, 'a) go \<Rightarrow> (world, 'a) go" where
  "LeaseStore_event jid ty payload msg k = (\<lambda>w. let (e, w1) = uuid_New w in
     check (pg (q_CreateJobEvent e jid ty payload)) (Errorf msg) (\<lambda>_. k) w1)"

definition LeaseStore_RequeueExpiredJob :: "uuid \<Rightarrow> (world, unit) go" where
  "LeaseStore_RequeueExpiredJob jid =
    check (pg (q_RequeueExpiredJob jid)) (Errorf ''leasestore: requeue'') (\<lambda>_.
    LeaseStore_event jid EventRetrying ''{\"reason\":\"lease_expired\"}'' ''leasestore: record retrying event''
    (LeaseStore_event jid EventQueued ''{}'' ''leasestore: record queued event''
    (ret ())))"

definition LeaseStore_FailExpiredJob :: "uuid \<Rightarrow> string \<Rightarrow> string \<Rightarrow> (world, unit) go" where
  "LeaseStore_FailExpiredJob jid errorCode errorMessage =
    check (pg (q_FailExpiredJob jid errorCode errorMessage)) (Errorf ''leasestore: fail'') (\<lambda>_.
    LeaseStore_event jid EventFailed
      (''{\"error_code\":'' @ strconv_Quote errorCode @ '',\"error_message\":'' @ strconv_Quote errorMessage @ ''}'')
      ''leasestore: record failed event''
    (ret ()))"

definition leases :: "world LeaseStore" where
  "leases = \<lparr>ls_ListExpiredLeases = LeaseStore_ListExpiredLeases,
     ls_RequeueExpiredJob = LeaseStore_RequeueExpiredJob, ls_FailExpiredJob = LeaseStore_FailExpiredJob\<rparr>"

definition producer :: "world Enqueuer" where
  "producer = \<lparr>en_Enqueue = Producer_Enqueue\<rparr>"

text \<open>\<open>reaper := queue.NewReaper(store.NewLeaseStore(pool), producer, logger)\<close> of \<open>cmd/api/main.go\<close>.\<close>

definition reaper :: "world Reaper" where
  "reaper = NewReaper leases producer"

section \<open>The contract holds\<close>

definition rows_db :: "database \<Rightarrow> uuid list \<Rightarrow> lease_abs" where
  "rows_db d ms = \<lparr>la_rows = row_of d, la_log = event_log d, la_msgs = ms\<rparr>"

definition abs_rows :: "world \<Rightarrow> lease_abs" where
  "abs_rows w = rows_db (w_db w) (job_msgs (w_redis w StreamName))"

lemma abs_rows_sel [simp]:
  "la_rows (abs_rows w) = row_of (w_db w)" "la_log (abs_rows w) = event_log (w_db w)"
  "la_msgs (abs_rows w) = job_msgs (w_redis w StreamName)"
  by (simp_all add: abs_rows_def rows_db_def)

lemma pg_implements_rows:
  assumes ok: "\<And>now d. schema_ok d \<Longrightarrow> schema_ok (snd (stmt now d))"
    and eff: "\<And>now d x d' ms. schema_ok d \<Longrightarrow> stmt now d = (Inr x, d') \<Longrightarrow> F x (rows_db d ms) (rows_db d' ms)"
    and err: "\<And>now d e d'. schema_ok d \<Longrightarrow> stmt now d = (Inl e, d') \<Longrightarrow> d' = d \<and> opaque_err e"
  shows "implements inv_world abs_rows (pg stmt) F N"
proof (rule implementsI)
  fix w r w' assume "inv_world w" and p: "pg stmt w = (r, w')"
  then have S: "schema_ok (w_db w)" by (simp add: inv_world_def)
  obtain x d' where s: "stmt (time_of w) (w_db w) = (x, d')" by (cases "stmt (time_of w) (w_db w)")
  have ok': "schema_ok d'" using ok [OF S, of "time_of w"] s by simp
  have res: "case x of Inr y \<Rightarrow> F y (abs_rows w) (abs_rows (after w d')) | Inl e \<Rightarrow> d' = w_db w \<and> opaque_err e"
    using s eff [OF S, of "time_of w"] err [OF S, of "time_of w"]
    by (cases x) (auto simp: abs_rows_def)
  show "inv_world w' \<and> (case r of Inr x \<Rightarrow> F x (abs_rows w) (abs_rows w')
      | Inl e \<Rightarrow> err_effect F N e (abs_rows w) (abs_rows w'))"
    using p s S ok' res
    by (cases rule: pg_cases [of stmt w]; cases x)
      (auto simp: inv_world_def err_effect_def abs_rows_def)
qed

lemma rows_update:
  assumes "schema_ok d" and "\<And>r. job_static (f r) = job_static r"
  shows "update_jobs_returning (\<lambda>r. job_ID r = i \<and> job_Status r = StatusProcessing) f d = (Inr x, d') \<Longrightarrow>
      \<exists>r. processing i (rows_db d ms) r \<and> rows_db d' ms = put_row i (f r) (rows_db d ms)"
    and "update_jobs_returning (\<lambda>r. job_ID r = i \<and> job_Status r = StatusProcessing) f d = (Inl e, d') \<Longrightarrow>
      d' = d \<and> e = ErrNoRows"
proof -
  let ?p = "\<lambda>r. job_ID r = i \<and> job_Status r = StatusProcessing"
  have fid: "\<And>r. job_ID (f r) = job_ID r" using job_static_eqD(1) [OF assms(2)] .
  note scan = scanJob_by_ID [OF schema_ok_distinct [OF assms(1)], of ?p i f]
  show "\<exists>r. processing i (rows_db d ms) r \<and> rows_db d' ms = put_row i (f r) (rows_db d ms)"
    if u: "update_jobs_returning ?p f d = (Inr x, d')"
  proof -
    have d': "d' = d\<lparr>tbl_jobs := update_where ?p f (tbl_jobs d)\<rparr>"
      using u by (simp add: update_jobs_returning_def)
    obtain r where r: "row_of d i = Some r" "job_Status r = StatusProcessing"
      using u by (auto simp: update_jobs_returning_def scan split: option.splits if_splits)
    have "row_of d' k = ((row_of d)(i \<mapsto> f r)) k" for k
      using r row_of_ID [of d i] row_of_ID [of d k] unfolding d'
      by (subst row_of_update [OF fid]) (auto simp: map_option_case split: option.splits)
    then have "rows_db d' ms = put_row i (f r) (rows_db d ms)"
      by (auto simp: rows_db_def put_row_def event_log_def d')
    with r show ?thesis by (auto simp: processing_def rows_db_def)
  qed
  show "d' = d \<and> e = ErrNoRows" if u: "update_jobs_returning ?p f d = (Inl e, d')"
  proof -
    have none: "\<And>r. row_of d i = Some r \<Longrightarrow> \<not> ?p r" and e: "e = ErrNoRows"
      and d': "d' = d\<lparr>tbl_jobs := update_where ?p f (tbl_jobs d)\<rparr>"
      using u by (auto simp: update_jobs_returning_def scan split: option.splits if_splits)
    have "d' = d" unfolding d' by (rule update_none [OF schema_ok_distinct [OF assms(1)], of _ i]) (use none in blast)+
    with e show ?thesis by simp
  qed
qed

lemma requeue_stmt: "implements inv_world abs_rows (pg (q_RequeueExpiredJob i))
    (\<lambda>_ a a'. \<exists>r. processing i a r \<and> a' = put_row i (set_requeued r) a) (\<lambda>_. False)"
  by (rule pg_implements_rows)
    (auto simp: q_RequeueExpiredJob_def Let_def schema_ok_RequeueExpiredJob [unfolded q_RequeueExpiredJob_def Let_def]
      split: if_splits dest!: rows_update [rotated -1])

lemma fail_stmt: "implements inv_world abs_rows (pg (q_FailExpiredJob i c m))
    (\<lambda>_ a a'. \<exists>r t. processing i a r \<and> a' = put_row i (set_expired_failed c m t r) a) (\<lambda>_. False)"
  by (rule pg_implements_rows)
    (auto simp: q_FailExpiredJob_def Let_def schema_ok_FailExpiredJob [unfolded q_FailExpiredJob_def Let_def]
      split: if_splits dest!: rows_update [rotated -1])

lemma event_stmt: "implements inv_world abs_rows (pg (q_CreateJobEvent e i ty b))
    (\<lambda>_ a a'. a' = la_event i ty a) (\<lambda>_. False)"
  by (rule pg_implements_rows [OF schema_ok_CreateJobEvent])
    (auto simp: q_CreateJobEvent_def Let_def la_event_def rows_db_def event_log_def split: if_splits)

lemma uuid_New_rows: "inv_world w \<Longrightarrow> uuid_New w = (i, w') \<Longrightarrow> inv_world w' \<and> abs_rows w' = abs_rows w"
  by (auto simp: uuid_New_def inv_world_def abs_rows_def)

lemma producer_rows: "implements inv_world abs_rows (Producer_Enqueue i) (\<lambda>_ a a'. a' = la_send i a) (\<lambda>_. False)"
  by (rule implementsI)
    (auto simp: Producer_Enqueue_def xadd_def remote_def check_def Let_def inv_world_def abs_rows_def
      rows_db_def la_send_def err_effect_def split: fault.splits)

interpretation pgleases: lease_backend leases producer inv_world abs_rows time_of
proof unfold_locales
  fix w r w' assume I: "inv_world w" and l: "ls_ListExpiredLeases leases w = (r, w')"
  let ?d = "w_db w"
  have dist: "distinct (map job_ID (tbl_jobs ?d))" using I by (simp add: inv_world_def schema_ok_distinct)
  then have d2: "distinct (map job_ID (filter p (tbl_jobs ?d)))" for p
    by (simp add: distinct_map_filter)
  have row: "row_of ?d (job_ID x) = Some x" if "x \<in> set (tbl_jobs ?d)" for x
    using row_of_Some_unique [OF dist that] .
  have mem: "x \<in> set (tbl_jobs ?d) \<and> job_ID x = i" if "row_of ?d i = Some x" for i x
    using row_of_mem [OF that] row_of_ID [OF that] by blast
  show "inv_world w' \<and> abs_rows w' = abs_rows w
      \<and> (case r of Inr xs \<Rightarrow> lists_expired (time_of w) (abs_rows w) xs | Inl e \<Rightarrow> True)"
    using l I d2 row
    by (cases rule: pg_cases [of q_ListExpiredLeases w])
      (auto simp: leases_def LeaseStore_ListExpiredLeases_def q_ListExpiredLeases_def inv_world_def abs_rows_def
        lists_expired_def rows_db_def image_iff comp_def, use mem in metis)
next
  fix a0 i
  show "arun inv_world abs_rows (\<lambda>a. a = a0) (ls_RequeueExpiredJob leases i)
      (\<lambda>_ a'. \<exists>r. processing i a0 r \<and> a' = last (requeue_trace i r a0))
      (\<lambda>e a'. a' = a0 \<or> (\<exists>r. processing i a0 r \<and> a' \<in> set (requeue_trace i r a0)))"
    unfolding leases_def LeaseStore.select_convs LeaseStore_RequeueExpiredJob_def LeaseStore_event_def
    by (intro arun_call [OF requeue_stmt] arun_call [OF event_stmt] arun_new [OF uuid_New_rows] arun_ret)
      (auto simp: err_effect_def requeue_trace_def Let_def)
next
  fix a0 i c m
  show "arun inv_world abs_rows (\<lambda>a. a = a0) (ls_FailExpiredJob leases i c m)
      (\<lambda>_ a'. \<exists>r t. processing i a0 r \<and> a' = last (fail_trace i c m t r a0))
      (\<lambda>e a'. a' = a0 \<or> (\<exists>r t. processing i a0 r \<and> a' \<in> set (fail_trace i c m t r a0)))"
    unfolding leases_def LeaseStore.select_convs LeaseStore_FailExpiredJob_def LeaseStore_event_def
    by (intro arun_call [OF fail_stmt] arun_call [OF event_stmt] arun_new [OF uuid_New_rows] arun_ret)
      (auto simp: err_effect_def fail_trace_def Let_def)
qed (simp add: producer_def producer_rows)

section \<open>What the reaper does\<close>

text \<open>C13. One pass of the reaper, whatever calls fail. It changes no row but those whose lease had
  expired when it listed them. A row it reclaims has used one more attempt, and is failed
  with \<open>lease_expired\<close> exactly when that was its last one, queued without worker and lease
  otherwise. The messages it sends are for different jobs, each of them requeued.\<close>

theorem reaper_pass:
  assumes "inv_world w" and "ReapOnce reaper w = (ls, w')"
  shows "inv_world w'
    \<and> (\<forall>i. row_of (w_db w') i = row_of (w_db w) i
        \<or> (\<exists>r r'. row_of (w_db w) i = Some r \<and> lease_expired (time_of w) r
             \<and> reclaimed r r' \<and> row_of (w_db w') i = Some r'))
    \<and> (\<exists>ms. job_msgs (w_redis w' StreamName) = job_msgs (w_redis w StreamName) @ ms \<and> distinct ms
        \<and> (\<forall>i \<in> set ms. \<exists>r. row_of (w_db w) i = Some r \<and> lease_expired (time_of w) r
             \<and> \<not> spent r \<and> row_of (w_db w') i = Some (back_in_line r)))"
proof -
  from pgleases.ReapOnce_ok [OF assms(1)] assms(2) obtain S where I: "inv_world w'"
    and S: "\<forall>i \<in> S. \<exists>r. row_of (w_db w) i = Some r \<and> lease_expired (time_of w) r"
    and p: "pass_ok S ls (abs_rows w) (abs_rows w')"
    by (auto simp: reaper_def)
  from p obtain ms where ms: "job_msgs (w_redis w' StreamName) = job_msgs (w_redis w StreamName) @ ms"
    "distinct ms" "set ms \<subseteq> S" "\<forall>i r. i \<in> set ms \<and> row_of (w_db w) i = Some r
      \<longrightarrow> \<not> spent r \<and> row_of (w_db w') i = Some (back_in_line r)"
    by (auto simp: pass_ok_def)
  have "row_of (w_db w') i = row_of (w_db w) i
      \<or> (\<exists>r r'. row_of (w_db w) i = Some r \<and> lease_expired (time_of w) r
           \<and> reclaimed r r' \<and> row_of (w_db w') i = Some r')" for i
  proof (cases "i \<in> S")
    case True
    then obtain r where "row_of (w_db w) i = Some r" "lease_expired (time_of w) r" using S by blast
    with pass_okD(2) [OF p True] show ?thesis by auto
  qed (use pass_okD(1) [OF p] in simp)
  then show ?thesis using I S ms by blast
qed

text \<open>C14. A pass whose log has no error entry has reclaimed every job whose lease had expired.\<close>

theorem reaper_complete:
  assumes "inv_world w" and "ReapOnce reaper w = (ls, w')" and "\<forall>l \<in> set ls. \<exists>i. l = Exhausted i \<or> l = Requeued i"
    and "row_of (w_db w) i = Some r" and "lease_expired (time_of w) r"
  shows "\<exists>r'. reclaimed r r' \<and> row_of (w_db w') i = Some r'"
  using pgleases.ReapOnce_complete [OF assms(1), of ls w' i r] assms(2-)
  by (simp add: reaper_def ok_log_def)

text \<open>The retry budget: a job uses at most \<open>max_attempts\<close> attempts, and one that may still run has
  some left.\<close>

definition budget_ok :: "db_Job \<Rightarrow> bool" where
  "budget_ok r \<longleftrightarrow> 0 \<le> job_Attempts r \<and> job_Attempts r \<le> job_MaxAttempts r
     \<and> (job_Status r \<in> {StatusQueued, StatusProcessing} \<longrightarrow> job_Attempts r < job_MaxAttempts r)"

lemma reclaimed_budget:
  assumes "budget_ok r" and "job_row_ok r" and "job_Status r = StatusProcessing" and "reclaimed r r'"
  shows "budget_ok r'"
proof -
  have "in_int32 (job_Attempts r + 1)" using assms(1-3) by (auto simp: budget_ok_def job_row_ok_def in_int32_def)
  then have "spent r \<longleftrightarrow> job_Attempts r + 1 \<ge> job_MaxAttempts r" by (simp add: spent_def)
  with assms(1,3,4) show ?thesis
    by (auto simp: reclaimed_def budget_ok_def back_in_line_def given_up_def split: if_splits)
qed

lemma ReapOnce_budget:
  assumes "inv_world w" and "\<forall>i r. row_of (w_db w) i = Some r \<longrightarrow> budget_ok r"
  shows "inv_world (snd (ReapOnce reaper w)) \<and> (\<forall>i r. row_of (w_db (snd (ReapOnce reaper w))) i = Some r \<longrightarrow> budget_ok r)"
proof -
  obtain ls w' where r: "ReapOnce reaper w = (ls, w')" by (cases "ReapOnce reaper w")
  from pgleases.ReapOnce_ok [OF assms(1)] r obtain S where I: "inv_world w'"
    and S: "\<forall>i \<in> S. \<exists>r. row_of (w_db w) i = Some r \<and> lease_expired (time_of w) r"
    and p: "pass_ok S ls (abs_rows w) (abs_rows w')"
    by (auto simp: reaper_def)
  have "budget_ok r'" if "row_of (w_db w') i = Some r'" for i r'
  proof (cases "i \<in> S")
    case True
    then obtain r where r: "row_of (w_db w) i = Some r" "lease_expired (time_of w) r" using S by blast
    then have "job_row_ok r" "job_Status r = StatusProcessing"
      using assms(1) by (auto simp: inv_world_def lease_expired_def dest: schema_ok_row)
    then show ?thesis
      using pass_okD(2) [OF p True] r that assms(2) by (auto intro: reclaimed_budget)
  next
    case False
    then show ?thesis using pass_okD(1) [OF p False] that assms(2) by simp
  qed
  with I r show ?thesis by simp
qed

text \<open>C15. However long the reaper runs, and whatever calls fail, no job exceeds its retry budget and
  no queued or processing job has none left.\<close>

theorem reaper_keeps_budget:
  assumes "inv_world w" and "\<forall>i r. row_of (w_db w) i = Some r \<longrightarrow> budget_ok r"
  shows "inv_world (Reaper_Run reaper es w)
    \<and> (\<forall>i r. row_of (w_db (Reaper_Run reaper es w)) i = Some r \<longrightarrow> budget_ok r)"
  using assms
proof (induction es arbitrary: w)
  case (Cons e es)
  show ?case
  proof (cases e)
    case Tick
    with Cons.IH [of "snd (ReapOnce reaper w)"] ReapOnce_budget [OF Cons.prems] show ?thesis
      unfolding Tick Reaper_Run.simps by blast
  qed (use Cons.prems in simp)
qed simp

section \<open>Concrete passes\<close>

text \<open>The sample job with a lease that expired, after \<open>n\<close> attempts.\<close>

definition expired_job :: "int \<Rightarrow> db_Job" where
  "expired_job n = (sample_job StatusProcessing)\<lparr>job_Attempts := n, job_LeaseExpiresAt := Some 3\<rparr>"

definition expired_world :: "int \<Rightarrow> world" where
  "expired_world n = (sample_world StatusProcessing)\<lparr>w_db := (sample_db StatusProcessing)\<lparr>tbl_jobs := [expired_job n]\<rparr>\<rparr>"

lemmas expired_defs = expired_world_def expired_job_def

lemma expired_inv: "0 \<le> n \<Longrightarrow> n < 10 \<Longrightarrow> inv_world (expired_world n)"
  by (simp add: inv_world_def expired_defs schema_defs sample_defs job_row_ok_def in_int32_def idem_keys_def
      List.map_filter_def)

lemmas reaper_eval = ReapOnce_def reap_job_def reaper_def NewReaper_def leases_def producer_def
  LeaseStore_ListExpiredLeases_def LeaseStore_RequeueExpiredJob_def LeaseStore_FailExpiredJob_def LeaseStore_event_def
  q_ListExpiredLeases_def q_RequeueExpiredJob_def q_FailExpiredJob_def lease_expired_def budget_spent_def
  attempts_overflow_def in_int32_def

lemma expired_pass:
  "fst (ReapOnce reaper (expired_world 0)) = [Requeued 7]" "fst (ReapOnce reaper (expired_world 2)) = [Exhausted 7]"
  by (simp_all add: reaper_eval service_eval statement_eval expired_defs sample_defs)

theorem reaper_pass_witness:
  "inv_world (snd (ReapOnce reaper (expired_world 0))) \<and> fst (ReapOnce reaper (expired_world 0)) = [Requeued 7]"
  using reaper_pass [OF expired_inv surjective_pairing, of 0] expired_pass by simp

theorem reaper_complete_witness:
  "\<exists>r'. reclaimed (expired_job 2) r' \<and> row_of (w_db (snd (ReapOnce reaper (expired_world 2)))) 7 = Some r'"
  using reaper_complete [OF expired_inv surjective_pairing, of 2 7 "expired_job 2"] expired_pass(2)
  by (simp add: row_of_def expired_defs sample_defs lease_expired_def time_of_def)

lemma expired_budget: "\<forall>i r. row_of (w_db (expired_world 2)) i = Some r \<longrightarrow> budget_ok r"
  by (simp add: row_of_def expired_defs sample_defs budget_ok_def)

theorem reaper_keeps_budget_witness:
  "inv_world (Reaper_Run reaper [Tick, Tick, CtxDone] (expired_world 2))
   \<and> (case row_of (w_db (Reaper_Run reaper [Tick, CtxDone] (expired_world 2))) 7 of
        Some r \<Rightarrow> budget_ok r \<and> job_Status r = StatusFailed | None \<Rightarrow> False)"
proof -
  have I: "inv_world (expired_world 2)" by (rule expired_inv) simp_all
  have "row_of (w_db (snd (ReapOnce reaper (expired_world 2)))) 7
      = Some (set_expired_failed leaseExpiredErrorCode leaseExpiredErrorMessage 11 (expired_job 2))"
    by (simp add: reaper_eval service_eval statement_eval expired_defs sample_defs row_of_def)
  then show ?thesis
    using reaper_keeps_budget [OF I expired_budget, of "[Tick, Tick, CtxDone]"]
      reaper_keeps_budget [OF I expired_budget, of "[Tick, CtxDone]"] by simp
qed

section \<open>The queue-depth gauge\<close>

record XInfoGroup =
  xg_Name :: string
  xg_Lag :: int
  xg_Pending :: int

text \<open>Go's \<open>int64\<close> addition.\<close>

definition wrap64 :: "int \<Rightarrow> int" where
  "wrap64 x = (x + 2 ^ 63) mod 2 ^ 64 - 2 ^ 63"

fun refresh_depth :: "int \<Rightarrow> XInfoGroup list \<Rightarrow> int" where
  "refresh_depth depth [] = depth"
| "refresh_depth depth (g # gs) =
    (if xg_Name g \<noteq> ConsumerGroup then refresh_depth depth gs
     else let lag = (if xg_Lag g < 0 then 0 else xg_Lag g) in refresh_depth (wrap64 (lag + xg_Pending g)) gs)"

text \<open>The gauge's new value and whether an error is logged; \<open>Inl\<close> is the error's text.\<close>

definition refresh :: "string + XInfoGroup list \<Rightarrow> int \<times> bool" where
  "refresh r = (case r of Inl err \<Rightarrow> (0, err \<noteq> ''ERR no such key'') | Inr groups \<Rightarrow> (refresh_depth 0 groups, False))"

lemma refresh_depth_none: "\<forall>g \<in> set gs. xg_Name g \<noteq> ConsumerGroup \<Longrightarrow> refresh_depth n gs = n"
  by (induction gs arbitrary: n) auto

lemma refresh_depth_append: "refresh_depth n (gs @ hs) = refresh_depth (refresh_depth n gs) hs"
  by (induction n gs rule: refresh_depth.induct) (auto simp: Let_def)

text \<open>Redis names a consumer group once; the gauge then shows that group's lag (0 when Redis cannot
  tell it) plus what is pending, and 0 when the group does not exist yet.\<close>

theorem refresh_gauge:
  assumes "groups = gs @ g # hs" and "xg_Name g = ConsumerGroup"
    and "\<forall>h \<in> set (gs @ hs). xg_Name h \<noteq> ConsumerGroup"
    and "in_int64 (max 0 (xg_Lag g) + xg_Pending g)"
  shows "refresh (Inr groups) = (max 0 (xg_Lag g) + xg_Pending g, False)
    \<and> refresh (Inr (gs @ hs)) = (0, False)"
proof -
  have "wrap64 (max 0 (xg_Lag g) + xg_Pending g) = max 0 (xg_Lag g) + xg_Pending g"
    using assms(4) by (simp add: wrap64_def in_int64_def)
  then show ?thesis
    using assms(1-3) by (simp add: refresh_def refresh_depth_append refresh_depth_none Let_def max_def split: if_splits)
qed

theorem refresh_gauge_witness:
  "refresh (Inr [\<lparr>xg_Name = ''other'', xg_Lag = 4, xg_Pending = 5\<rparr>, \<lparr>xg_Name = ConsumerGroup, xg_Lag = - 1, xg_Pending = 3\<rparr>])
    = (3, False)"
  using refresh_gauge [OF refl, of "\<lparr>xg_Name = ConsumerGroup, xg_Lag = - 1, xg_Pending = 3\<rparr>"
      "[\<lparr>xg_Name = ''other'', xg_Lag = 4, xg_Pending = 5\<rparr>]" "[]"]
  by (simp add: in_int64_def ConsumerGroup_def)

end
