(* ===== verification/Worker.thy ===== *)
theory Worker
  imports Lease_Store
begin

text \<open>
  The side of the transcription worker that touches the shared state: \<open>src/worker/worker/store.py\<close> and the job
  processing of \<open>src/worker/worker/main.py\<close>.

  The connection is in autocommit mode (\<open>client.connect_db\<close>), so each \<open>cur.execute\<close> is one statement of the shared
  database, with the faults and the clock of \<^typ>\<open>world\<close>; an exception is the left side of the sum.
  Downloading, probing, normalising and transcribing the audio is the function \<open>pipeline\<close> of the theory \<open>Audio\<close>; here it enters as a function from
  the object key of the claimed job to what comes of it. The lease renewer is a thread on the same connection: how often it fires
  before the transcription ends is an argument too. It is stopped and joined before the transcript is stored; when the transcription
  fails it may still fire while the job is being failed or queued, where its statement, which asks for a job in \<open>processing\<close>, finds none
  (in \<open>Platform\<close> a renewal may come between any two statements). A Python string is a list of code points below 256.

  The connection commits each statement by itself, so a job that was put back to \<open>queued\<close> stays so when the insert of its \<open>retrying\<close> event
  fails, be it a lost call or an error message too long for the notification.
\<close>

section \<open>Statements\<close>

definition LEASE_DURATION :: int where
  "LEASE_DURATION = 60 * 10 ^ 9"

definition set_claimed :: "string \<Rightarrow> instant \<Rightarrow> 'a Job_scheme \<Rightarrow> 'a Job_scheme" where
  "set_claimed worker_id now r = r\<lparr>job_Status := StatusProcessing, job_WorkerID := Some worker_id,
     job_LeaseExpiresAt := Some (now + LEASE_DURATION),
     job_StartedAt := (case job_StartedAt r of Some t \<Rightarrow> Some t | None \<Rightarrow> Some now)\<rparr>"

definition sql_claim :: "uuid \<Rightarrow> string \<Rightarrow> instant \<Rightarrow> (database, db_Job) go" where
  "sql_claim jid worker_id now =
    update_jobs_returning (\<lambda>r. job_ID r = jid \<and> job_Status r \<in> {StatusQueued, StatusRetrying} \<and> job_DeletedAt r = None)
      (set_claimed worker_id now)"

text \<open>\<open>UPDATE\<close> without \<open>RETURNING\<close>.\<close>

definition update_jobs :: "(db_Job \<Rightarrow> bool) \<Rightarrow> (db_Job \<Rightarrow> db_Job) \<Rightarrow> (database, unit) go" where
  "update_jobs p f d = (Inr (), snd (update_jobs_returning p f d))"

definition sql_renew_lease :: "uuid \<Rightarrow> instant \<Rightarrow> (database, unit) go" where
  "sql_renew_lease jid now = update_jobs (\<lambda>r. job_ID r = jid \<and> job_Status r = StatusProcessing)
     (\<lambda>r. r\<lparr>job_LeaseExpiresAt := Some (now + LEASE_DURATION)\<rparr>)"

definition set_succeeded :: "float64 \<Rightarrow> instant \<Rightarrow> 'a Job_scheme \<Rightarrow> 'a Job_scheme" where
  "set_succeeded duration now r =
    r\<lparr>job_Status := StatusSucceeded, job_DurationSeconds := Some duration, job_FinishedAt := Some now\<rparr>"

definition sql_complete :: "uuid \<Rightarrow> float64 \<Rightarrow> instant \<Rightarrow> (database, unit) go" where
  "sql_complete jid duration now = update_jobs (\<lambda>r. job_ID r = jid) (set_succeeded duration now)"

definition set_worker_failed :: "int \<Rightarrow> string \<Rightarrow> string \<Rightarrow> instant \<Rightarrow> 'a Job_scheme \<Rightarrow> 'a Job_scheme" where
  "set_worker_failed attempts code message now r = r\<lparr>job_Status := StatusFailed, job_Attempts := attempts,
     job_ErrorCode := Some code, job_ErrorMessage := Some message, job_FinishedAt := Some now\<rparr>"

definition set_worker_requeued :: "int \<Rightarrow> string \<Rightarrow> string \<Rightarrow> 'a Job_scheme \<Rightarrow> 'a Job_scheme" where
  "set_worker_requeued attempts code message r = r\<lparr>job_Status := StatusQueued, job_Attempts := attempts,
     job_ErrorCode := Some code, job_ErrorMessage := Some message, job_WorkerID := None, job_LeaseExpiresAt := None\<rparr>"

text \<open>The column \<open>attempts\<close> is an \<open>int\<close>: a value out of its range is an error of the statement.\<close>

definition write_attempts :: "uuid \<Rightarrow> int \<Rightarrow> (db_Job \<Rightarrow> db_Job) \<Rightarrow> (database, unit) go" where
  "write_attempts jid attempts f d =
    (if \<not> in_int32 attempts \<and> (\<exists>r \<in> set (tbl_jobs d). job_ID r = jid) then (Inl (PgError ''22003''), d)
     else update_jobs (\<lambda>r. job_ID r = jid) f d)"

definition sql_fail :: "uuid \<Rightarrow> int \<Rightarrow> string \<Rightarrow> string \<Rightarrow> instant \<Rightarrow> (database, unit) go" where
  "sql_fail jid attempts code message now = write_attempts jid attempts (set_worker_failed attempts code message now)"

definition sql_requeue :: "uuid \<Rightarrow> int \<Rightarrow> string \<Rightarrow> string \<Rightarrow> instant \<Rightarrow> (database, unit) go" where
  "sql_requeue jid attempts code message now = write_attempts jid attempts (set_worker_requeued attempts code message)"

definition sql_insert_transcript :: "Transcript \<Rightarrow> instant \<Rightarrow> (database, unit) go" where
  "sql_insert_transcript t now d =
    (if \<exists>t' \<in> set (tbl_transcripts d). tr_ID t' = tr_ID t \<or> tr_JobID t' = tr_JobID t then (Inl (PgError ''23505''), d)
     else if \<not> (\<exists>r \<in> set (tbl_jobs d). job_ID r = tr_JobID t) then (Inl (PgError ''23503''), d)
     else (Inr (), d\<lparr>tbl_transcripts := tbl_transcripts d @ [t\<lparr>tr_CreatedAt := now\<rparr>]\<rparr>))"

definition sql_insert_segment :: "Segment \<Rightarrow> instant \<Rightarrow> (database, unit) go" where
  "sql_insert_segment s now d =
    (if \<not> (in_int32 (seg_Idx s) \<and> in_int32 (seg_StartMs s) \<and> in_int32 (seg_EndMs s)) then (Inl (PgError ''22003''), d)
     else if \<exists>s' \<in> set (tbl_segments d). seg_ID s' = seg_ID s \<or> seg_TranscriptID s' = seg_TranscriptID s \<and> seg_Idx s' = seg_Idx s
       then (Inl (PgError ''23505''), d)
     else if \<not> (\<exists>t \<in> set (tbl_transcripts d). tr_ID t = seg_TranscriptID s) then (Inl (PgError ''23503''), d)
     else (Inr (), d\<lparr>tbl_segments := tbl_segments d @ [s]\<rparr>))"

text \<open>\<open>cur.executemany\<close>: \<open>psycopg\<close> sends the rows in one pipeline, which outside a transaction block the server runs as one
  transaction, so a row that is refused undoes the rows before it.\<close>

fun insert_each :: "Segment list \<Rightarrow> instant \<Rightarrow> (database, unit) go" where
  "insert_each [] now = ret ()"
| "insert_each (s # ss) now = check (sql_insert_segment s now) id (\<lambda>_. insert_each ss now)"

definition sql_insert_segments :: "Segment list \<Rightarrow> instant \<Rightarrow> (database, unit) go" where
  "sql_insert_segments ss now d = (case insert_each ss now d of (Inl e, _) \<Rightarrow> (Inl e, d) | (Inr _, d1) \<Rightarrow> (Inr (), d1))"

section \<open>The functions of \<open>store.py\<close>\<close>

record ClaimedJob =
  cl_id :: uuid
  cl_object_key :: string
  cl_original_filename :: string
  cl_model :: string
  cl_attempts :: int
  cl_max_attempts :: int

text \<open>\<open>json.dumps\<close> of a string, with \<open>ensure_ascii\<close>.\<close>

definition json_char :: "char \<Rightarrow> string" where
  "json_char c =
    (let n = (of_char c :: nat) in
     if c = CHR 0x22 then [CHR 0x5C, CHR 0x22] else if c = CHR 0x5C then [CHR 0x5C, CHR 0x5C]
     else if n = 8 then [CHR 0x5C, CHR ''b''] else if n = 9 then [CHR 0x5C, CHR ''t''] else if n = 10 then [CHR 0x5C, CHR ''n'']
     else if n = 12 then [CHR 0x5C, CHR ''f''] else if n = 13 then [CHR 0x5C, CHR ''r'']
     else if n < 32 \<or> n > 126 then CHR 0x5C # ''u00'' @ [hex_digit (n div 16), hex_digit (n mod 16)] else [c])"

definition json_string :: "string \<Rightarrow> string" where
  "json_string s = CHR 0x22 # concat (map json_char s) @ [CHR 0x22]"

definition json_dumps :: "(string \<times> string) list \<Rightarrow> string" where
  "json_dumps kvs = (case map (\<lambda>(k, v). json_string k @ '': '' @ json_string v) kvs of
     [] \<Rightarrow> ''{}'' | m # ms \<Rightarrow> CHR ''{'' # m @ concat (map (\<lambda>x. '', '' @ x) ms) @ ''}'')"

definition insert_event :: "uuid \<Rightarrow> string \<Rightarrow> (string \<times> string) list \<Rightarrow> (world, unit) go" where
  "insert_event jid event_type payload = (\<lambda>w. let (e, w1) = uuid_New w in
     check (pg (q_CreateJobEvent e jid event_type (json_dumps payload))) id (\<lambda>_. ret ()) w1)"

definition claim_next :: "uuid \<Rightarrow> string \<Rightarrow> (world, ClaimedJob option) go" where
  "claim_next jid worker_id = (\<lambda>w. case pg (sql_claim jid worker_id) w of
     (Inl e, w1) \<Rightarrow> if e = ErrNoRows then (Inr None, w1) else (Inl e, w1)
   | (Inr r, w1) \<Rightarrow> check (insert_event jid ''leased'' [(''worker_id'', worker_id)]) id (\<lambda>_.
       ret (Some \<lparr>cl_id = job_ID r, cl_object_key = job_ObjectKey r, cl_original_filename = job_OriginalFilename r,
         cl_model = job_Model r, cl_attempts = job_Attempts r, cl_max_attempts = job_MaxAttempts r\<rparr>)) w1)"

definition renew_lease :: "uuid \<Rightarrow> (world, unit) go" where
  "renew_lease jid = pg (sql_renew_lease jid)"

definition complete_job :: "uuid \<Rightarrow> float64 \<Rightarrow> (world, unit) go" where
  "complete_job jid duration_seconds = check (pg (sql_complete jid duration_seconds)) id (\<lambda>_. insert_event jid ''succeeded'' [])"

definition fail_or_retry_job :: "uuid \<Rightarrow> int \<Rightarrow> int \<Rightarrow> string \<Rightarrow> string \<Rightarrow> (world, string) go" where
  "fail_or_retry_job jid attempts max_attempts error_code error_message =
    (let new_attempts = attempts + 1; payload = [(''error_code'', error_code), (''error_message'', error_message)] in
     if new_attempts \<ge> max_attempts then
       check (pg (sql_fail jid new_attempts error_code error_message)) id (\<lambda>_.
       check (insert_event jid ''failed'' payload) id (\<lambda>_. ret ''failed''))
     else
       check (pg (sql_requeue jid new_attempts error_code error_message)) id (\<lambda>_.
       check (insert_event jid ''retrying'' payload) id (\<lambda>_.
       check (insert_event jid ''queued'' []) id (\<lambda>_. ret ''queued''))))"

record result =
  re_duration :: float64
  re_text :: string
  re_language_detected :: string
  re_language_probability :: real
  re_language_warning :: bool
  re_processing_seconds :: real
  re_real_time_factor :: real
  re_segments :: "(int \<times> int \<times> int \<times> string \<times> real option) list"

definition insert_transcript :: "uuid \<Rightarrow> string \<Rightarrow> result \<Rightarrow> (world, uuid) go" where
  "insert_transcript jid model res = (\<lambda>w. let (t, w1) = uuid_New w in
     check (pg (sql_insert_transcript \<lparr>tr_ID = t, tr_JobID = jid, tr_Text = re_text res, tr_LanguageDetected = re_language_detected res,
       tr_LanguageProbability = re_language_probability res, tr_Model = model, tr_ProcessingSeconds = re_processing_seconds res,
       tr_RealTimeFactor = re_real_time_factor res, tr_CreatedAt = 0\<rparr>)) id (\<lambda>_. ret t) w1)"

type_synonym segment_result = "int \<times> int \<times> int \<times> string \<times> real option"

fun segment_rows :: "uuid \<Rightarrow> segment_result list \<Rightarrow> world \<Rightarrow> Segment list \<times> world" where
  "segment_rows tid [] w = ([], w)"
| "segment_rows tid ((idx, start_ms, end_ms, text, avg) # segs) w =
    (let (i, w1) = uuid_New w; (rows, w2) = segment_rows tid segs w1
     in (\<lparr>seg_ID = i, seg_TranscriptID = tid, seg_Idx = idx, seg_StartMs = start_ms, seg_EndMs = end_ms,
          seg_Text = text, seg_AvgLogprob = avg\<rparr> # rows, w2))"

definition insert_segments :: "uuid \<Rightarrow> segment_result list \<Rightarrow> (world, unit) go" where
  "insert_segments tid segs = (if segs = [] then ret ()
     else (\<lambda>w. let (rows, w1) = segment_rows tid segs w in pg (sql_insert_segments rows) w1))"

section \<open>Processing a message\<close>

datatype outcome = Raised_TranscriptionError string string | Raised_other | Transcribed result

text \<open>The renewer's thread: exceptions are logged and dropped.\<close>

fun renewals :: "nat \<Rightarrow> uuid \<Rightarrow> (world, 'a) go \<Rightarrow> (world, 'a) go" where
  "renewals 0 jid k = k"
| "renewals (Suc n) jid k = ignore (renew_lease jid) (renewals n jid k)"

definition transcribe_and_store :: "nat \<Rightarrow> (string \<Rightarrow> outcome) \<Rightarrow> ClaimedJob \<Rightarrow> (world, unit) go" where
  "transcribe_and_store n oc claimed = renewals n (cl_id claimed) (case oc (cl_object_key claimed) of
     Raised_TranscriptionError code message \<Rightarrow>
       check (fail_or_retry_job (cl_id claimed) (cl_attempts claimed) (cl_max_attempts claimed) code message) id (\<lambda>new_status.
       if new_status = ''queued'' then xadd StreamName [(''job_id'', cl_id claimed)] else ret ())
   | Raised_other \<Rightarrow> fail (ErrMsg ''unhandled'')
   | Transcribed res \<Rightarrow>
       check (insert_transcript (cl_id claimed) (cl_model claimed) res) id (\<lambda>tid.
       check (insert_segments tid (re_segments res)) id (\<lambda>_.
       complete_job (cl_id claimed) (re_duration res))))"

definition process_job :: "nat \<Rightarrow> (string \<Rightarrow> outcome) \<Rightarrow> uuid \<Rightarrow> string \<Rightarrow> (world, unit) go" where
  "process_job n oc jid this_worker_id = check (claim_next jid this_worker_id) id (\<lambda>claimed.
     case claimed of None \<Rightarrow> ret () | Some c \<Rightarrow> transcribe_and_store n oc c)"

text \<open>What one row keeps, the whole group keeps.\<close>

lemma insert_each_keeps:
  assumes "\<And>s d. Q d \<Longrightarrow> Q (snd (sql_insert_segment s now d))"
  shows "Q d \<Longrightarrow> Q (snd (insert_each ss now d))"
proof (induction ss arbitrary: d)
  case (Cons s ss)
  then show ?case using assms [of d s] by (auto simp: check_def split: prod.splits sum.splits)
qed simp

lemma sql_insert_segments_keeps:
  assumes "\<And>s d. Q d \<Longrightarrow> Q (snd (sql_insert_segment s now d))" and "Q d"
  shows "Q (snd (sql_insert_segments ss now d))"
  using insert_each_keeps [OF assms, where ss = ss] assms(2) by (auto simp: sql_insert_segments_def split: prod.splits sum.splits)

end
