(* ===== verification/Platform.thy ===== *)
theory Platform
  imports Worker
begin

text \<open>
  The running system: any number of API processes, reapers and workers on one database.

  Every process runs in autocommit mode, so their statements interleave one by one. \<open>pstep\<close> is one statement of
  any of them, or the loss of a process. Besides the database the state has what processes remember between
  two statements that belong together:

  \<^item> \<open>pl_creating\<close>: the jobs a \<open>Create\<close> of \<open>src/api/internal/job/service.go\<close> has inserted and not yet moved to \<open>queued\<close>;
  \<^item> \<open>pl_held\<close>: the jobs a worker has claimed, with the attempts and the budget it read when it claimed them.

  A reaper acts on the attempts and the budget it read in its listing. The two switches say how fresh these readings
  are: with \<open>wt\<close> a worker finishes a job only while its claim still stands (nobody cancelled, reclaimed or finished the
  job meanwhile), with \<open>rt\<close> a reaper acts on what the row still says. The code ensures neither; the theorems
  say what holds with and without.
\<close>

section \<open>Steps\<close>

record platform =
  pl_db :: database
  pl_creating :: "uuid set"
  pl_held :: "(uuid \<times> int \<times> int) set"

datatype label = Claimed uuid | Retried uuid | Other

definition standing :: "uuid \<Rightarrow> int \<Rightarrow> database \<Rightarrow> bool" where
  "standing i a d \<longleftrightarrow> (\<exists>r. row_of d i = Some r \<and> job_Status r = StatusProcessing \<and> job_Attempts r = a)"

definition fresh :: "uuid \<Rightarrow> int \<Rightarrow> int \<Rightarrow> database \<Rightarrow> bool" where
  "fresh i a m d \<longleftrightarrow> (\<forall>r. row_of d i = Some r \<and> job_Status r = StatusProcessing \<longrightarrow> job_Attempts r = a \<and> job_MaxAttempts r = m)"

inductive pstep :: "bool \<Rightarrow> bool \<Rightarrow> platform \<Rightarrow> label \<Rightarrow> platform \<Rightarrow> bool" for wt rt where
  create: "cj_Status p = StatusPending \<Longrightarrow> q_CreateJob p now (pl_db s) = (Inr r, d) \<Longrightarrow>
    pstep wt rt s Other (s\<lparr>pl_db := d, pl_creating := insert (job_ID r) (pl_creating s)\<rparr>)"
| create_lost: "cj_Status p = StatusPending \<Longrightarrow> pstep wt rt s Other (s\<lparr>pl_db := snd (q_CreateJob p now (pl_db s))\<rparr>)"
| publish: "i \<in> pl_creating s \<Longrightarrow>
    pstep wt rt s Other (s\<lparr>pl_db := snd (q_UpdateJobStatus i StatusQueued now (pl_db s)), pl_creating := pl_creating s - {i}\<rparr>)"
| abandon: "pstep wt rt s Other (s\<lparr>pl_creating := pl_creating s - {i}\<rparr>)"
| cancel: "pstep wt rt s Other (s\<lparr>pl_db := snd (q_CancelJob i u now (pl_db s))\<rparr>)"
| retry: "pstep wt rt s (Retried i) (s\<lparr>pl_db := snd (q_RetryJob i u now (pl_db s))\<rparr>)"
| delete: "pstep wt rt s Other (s\<lparr>pl_db := snd (q_SoftDeleteJob i u now (pl_db s))\<rparr>)"
| event: "pstep wt rt s Other (s\<lparr>pl_db := snd (q_CreateJobEvent e i ty pl now (pl_db s))\<rparr>)"
| account: "api_stmt (pl_db s) d \<Longrightarrow> tbl_jobs d = tbl_jobs (pl_db s) \<Longrightarrow> pstep wt rt s Other (s\<lparr>pl_db := d\<rparr>)"
| reap_requeue: "\<not> budget_spent a m \<Longrightarrow> (rt \<Longrightarrow> fresh i a m (pl_db s)) \<Longrightarrow>
    pstep wt rt s Other (s\<lparr>pl_db := snd (q_RequeueExpiredJob i now (pl_db s))\<rparr>)"
| reap_fail: "pstep wt rt s Other (s\<lparr>pl_db := snd (q_FailExpiredJob i c m now (pl_db s))\<rparr>)"
| claim: "sql_claim i wid now (pl_db s) = (Inr r, d) \<Longrightarrow>
    pstep wt rt s (Claimed i) (s\<lparr>pl_db := d, pl_held := insert (i, job_Attempts r, job_MaxAttempts r) (pl_held s)\<rparr>)"
| claim_lost: "sql_claim i wid now (pl_db s) = (Inr r, d) \<Longrightarrow> pstep wt rt s (Claimed i) (s\<lparr>pl_db := d\<rparr>)"
| drop: "pstep wt rt s Other (s\<lparr>pl_held := pl_held s - {h}\<rparr>)"
| renew: "pstep wt rt s Other (s\<lparr>pl_db := snd (sql_renew_lease i now (pl_db s))\<rparr>)"
| complete: "(i, a, m) \<in> pl_held s \<Longrightarrow> (wt \<Longrightarrow> standing i a (pl_db s)) \<Longrightarrow>
    pstep wt rt s Other (s\<lparr>pl_db := snd (sql_complete i t now (pl_db s))\<rparr>)"
| give_up: "(i, a, m) \<in> pl_held s \<Longrightarrow> (wt \<Longrightarrow> standing i a (pl_db s)) \<Longrightarrow> a + 1 \<ge> m \<Longrightarrow>
    pstep wt rt s Other (s\<lparr>pl_db := snd (sql_fail i (a + 1) c e now (pl_db s))\<rparr>)"
| give_back: "(i, a, m) \<in> pl_held s \<Longrightarrow> (wt \<Longrightarrow> standing i a (pl_db s)) \<Longrightarrow> \<not> a + 1 \<ge> m \<Longrightarrow>
    pstep wt rt s Other (s\<lparr>pl_db := snd (sql_requeue i (a + 1) c e now (pl_db s))\<rparr>)"
| transcript: "pstep wt rt s Other (s\<lparr>pl_db := snd (sql_insert_transcript t now (pl_db s))\<rparr>)"
| segment: "pstep wt rt s Other (s\<lparr>pl_db := snd (sql_insert_segments g now (pl_db s))\<rparr>)"

inductive prun :: "bool \<Rightarrow> bool \<Rightarrow> platform \<Rightarrow> label list \<Rightarrow> platform \<Rightarrow> bool" for wt rt where
  none: "prun wt rt s [] s"
| more: "prun wt rt s ls t \<Longrightarrow> pstep wt rt t l u \<Longrightarrow> prun wt rt s (ls @ [l]) u"

section \<open>Rows under the statements\<close>

text \<open>What each statement does to a row, one equation per statement.\<close>

lemma row_of_update_returning:
  assumes "\<And>r. job_ID (f r) = job_ID r"
  shows "row_of (snd (update_jobs_returning p f d)) i = map_option (\<lambda>r. if p r then f r else r) (row_of d i)"
  by (simp add: update_jobs_returning_def row_of_update [OF assms])

lemma worker_updates_static [simp]:
  "job_static (set_claimed w t r) = job_static r" "job_static (set_succeeded x t r) = job_static r"
  "job_static (set_worker_failed a c e t r) = job_static r" "job_static (set_worker_requeued a c e r) = job_static r"
  "job_static (r\<lparr>job_LeaseExpiresAt := y\<rparr>) = job_static r"
  by (simp_all add: job_static_def set_claimed_def set_succeeded_def set_worker_failed_def set_worker_requeued_def)

lemmas updates_ID = static_updates [THEN job_static_eqD(1)] worker_updates_static [THEN job_static_eqD(1)]

lemmas worker_stmt_defs = sql_claim_def update_jobs_def sql_renew_lease_def sql_complete_def write_attempts_def sql_fail_def
  sql_requeue_def

lemma rows_guarded:
  "row_of (snd (q_CancelJob i u now d)) j = map_option (\<lambda>r. if job_ID r = i \<and> job_UserID r = u
     \<and> job_Status r \<in> {StatusQueued, StatusProcessing} \<and> job_DeletedAt r = None then set_cancelled now r else r) (row_of d j)"
  "row_of (snd (q_RetryJob i u now d)) j = map_option (\<lambda>r. if job_ID r = i \<and> job_UserID r = u
     \<and> job_Status r = StatusFailed \<and> job_DeletedAt r = None then reset_for_retry r else r) (row_of d j)"
  "row_of (snd (q_UpdateJobStatus i StatusQueued now d)) j = map_option (\<lambda>r. if job_ID r = i \<and> job_DeletedAt r = None
     then set_status StatusQueued now r else r) (row_of d j)"
  "row_of (snd (q_SoftDeleteJob i u now d)) j = map_option (\<lambda>r. if job_ID r = i \<and> job_UserID r = u \<and> job_DeletedAt r = None
     then r\<lparr>job_DeletedAt := Some now\<rparr> else r) (row_of d j)"
  "row_of (snd (sql_claim i wid now d)) j = map_option (\<lambda>r. if job_ID r = i \<and> job_Status r \<in> {StatusQueued, StatusRetrying}
     \<and> job_DeletedAt r = None then set_claimed wid now r else r) (row_of d j)"
  "row_of (snd (sql_renew_lease i now d)) j = map_option (\<lambda>r. if job_ID r = i \<and> job_Status r = StatusProcessing
     then r\<lparr>job_LeaseExpiresAt := Some (now + LEASE_DURATION)\<rparr> else r) (row_of d j)"
  "row_of (snd (sql_complete i x now d)) j = map_option (\<lambda>r. if job_ID r = i then set_succeeded x now r else r) (row_of d j)"
  by (simp_all add: q_CancelJob_def q_RetryJob_def q_UpdateJobStatus_def q_SoftDeleteJob_def worker_stmt_defs Let_def
      row_of_update_returning row_of_update updates_ID)

lemma rows_counting:
  "row_of (snd (q_RequeueExpiredJob i now d)) j = row_of d j \<or> row_of (snd (q_RequeueExpiredJob i now d)) j =
     map_option (\<lambda>r. if job_ID r = i \<and> job_Status r = StatusProcessing then set_requeued r else r) (row_of d j)
     \<and> (\<forall>r. row_of d j = Some r \<and> j = i \<and> job_Status r = StatusProcessing \<longrightarrow> in_int32 (job_Attempts r + 1))"
  "row_of (snd (q_FailExpiredJob i c m now d)) j = row_of d j \<or> row_of (snd (q_FailExpiredJob i c m now d)) j =
     map_option (\<lambda>r. if job_ID r = i \<and> job_Status r = StatusProcessing then set_expired_failed c m now r else r) (row_of d j)"
  "row_of (snd (sql_fail i a c e now d)) j = row_of d j \<or> row_of (snd (sql_fail i a c e now d)) j =
     map_option (\<lambda>r. if job_ID r = i then set_worker_failed a c e now r else r) (row_of d j)"
  "row_of (snd (sql_requeue i a c e now d)) j = row_of d j \<or> row_of (snd (sql_requeue i a c e now d)) j =
     map_option (\<lambda>r. if job_ID r = i then set_worker_requeued a c e r else r) (row_of d j)"
  by (auto simp: q_RequeueExpiredJob_def q_FailExpiredJob_def worker_stmt_defs Let_def attempts_overflow_def
      row_of_update_returning updates_ID dest: row_of_mem row_of_ID)

lemma rows_same:
  "row_of (snd (q_CreateJobEvent e i ty pl now d)) = row_of d"
  "row_of (snd (sql_insert_transcript t now d)) = row_of d" "row_of (snd (sql_insert_segments g now d)) = row_of d"
  "tbl_jobs d' = tbl_jobs d \<Longrightarrow> row_of d' = row_of d"
proof -
  show "row_of (snd (sql_insert_segments g now d)) = row_of d"
    by (rule sql_insert_segments_keeps [where Q = "\<lambda>d'. row_of d' = row_of d"]) (auto simp: sql_insert_segment_def)
qed (auto simp: q_CreateJobEvent_def sql_insert_transcript_def row_of_def fun_eq_iff Let_def)

lemma new_job_row_fields [simp]: "job_ID (new_job_row p now) = cj_ID p" "job_Status (new_job_row p now) = cj_Status p"
  "job_Attempts (new_job_row p now) = 0"
  by (simp_all add: new_job_row_def)

lemma rows_create:
  "row_of (snd (q_CreateJob p now d)) j = row_of d j
   \<or> row_of d j = None \<and> j = cj_ID p \<and> row_of (snd (q_CreateJob p now d)) j = Some (new_job_row p now)"
  by (auto simp: q_CreateJob_def row_of_insert split: option.splits)

lemma rows_created:
  assumes "q_CreateJob p now d = (Inr r, d')"
  shows "r = new_job_row p now \<and> row_of d (job_ID r) = None \<and> row_of d' (job_ID r) = Some r"
proof -
  have new: "row_of d (cj_ID p) = None" and d': "r = new_job_row p now" "d' = d\<lparr>tbl_jobs := tbl_jobs d @ [new_job_row p now]\<rparr>"
    using assms by (auto simp: q_CreateJob_def scanJob_def row_of_None split: if_splits)
  then show ?thesis by (simp add: row_of_insert)
qed

text \<open>What a claim returns is the row it changed.\<close>

lemma claimed_row:
  assumes "schema_ok d" and "sql_claim i wid now d = (Inr r, d')"
  obtains r0 where "row_of d i = Some r0" "job_Status r0 \<in> {StatusQueued, StatusRetrying}" "job_DeletedAt r0 = None"
    "job_ID r0 = i" "r = set_claimed wid now r0"
proof -
  let ?p = "\<lambda>r. job_ID r = i \<and> job_Status r \<in> {StatusQueued, StatusRetrying} \<and> job_DeletedAt r = None"
  have c: "fst (sql_claim i wid now d) = Inr r" using assms(2) by simp
  have "scanJob (map (set_claimed wid now) (filter ?p (tbl_jobs d)))
      = (case row_of d i of Some r \<Rightarrow> if ?p r then Inr (set_claimed wid now r) else Inl ErrNoRows | None \<Rightarrow> Inl ErrNoRows)"
    by (rule scanJob_by_ID [OF schema_ok_distinct [OF assms(1)]]) simp
  with c obtain r0 where "row_of d i = Some r0" "?p r0" "r = set_claimed wid now r0"
    by (auto simp: sql_claim_def update_jobs_returning_def split: option.splits if_splits)
  then show thesis using that by blast
qed

lemma claim_row:
  assumes "schema_ok d" and "sql_claim i wid now d = (Inr r, d')"
  shows "row_of d' i = Some r \<and> job_Status r = StatusProcessing"
proof -
  have d': "d' = snd (sql_claim i wid now d)" using assms(2) by simp
  obtain r0 where "row_of d i = Some r0" "job_Status r0 \<in> {StatusQueued, StatusRetrying}" "job_DeletedAt r0 = None"
    "job_ID r0 = i" "r = set_claimed wid now r0"
    using claimed_row [OF assms] by blast
  then show ?thesis by (simp add: d' rows_guarded) (simp add: set_claimed_def)
qed

section \<open>The invariant\<close>

text \<open>A job that is being created is pending; a job that was claimed is not, and its claim has its budget.\<close>

definition pinv :: "platform \<Rightarrow> bool" where
  "pinv s \<longleftrightarrow> schema_ok (pl_db s)
     \<and> (\<forall>i \<in> pl_creating s. \<exists>r. row_of (pl_db s) i = Some r \<and> job_Status r = StatusPending)
     \<and> (\<forall>i a m. (i, a, m) \<in> pl_held s \<longrightarrow> (\<exists>r. row_of (pl_db s) i = Some r \<and> job_Status r \<noteq> StatusPending \<and> job_MaxAttempts r = m))"

text \<open>No statement but the one that publishes it makes a pending row anything else, and none makes a row pending again.\<close>

definition pend_kept :: "uuid set \<Rightarrow> database \<Rightarrow> database \<Rightarrow> bool" where
  "pend_kept P d d' \<longleftrightarrow> (\<forall>j r. row_of d j = Some r \<longrightarrow> (\<exists>r'. row_of d' j = Some r' \<and> job_static r' = job_static r
     \<and> (j \<in> P \<longrightarrow> job_Status r = StatusPending \<longrightarrow> job_Status r' = StatusPending)
     \<and> (job_Status r \<noteq> StatusPending \<longrightarrow> job_Status r' \<noteq> StatusPending)))"

lemma pinv_kept:
  assumes "pinv s" and "schema_ok d'" and "pend_kept P (pl_db s) d'" and "P \<subseteq> pl_creating s" and "H \<subseteq> pl_held s"
  shows "pinv (s\<lparr>pl_db := d', pl_creating := P, pl_held := H\<rparr>)"
proof -
  have "\<exists>r. row_of d' i = Some r \<and> job_Status r = StatusPending" if "i \<in> P" for i
  proof -
    obtain r where "row_of (pl_db s) i = Some r" "job_Status r = StatusPending"
      using assms(1,4) \<open>i \<in> P\<close> unfolding pinv_def by blast
    then show ?thesis using assms(3) \<open>i \<in> P\<close> unfolding pend_kept_def by blast
  qed
  moreover have "\<exists>r. row_of d' i = Some r \<and> job_Status r \<noteq> StatusPending \<and> job_MaxAttempts r = m" if "(i, a, m) \<in> H" for i a m
  proof -
    obtain r where r: "row_of (pl_db s) i = Some r" "job_Status r \<noteq> StatusPending" "job_MaxAttempts r = m"
      using assms(1,5) \<open>(i, a, m) \<in> H\<close> unfolding pinv_def by blast
    then obtain r' where "row_of d' i = Some r'" "job_static r' = job_static r" "job_Status r' \<noteq> StatusPending"
      using assms(3) unfolding pend_kept_def by blast
    with r(3) show ?thesis by (auto dest: job_static_eqD(5))
  qed
  ultimately show ?thesis using assms(2) by (auto simp: pinv_def)
qed

lemma update_status_fields [simp]:
  "job_Status (set_cancelled t r) = StatusCancelled" "job_Status (reset_for_retry r) = StatusQueued"
  "job_Status (set_status x t r) = x" "job_Status (set_requeued r) = StatusQueued"
  "job_Status (set_expired_failed c e t r) = StatusFailed" "job_Status (set_claimed w t r) = StatusProcessing"
  "job_Status (set_succeeded y t r) = StatusSucceeded" "job_Status (set_worker_failed a c e t r) = StatusFailed"
  "job_Status (set_worker_requeued a c e r) = StatusQueued"
  by (simp_all add: row_update_defs set_claimed_def set_succeeded_def set_worker_failed_def set_worker_requeued_def)

lemma pend_kept_same: "row_of d' = row_of d \<Longrightarrow> pend_kept P d d'"
  by (simp add: pend_kept_def)

lemma pend_kept_upd:
  assumes "\<And>j. row_of d' j = row_of d j \<or> row_of d' j = map_option (\<lambda>r. if p r then f r else r) (row_of d j)"
    and "\<And>r. job_static (f r) = job_static r"
    and "\<And>j r. row_of d j = Some r \<Longrightarrow> p r \<Longrightarrow> j \<in> P \<Longrightarrow> job_Status r = StatusPending \<Longrightarrow> job_Status (f r) = StatusPending"
    and "\<And>r. job_Status r \<noteq> StatusPending \<Longrightarrow> job_Status (f r) \<noteq> StatusPending"
  shows "pend_kept P d d'"
  unfolding pend_kept_def
proof (intro allI impI)
  fix j r assume r: "row_of d j = Some r"
  from assms(1) [of j] consider "row_of d' j = Some r" | "p r" "row_of d' j = Some (f r)" using r by (auto split: if_splits)
  then show "\<exists>r'. row_of d' j = Some r' \<and> job_static r' = job_static r
     \<and> (j \<in> P \<longrightarrow> job_Status r = StatusPending \<longrightarrow> job_Status r' = StatusPending)
     \<and> (job_Status r \<noteq> StatusPending \<longrightarrow> job_Status r' \<noteq> StatusPending)"
  proof cases
    case 2
    then show ?thesis using assms(2-4) r by blast
  qed simp
qed

lemma rows_requeue: "row_of (snd (q_RequeueExpiredJob i now d)) j = row_of d j \<or> row_of (snd (q_RequeueExpiredJob i now d)) j =
     map_option (\<lambda>r. if job_ID r = i \<and> job_Status r = StatusProcessing then set_requeued r else r) (row_of d j)"
  using rows_counting(1) [of i now d j] by blast

lemma pend_kept_stmts:
  "pend_kept P d (snd (q_CancelJob i u now d))" "pend_kept P d (snd (q_RetryJob i u now d))"
  "pend_kept P d (snd (q_SoftDeleteJob i u now d))" "pend_kept P d (snd (q_RequeueExpiredJob i now d))"
  "pend_kept P d (snd (q_FailExpiredJob i c m now d))" "pend_kept P d (snd (sql_claim i wid now d))"
  "pend_kept P d (snd (sql_renew_lease i now d))" "pend_kept (P - {i}) d (snd (q_UpdateJobStatus i StatusQueued now d))"
  by (rule pend_kept_upd [OF disjI2 [OF rows_guarded(1)]], auto)
    (rule pend_kept_upd [OF disjI2 [OF rows_guarded(2)]], auto,
     rule pend_kept_upd [OF disjI2 [OF rows_guarded(4)]], auto,
     rule pend_kept_upd [OF rows_requeue], auto,
     rule pend_kept_upd [OF rows_counting(2)], auto,
     rule pend_kept_upd [OF disjI2 [OF rows_guarded(5)]], auto,
     rule pend_kept_upd [OF disjI2 [OF rows_guarded(6)]], auto,
     rule pend_kept_upd [OF disjI2 [OF rows_guarded(3)]], auto dest: row_of_ID)

lemma pend_kept_create: "pend_kept P d (snd (q_CreateJob p now d))"
  unfolding pend_kept_def
proof (intro allI impI)
  fix j r assume "row_of d j = Some r"
  then have "row_of (snd (q_CreateJob p now d)) j = Some r" using rows_create [of p now d j] by auto
  then show "\<exists>r'. row_of (snd (q_CreateJob p now d)) j = Some r' \<and> job_static r' = job_static r
     \<and> (j \<in> P \<longrightarrow> job_Status r = StatusPending \<longrightarrow> job_Status r' = StatusPending)
     \<and> (job_Status r \<noteq> StatusPending \<longrightarrow> job_Status r' \<noteq> StatusPending)" by simp
qed

text \<open>The unguarded statements of the worker touch claimed jobs only.\<close>

lemma pend_kept_held:
  assumes "pinv s" and "(i, a, m) \<in> pl_held s"
  shows "pend_kept P (pl_db s) (snd (sql_complete i x now (pl_db s)))" "pend_kept P (pl_db s) (snd (sql_fail i b c e now (pl_db s)))"
    "pend_kept P (pl_db s) (snd (sql_requeue i b c e now (pl_db s)))"
proof -
  obtain r0 where r0: "row_of (pl_db s) i = Some r0" "job_Status r0 \<noteq> StatusPending" using assms unfolding pinv_def by blast
  have no: False if "row_of (pl_db s) j = Some r" "job_ID r = i" "job_Status r = StatusPending" for j r
    using r0 that row_of_ID [OF that(1)] by simp
  show "pend_kept P (pl_db s) (snd (sql_complete i x now (pl_db s)))"
    by (rule pend_kept_upd [OF disjI2 [OF rows_guarded(7)]]) (auto dest: no)
  show "pend_kept P (pl_db s) (snd (sql_fail i b c e now (pl_db s)))"
    by (rule pend_kept_upd [OF rows_counting(3)]) (auto dest: no)
  show "pend_kept P (pl_db s) (snd (sql_requeue i b c e now (pl_db s)))"
    by (rule pend_kept_upd [OF rows_counting(4)]) (auto dest: no)
qed

lemma worker_row_ok:
  "job_row_ok r \<Longrightarrow> job_row_ok (set_claimed w t r)" "job_row_ok r \<Longrightarrow> job_row_ok (set_succeeded x t r)"
  "job_row_ok r \<Longrightarrow> in_int32 a \<Longrightarrow> job_row_ok (set_worker_failed a c e t r)"
  "job_row_ok r \<Longrightarrow> in_int32 a \<Longrightarrow> job_row_ok (set_worker_requeued a c e r)"
  "job_row_ok r \<Longrightarrow> job_row_ok (r\<lparr>job_LeaseExpiresAt := y\<rparr>)"
  by (simp_all add: job_row_ok_def set_claimed_def set_succeeded_def set_worker_failed_def set_worker_requeued_def)

lemma schema_ok_worker:
  assumes "schema_ok d"
  shows "schema_ok (snd (sql_claim i wid now d))" "schema_ok (snd (sql_renew_lease i now d))" "schema_ok (snd (sql_complete i x now d))"
    "schema_ok (snd (sql_fail i a c e now d))" "schema_ok (snd (sql_requeue i a c e now d))"
  using assms by (auto simp: worker_stmt_defs intro!: schema_ok_update_returning worker_row_ok)

lemma schema_ok_inserts:
  assumes "schema_ok d"
  shows "schema_ok (snd (sql_insert_transcript t now d))" "schema_ok (snd (sql_insert_segment s now d))"
    "schema_ok (snd (sql_insert_segments g now d))"
proof -
  have row: "schema_ok (snd (sql_insert_segment s now d))" if "schema_ok d" for s now d
    using that by (auto simp: sql_insert_segment_def schema_defs intro: rev_image_eqI)
  show "schema_ok (snd (sql_insert_transcript t now d))"
    using assms by (auto simp: sql_insert_transcript_def schema_defs intro: rev_image_eqI)
  show "schema_ok (snd (sql_insert_segment s now d))" using assms by (rule row)
  show "schema_ok (snd (sql_insert_segments g now d))"
    using row assms by (rule sql_insert_segments_keeps [where Q = schema_ok])
qed

text \<open>For a step that only changes the database.\<close>

lemma pinv_db:
  assumes "pinv s" and "schema_ok d'" and "pend_kept (pl_creating s) (pl_db s) d'"
  shows "pinv (s\<lparr>pl_db := d'\<rparr>)"
  using pinv_kept [OF assms order_refl order_refl] by simp

lemma pinv_schema: "pinv s \<Longrightarrow> schema_ok (pl_db s)"
  by (simp add: pinv_def)

lemmas kept_intros = pend_kept_stmts pend_kept_create pend_kept_held pend_kept_same [OF rows_same(1)] pend_kept_same [OF rows_same(2)]
  pend_kept_same [OF rows_same(3)] schema_ok_worker schema_ok_inserts schema_ok_CreateJob schema_ok_CancelJob schema_ok_RetryJob
  schema_ok_SoftDeleteJob schema_ok_RequeueExpiredJob schema_ok_FailExpiredJob schema_ok_CreateJobEvent

lemma pstep_pinv:
  assumes "pstep wt rt s l s'" and "pinv s"
  shows "pinv s'"
  using assms
proof (cases rule: pstep.cases)
  case (create p now r d)
  have d: "d = snd (q_CreateJob p now (pl_db s))" using create(4) by simp
  have r: "row_of d (job_ID r) = Some r" "job_Status r = StatusPending" using rows_created [OF create(4)] create(3) by auto
  have "pinv (s\<lparr>pl_db := d\<rparr>)"
    using assms(2) by (intro pinv_db) (simp_all add: d pend_kept_create schema_ok_CreateJob pinv_def)
  with r show ?thesis by (auto simp: create(2) pinv_def)
next
  case (publish i now)
  have "schema_ok (snd (q_UpdateJobStatus i StatusQueued now (pl_db s)))" using assms(2) by (simp add: pinv_def schema_ok_UpdateJobStatus)
  then show ?thesis unfolding publish(2)
    using pinv_kept [OF assms(2) _ pend_kept_stmts(8), of i now "pl_creating s" "pl_held s"] by simp
next
  case (abandon i)
  then show ?thesis using assms(2) by (simp add: pinv_def)
next
  case (claim i wid now r d)
  have d: "d = snd (sql_claim i wid now (pl_db s))" using claim(3) by simp
  have r: "row_of d i = Some r" "job_Status r = StatusProcessing" using claim_row [OF _ claim(3)] assms(2) by (auto simp: pinv_def)
  have "pinv (s\<lparr>pl_db := d\<rparr>)"
    using assms(2) by (intro pinv_db) (simp_all add: d pend_kept_stmts schema_ok_worker pinv_def)
  with r show ?thesis by (auto simp: claim(2) pinv_def)
next
  case (claim_lost i wid now r d)
  then have "d = snd (sql_claim i wid now (pl_db s))" by simp
  then show ?thesis unfolding claim_lost(2)
    by (metis pinv_db [OF assms(2)] pend_kept_stmts(6) schema_ok_worker(1) pinv_schema [OF assms(2)])
next
  case (drop h)
  then show ?thesis using assms(2) by (simp add: pinv_def) blast
next
  case (account d)
  have "schema_ok d" using api_stmt_schema_ok [OF account(3) pinv_schema [OF assms(2)]] .
  then show ?thesis unfolding account(2) by (rule pinv_db [OF assms(2) _ pend_kept_same [OF rows_same(4) [OF account(4)]]])
qed (use assms(2) in \<open>simp_all, (blast intro!: pinv_db intro: pinv_schema kept_intros)+\<close>)

lemma prun_pinv: "prun wt rt s ls s' \<Longrightarrow> pinv s \<Longrightarrow> pinv s'"
  by (induction rule: prun.induct) (auto intro: pstep_pinv)

section \<open>How a job moves\<close>

text \<open>The moves of one job under fresh claims: its status, and the attempts that go with it. \<open>b\<close> says that whoever puts a
  job back in line does so within its budget.\<close>

inductive moves :: "bool \<Rightarrow> uuid \<Rightarrow> label \<Rightarrow> db_Job \<Rightarrow> db_Job \<Rightarrow> bool" for b i l r r' where
  stay: "l \<noteq> Claimed i \<Longrightarrow> job_Status r' = job_Status r \<Longrightarrow> job_Attempts r' = job_Attempts r \<Longrightarrow> moves b i l r r'"
| publish: "l = Other \<Longrightarrow> job_Status r = StatusPending \<Longrightarrow> job_Status r' = StatusQueued
    \<Longrightarrow> job_Attempts r' = job_Attempts r \<Longrightarrow> moves b i l r r'"
| cancel: "l = Other \<Longrightarrow> job_Status r \<in> {StatusQueued, StatusProcessing} \<Longrightarrow> job_Status r' = StatusCancelled \<Longrightarrow> moves b i l r r'"
| retry: "l = Retried i \<Longrightarrow> job_Status r = StatusFailed \<Longrightarrow> job_Status r' = StatusQueued \<Longrightarrow> moves b i l r r'"
| claim: "l = Claimed i \<Longrightarrow> job_Status r \<in> {StatusQueued, StatusRetrying} \<Longrightarrow> job_Status r' = StatusProcessing
    \<Longrightarrow> job_Attempts r' = job_Attempts r \<Longrightarrow> moves b i l r r'"
| again: "l = Other \<Longrightarrow> job_Status r = StatusProcessing \<Longrightarrow> job_Status r' = StatusQueued \<Longrightarrow> job_Attempts r' = job_Attempts r + 1
    \<Longrightarrow> (b \<Longrightarrow> job_Attempts r + 1 < job_MaxAttempts r) \<Longrightarrow> moves b i l r r'"
| finish: "l = Other \<Longrightarrow> job_Status r = StatusProcessing \<Longrightarrow> job_Status r' \<in> {StatusSucceeded, StatusFailed} \<Longrightarrow> moves b i l r r'"

definition step_moves :: "bool \<Rightarrow> label \<Rightarrow> database \<Rightarrow> database \<Rightarrow> bool" where
  "step_moves b l d d' \<longleftrightarrow>
     (\<forall>j r. row_of d j = Some r \<longrightarrow> (\<exists>r'. row_of d' j = Some r' \<and> job_static r' = job_static r \<and> moves b j l r r'))
     \<and> (\<forall>j r'. row_of d j = None \<longrightarrow> row_of d' j = Some r' \<longrightarrow> job_Status r' = StatusPending \<and> l = Other)
     \<and> (\<forall>j. l = Claimed j \<longrightarrow> row_of d j \<noteq> None)"

lemma step_moves_upd:
  assumes "\<And>j. row_of d' j = row_of d j \<or> row_of d' j = map_option (\<lambda>r. if p r then f r else r) (row_of d j)"
    and "\<And>r. job_static (f r) = job_static r"
    and "\<And>j r. row_of d j = Some r \<Longrightarrow> row_of d' j = Some (f r) \<Longrightarrow> p r \<Longrightarrow> moves b j l r (f r)"
    and "\<And>j. l = Claimed j \<Longrightarrow> \<exists>r. row_of d j = Some r \<and> p r \<and> row_of d' j = Some (f r)"
  shows "step_moves b l d d'"
  unfolding step_moves_def
proof (intro conjI allI impI)
  fix j r assume r: "row_of d j = Some r"
  from assms(1) [of j] consider "l \<noteq> Claimed j" "row_of d' j = Some r" | "p r" "row_of d' j = Some (f r)"
    using r assms(4) [of j] by (auto split: if_splits)
  then show "\<exists>r'. row_of d' j = Some r' \<and> job_static r' = job_static r \<and> moves b j l r r'"
  proof cases
    case 2
    then show ?thesis using assms(2,3) r by blast
  qed (simp add: moves.stay)
next
  fix j r' assume "row_of d j = None" "row_of d' j = Some r'"
  then show "job_Status r' = StatusPending" "l = Other" using assms(1) [of j] by auto
next
  fix j assume "l = Claimed j"
  then show "row_of d j \<noteq> None" using assms(4) by auto
qed

lemma step_moves_same: "row_of d' = row_of d \<Longrightarrow> step_moves b Other d d'"
  by (simp add: step_moves_def moves.stay)

lemma update_attempts_fields [simp]:
  "job_Attempts (set_requeued r) = job_Attempts r + 1" "job_Attempts (set_claimed w t r) = job_Attempts r"
  "job_Attempts (set_worker_requeued a c e r) = a" "job_Attempts (set_status x t r) = job_Attempts r"
  by (simp_all add: set_requeued_def set_claimed_def set_worker_requeued_def set_status_def)

lemma step_moves_stmts:
  "step_moves b Other d (snd (q_CancelJob i u now d))" "step_moves b (Retried i) d (snd (q_RetryJob i u now d))"
  "step_moves b Other d (snd (q_SoftDeleteJob i u now d))" "step_moves b Other d (snd (q_FailExpiredJob i c m now d))"
  "step_moves b Other d (snd (sql_renew_lease i now d))"
  by (rule step_moves_upd [OF disjI2 [OF rows_guarded(1)]], auto intro: moves.cancel)
    (rule step_moves_upd [OF disjI2 [OF rows_guarded(2)]], auto intro: moves.retry dest: row_of_ID,
     rule step_moves_upd [OF disjI2 [OF rows_guarded(4)]], auto intro: moves.stay,
     rule step_moves_upd [OF rows_counting(2)], auto intro: moves.finish,
     rule step_moves_upd [OF disjI2 [OF rows_guarded(6)]], auto intro: moves.stay)

lemma step_moves_claim:
  assumes "schema_ok d" and "sql_claim i wid now d = (Inr r, d')"
  shows "step_moves b (Claimed i) d d'"
proof -
  have d': "d' = snd (sql_claim i wid now d)" using assms(2) by simp
  obtain r0 where r0: "row_of d i = Some r0" "job_Status r0 \<in> {StatusQueued, StatusRetrying}" "job_DeletedAt r0 = None"
    using claimed_row [OF assms] by blast
  show ?thesis unfolding d'
    by (rule step_moves_upd [OF disjI2 [OF rows_guarded(5)]])
      (use r0 in \<open>auto intro: moves.claim simp: rows_guarded row_of_ID\<close>)
qed

lemma step_moves_create:
  assumes "cj_Status p = StatusPending"
  shows "step_moves b Other d (snd (q_CreateJob p now d))"
  unfolding step_moves_def
proof (intro conjI allI impI)
  fix j r assume "row_of d j = Some r"
  then have "row_of (snd (q_CreateJob p now d)) j = Some r" using rows_create [of p now d j] by auto
  then show "\<exists>r'. row_of (snd (q_CreateJob p now d)) j = Some r' \<and> job_static r' = job_static r \<and> moves b j Other r r'"
    by (simp add: moves.stay)
next
  fix j r' assume "row_of d j = None" "row_of (snd (q_CreateJob p now d)) j = Some r'"
  then show "job_Status r' = StatusPending" using rows_create [of p now d j] assms by auto
qed simp_all

lemma step_moves_publish:
  assumes "row_of d i = Some r0" and "job_Status r0 = StatusPending"
  shows "step_moves b Other d (snd (q_UpdateJobStatus i StatusQueued now d))"
proof (rule step_moves_upd [OF disjI2 [OF rows_guarded(3)]])
  fix j r assume r: "row_of d j = Some r" and p: "job_ID r = i \<and> job_DeletedAt r = None"
  from row_of_ID [OF r] p assms(1) r have "r = r0" by simp
  with assms(2) show "moves b j Other r (set_status StatusQueued now r)" by (simp add: moves.publish)
qed simp_all

lemma step_moves_requeue:
  assumes "\<not> budget_spent a m" and "b \<Longrightarrow> fresh i a m d"
  shows "step_moves b Other d (snd (q_RequeueExpiredJob i now d))"
proof (rule step_moves_upd [OF rows_requeue])
  fix j r
  assume r: "row_of d j = Some r" and r': "row_of (snd (q_RequeueExpiredJob i now d)) j = Some (set_requeued r)"
    and p: "job_ID r = i \<and> job_Status r = StatusProcessing"
  from row_of_ID [OF r] p have j: "j = i" by simp
  have "set_requeued r \<noteq> r" using p by (metis update_status_fields(4) status_neq(8))
  with r r' rows_counting(1) [of i now d j] p j have fit: "in_int32 (job_Attempts r + 1)" by auto
  show "moves b j Other r (set_requeued r)"
  proof (rule moves.again)
    assume b
    then have "job_Attempts r = a" "job_MaxAttempts r = m" using assms(2) r p j unfolding fresh_def by blast+
    with assms(1) fit show "job_Attempts r + 1 < job_MaxAttempts r" by (simp add: budget_spent_def)
  qed (use p in simp_all)
qed simp_all

text \<open>A step touches one job.\<close>

lemma row_other: "j \<noteq> i \<Longrightarrow> map_option (\<lambda>r. if job_ID r = i \<and> p r then f r else r) (row_of d j) = row_of d j"
  "j \<noteq> i \<Longrightarrow> map_option (\<lambda>r. if job_ID r = i then f r else r) (row_of d j) = row_of d j"
  by (cases "row_of d j"; auto dest: row_of_ID)+

lemma rows_other:
  assumes "j \<noteq> i"
  shows "row_of (snd (q_CancelJob i u now d)) j = row_of d j" "row_of (snd (q_RetryJob i u now d)) j = row_of d j"
    "row_of (snd (q_UpdateJobStatus i StatusQueued now d)) j = row_of d j" "row_of (snd (q_SoftDeleteJob i u now d)) j = row_of d j"
    "row_of (snd (sql_claim i wid now d)) j = row_of d j" "row_of (snd (sql_renew_lease i now d)) j = row_of d j"
    "row_of (snd (sql_complete i x now d)) j = row_of d j" "row_of (snd (q_RequeueExpiredJob i now d)) j = row_of d j"
    "row_of (snd (q_FailExpiredJob i c m now d)) j = row_of d j" "row_of (snd (sql_fail i a c m now d)) j = row_of d j"
    "row_of (snd (sql_requeue i a c m now d)) j = row_of d j"
  using rows_counting(1) [of i now d j] rows_counting(2) [of i c m now d j] rows_counting(3) [of i a c m now d j]
    rows_counting(4) [of i a c m now d j] by (auto simp: rows_guarded row_other [OF assms])

lemma rows_create_other: "j \<noteq> cj_ID p \<Longrightarrow> row_of (snd (q_CreateJob p now d)) j = row_of d j"
  using rows_create [of p now d j] by blast

lemma pstep_one: "pstep wt rt s l s' \<Longrightarrow> \<exists>i. \<forall>j. j \<noteq> i \<longrightarrow> row_of (pl_db s') j = row_of (pl_db s) j"
proof (induction rule: pstep.induct)
  case (create p now s r d)
  then show ?case using rows_create_other [of _ p now "pl_db s"] by auto
next
  case (claim i wid now s r d)
  then show ?case using rows_other(5) [of _ i wid now "pl_db s"] by auto
next
  case (claim_lost i wid now s r d)
  then show ?case using rows_other(5) [of _ i wid now "pl_db s"] by auto
next
  case (account s d)
  then show ?case using rows_same(4) [of d "pl_db s"] by simp
qed (simp_all add: rows_same(1-3), (blast intro: rows_other rows_create_other)+)

text \<open>A worker whose claim stands.\<close>

lemma step_moves_standing:
  assumes st: "standing i a d"
  shows "step_moves b Other d (snd (sql_complete i x now d))" "step_moves b Other d (snd (sql_fail i (a + 1) c e now d))"
    "row_of d i = Some r0 \<Longrightarrow> a + 1 < job_MaxAttempts r0 \<Longrightarrow> step_moves b Other d (snd (sql_requeue i (a + 1) c e now d))"
proof -
  have row: "job_Status r = StatusProcessing \<and> job_Attempts r = a" if "row_of d j = Some r" "job_ID r = i" for j r
    using st that row_of_ID [OF that(1)] by (auto simp: standing_def)
  show "step_moves b Other d (snd (sql_complete i x now d))"
    by (rule step_moves_upd [OF disjI2 [OF rows_guarded(7)]]) (auto intro: moves.finish dest: row)
  show "step_moves b Other d (snd (sql_fail i (a + 1) c e now d))"
    by (rule step_moves_upd [OF rows_counting(3)]) (auto intro: moves.finish dest: row)
  show "step_moves b Other d (snd (sql_requeue i (a + 1) c e now d))" if "row_of d i = Some r0" "a + 1 < job_MaxAttempts r0"
  proof (rule step_moves_upd [OF rows_counting(4)])
    fix j r assume r: "row_of d j = Some r" "job_ID r = i"
    then have "r = r0" using that(1) row_of_ID [OF r(1)] by simp
    with row [OF r] that(2) show "moves b j Other r (set_worker_requeued (a + 1) c e r)" by (intro moves.again) simp_all
  qed simp_all
qed

lemmas moves_intros = step_moves_stmts step_moves_create step_moves_requeue step_moves_standing(1,2) step_moves_same [OF rows_same(1)]
  step_moves_same [OF rows_same(2)] step_moves_same [OF rows_same(3)]

lemma pstep_moves:
  assumes "pstep True rt s l s'" and "pinv s"
  shows "step_moves rt l (pl_db s) (pl_db s')"
  using assms(1)
proof (cases rule: pstep.cases)
  case (create p now r d)
  have "d = snd (q_CreateJob p now (pl_db s))" using create(4) by simp
  then show ?thesis using create(1-3) step_moves_create by simp
next
  case (publish i now)
  then obtain r where "row_of (pl_db s) i = Some r" "job_Status r = StatusPending" using assms(2) by (auto simp: pinv_def)
  then show ?thesis using publish(1,2) step_moves_publish by simp
next
  case (claim i wid now r d)
  then show ?thesis using step_moves_claim [OF pinv_schema [OF assms(2)] claim(3)] by simp
next
  case (claim_lost i wid now r d)
  then show ?thesis using step_moves_claim [OF pinv_schema [OF assms(2)] claim_lost(3)] by simp
next
  case (account d)
  then show ?thesis using step_moves_same [OF rows_same(4)] by simp
next
  case (give_back i a m c e now)
  then obtain r where r: "row_of (pl_db s) i = Some r" "job_MaxAttempts r = m" using assms(2) unfolding pinv_def by blast
  have "standing i a (pl_db s)" using give_back by simp
  then show ?thesis using give_back(1,2,5) r step_moves_standing(3) [of i a "pl_db s" r] by simp
qed (simp_all add: step_moves_same, (blast intro: moves_intros)+)

end
