(* ===== verification/Lifecycle.thy ===== *)
theory Lifecycle
  imports Platform
begin

text \<open>
  What the platform promises of a job, whatever its processes do and however they interleave: its status
  follows the table \<open>transitions\<close> of \<open>src/api/internal/job/job.go\<close>, and it is tried a bounded number of times. And what
  it does not promise once a worker acts on a claim that no longer stands.
\<close>

section \<open>The specification\<close>

text \<open>One job: it appears as pending, moves along the table, or is put back by its user. All jobs: one of them
  moves.\<close>

inductive job_step :: "Status option \<Rightarrow> Status option \<Rightarrow> bool" where
  appear: "job_step None (Some StatusPending)"
| table: "CanTransition s t \<Longrightarrow> job_step (Some s) (Some t)"
| user_retry: "job_step (Some StatusFailed) (Some StatusQueued)"

inductive life :: "(uuid \<rightharpoonup> Status) \<Rightarrow> (uuid \<rightharpoonup> Status) \<Rightarrow> bool" where
  one: "job_step (m i) x \<Longrightarrow> life m (m(i := x))"

definition status_map :: "database \<Rightarrow> uuid \<rightharpoonup> Status" where
  "status_map d i = map_option job_Status (row_of d i)"

lemma table_edges:
  "CanTransition StatusPending StatusQueued" "CanTransition StatusQueued StatusProcessing" "CanTransition StatusQueued StatusCancelled"
  "CanTransition StatusProcessing StatusSucceeded" "CanTransition StatusProcessing StatusFailed"
  "CanTransition StatusProcessing StatusRetrying" "CanTransition StatusProcessing StatusCancelled"
  "CanTransition StatusRetrying StatusQueued" "\<not> CanTransition StatusCancelled t" "\<not> CanTransition StatusSucceeded t"
  by (simp_all add: CanTransition_set transitions_def)

lemma table_path: "CanTransition s t \<Longrightarrow> job_step\<^sup>*\<^sup>* (Some t) x \<Longrightarrow> job_step\<^sup>*\<^sup>* (Some s) x"
  by (meson converse_rtranclp_into_rtranclp job_step.table)

text \<open>Every move is a path of the specification. Putting a job back in line passes through \<open>retrying\<close>, which is never
  stored; claiming a retrying job passes through \<open>queued\<close>.\<close>

lemma moves_path: "moves b i l r r' \<Longrightarrow> job_step\<^sup>*\<^sup>* (Some (job_Status r)) (Some (job_Status r'))"
proof (induction rule: moves.induct)
  case claim
  then show ?case using table_path [OF table_edges(8)] table_path [OF table_edges(2)] by auto
next
  case again
  then show ?case using table_path [OF table_edges(6)] table_path [OF table_edges(8)] by auto
next
  case retry
  then show ?case by (auto intro: job_step.user_retry)
qed (auto intro!: r_into_rtranclp job_step.table intro: table_edges)

lemma life_point: "job_step\<^sup>*\<^sup>* (m i) x \<Longrightarrow> life\<^sup>*\<^sup>* m (m(i := x))"
proof (induction rule: rtranclp_induct)
  case (step x y)
  have last: "life (m(i := x)) (m(i := x, i := y))" by (rule life.one) (use step(2) in simp)
  from step(3) have "life\<^sup>*\<^sup>* m (m(i := x, i := y))"
    by (rule rtranclp.rtrancl_into_rtrancl) (rule last)
  then show ?case by (simp only: fun_upd_upd)
qed (simp only: fun_upd_triv rtranclp.rtrancl_refl)

lemma life_points:
  assumes "finite D" and "\<And>i. i \<notin> D \<Longrightarrow> m' i = m i" and "\<And>i. job_step\<^sup>*\<^sup>* (m i) (m' i)"
  shows "life\<^sup>*\<^sup>* m m'"
  using assms
proof (induction arbitrary: m' rule: finite_induct)
  case empty
  then have "m' = m" by auto
  then show ?case by simp
next
  case (insert j D)
  let ?m = "m'(j := m j)"
  have "life\<^sup>*\<^sup>* m ?m" using insert.prems by (intro insert.IH) auto
  moreover have "life\<^sup>*\<^sup>* ?m (?m(j := m' j))" using insert.prems(2) [of j] by (intro life_point) simp
  ultimately show ?case by simp
qed

lemma finite_rows: "finite {j. row_of d j \<noteq> None}"
  by (rule finite_subset [of _ "job_ID ` set (tbl_jobs d)"]) (auto simp: row_of_None)

lemma step_moves_life:
  assumes "step_moves b l d d'"
  shows "life\<^sup>*\<^sup>* (status_map d) (status_map d')"
proof (rule life_points)
  show "finite ({j. row_of d j \<noteq> None} \<union> {j. row_of d' j \<noteq> None})" using finite_rows by blast
  show "job_step\<^sup>*\<^sup>* (status_map d i) (status_map d' i)" for i
  proof (cases "row_of d i")
    case None
    then show ?thesis using assms by (cases "row_of d' i") (auto simp: step_moves_def status_map_def intro: job_step.appear)
  next
    case (Some r)
    then obtain r' where "row_of d' i = Some r'" "moves b i l r r'" using assms unfolding step_moves_def by blast
    then show ?thesis using moves_path Some by (simp add: status_map_def)
  qed
qed (simp add: status_map_def)

lemma prun_life: "prun True rt s ls s' \<Longrightarrow> pinv s \<Longrightarrow> life\<^sup>*\<^sup>* (status_map (pl_db s)) (status_map (pl_db s'))"
proof (induction rule: prun.induct)
  case (more s ls t l u)
  have "pinv t" using prun_pinv [OF more(1,4)] .
  then have "life\<^sup>*\<^sup>* (status_map (pl_db t)) (status_map (pl_db u))"
    using pstep_moves [OF more(2)] step_moves_life by blast
  with more show ?case by simp
qed simp

section \<open>Every single step\<close>

text \<open>What one step of the platform may do to the status of a job, with the label of the step: let it appear as pending; take an edge of the
  table, to \<open>processing\<close> by a claim of this job and to any other status by a step that is neither a claim nor a user's retry; put it back in line
  through \<open>retrying\<close>, which is entered and left in one statement; or undo a failure at its user's request.\<close>

inductive job_move :: "label \<Rightarrow> uuid \<Rightarrow> Status option \<Rightarrow> Status option \<Rightarrow> bool" for l i where
  appears: "l = Other \<Longrightarrow> job_move l i None (Some StatusPending)"
| edge: "CanTransition s t \<Longrightarrow> s \<noteq> StatusRetrying \<Longrightarrow> t \<noteq> StatusRetrying \<Longrightarrow>
    l = (if t = StatusProcessing then Claimed i else Other) \<Longrightarrow> job_move l i (Some s) (Some t)"
| through_retrying: "CanTransition s StatusRetrying \<Longrightarrow> CanTransition StatusRetrying t \<Longrightarrow> l = Other \<Longrightarrow> job_move l i (Some s) (Some t)"
| undone: "l = Retried i \<Longrightarrow> job_move l i (Some StatusFailed) (Some StatusQueued)"

text \<open>One job moves, or none; a claim always moves its job.\<close>

inductive life_step :: "label \<Rightarrow> (uuid \<rightharpoonup> Status) \<Rightarrow> (uuid \<rightharpoonup> Status) \<Rightarrow> bool" for l m where
  rest: "(\<And>i. l \<noteq> Claimed i) \<Longrightarrow> life_step l m m"
| move: "job_move l i (m i) x \<Longrightarrow> life_step l m (m(i := x))"

inductive life_run :: "(uuid \<rightharpoonup> Status) \<Rightarrow> label list \<Rightarrow> (uuid \<rightharpoonup> Status) \<Rightarrow> bool" for m where
  start: "life_run m [] m"
| then_step: "life_run m ls m1 \<Longrightarrow> life_step l m1 m2 \<Longrightarrow> life_run m (ls @ [l]) m2"

definition none_retrying :: "database \<Rightarrow> bool" where
  "none_retrying d \<longleftrightarrow> StatusRetrying \<notin> ran (status_map d)"

lemma none_retrying_iff: "none_retrying d \<longleftrightarrow> (\<forall>i r. row_of d i = Some r \<longrightarrow> job_Status r \<noteq> StatusRetrying)"
  by (auto simp: none_retrying_def ran_def status_map_def)

lemma moves_job_move:
  assumes "moves b i l r r'" and "job_Status r \<noteq> StatusRetrying"
  shows "job_Status r' \<noteq> StatusRetrying"
    and "job_Status r' = job_Status r \<and> l \<noteq> Claimed i \<or> job_move l i (Some (job_Status r)) (Some (job_Status r'))"
proof -
  show "job_Status r' \<noteq> StatusRetrying" using assms by cases auto
  show "job_Status r' = job_Status r \<and> l \<noteq> Claimed i \<or> job_move l i (Some (job_Status r)) (Some (job_Status r'))"
    using assms(1)
  proof cases
    case again
    then show ?thesis using job_move.through_retrying [OF table_edges(6,8)] by simp
  next
    case retry
    then show ?thesis by (simp add: job_move.undone)
  qed (use assms(2) table_edges in \<open>auto intro!: job_move.edge\<close>)
qed

lemma step_moves_job_move:
  assumes "step_moves b l d d'" and "none_retrying d"
  shows "none_retrying d'" and "status_map d' i = status_map d i \<and> l \<noteq> Claimed i \<or> job_move l i (status_map d i) (status_map d' i)"
proof -
  have row: "\<exists>r'. row_of d' j = Some r' \<and> moves b j l r r'" if "row_of d j = Some r" for j r
    using assms(1) that unfolding step_moves_def by blast
  have new: "job_Status r' = StatusPending \<and> l = Other" if "row_of d j = None" "row_of d' j = Some r'" for j r'
    using assms(1) that unfolding step_moves_def by blast
  show "none_retrying d'" unfolding none_retrying_iff
  proof (intro allI impI)
    fix j r' assume r': "row_of d' j = Some r'"
    show "job_Status r' \<noteq> StatusRetrying"
    proof (cases "row_of d j")
      case (Some r)
      then show ?thesis using row r' moves_job_move(1) assms(2) by (fastforce simp: none_retrying_iff)
    qed (use new r' in simp)
  qed
  have claimed: "row_of d i \<noteq> None" if "l = Claimed i" using assms(1) that unfolding step_moves_def by blast
  show "status_map d' i = status_map d i \<and> l \<noteq> Claimed i \<or> job_move l i (status_map d i) (status_map d' i)"
  proof (cases "row_of d i")
    case None
    show ?thesis
    proof (cases "row_of d' i")
      case (Some r')
      then show ?thesis using new [OF None] None by (simp add: status_map_def job_move.appears)
    qed (use None claimed in \<open>auto simp: status_map_def\<close>)
  next
    case (Some r)
    then obtain r' where r': "row_of d' i = Some r'" "moves b i l r r'" using row by blast
    then show ?thesis using moves_job_move(2) [OF r'(2)] Some assms(2) by (auto simp: status_map_def none_retrying_iff)
  qed
qed

lemma pstep_life_step:
  assumes "pstep True rt s l s'" and "pinv s" and "none_retrying (pl_db s)"
  shows "none_retrying (pl_db s')" and "life_step l (status_map (pl_db s)) (status_map (pl_db s'))"
proof -
  let ?m = "status_map (pl_db s)" and ?m' = "status_map (pl_db s')"
  note sm = step_moves_job_move [OF pstep_moves [OF assms(1,2)] assms(3)]
  show "none_retrying (pl_db s')" by (rule sm(1))
  obtain i where rows: "\<forall>j. j \<noteq> i \<longrightarrow> row_of (pl_db s') j = row_of (pl_db s) j" using pstep_one [OF assms(1)] by blast
  have i: "?m' j = ?m j" if "j \<noteq> i" for j using rows that by (simp add: status_map_def)
  have m': "?m' = ?m(i := ?m' i)" using i by (auto simp: fun_eq_iff)
  have other: "l \<noteq> Claimed j" if "j \<noteq> i" for j
    using sm(2) [of j] i [OF that] by (auto elim!: job_move.cases simp: CanTransition_set transitions_def split: if_splits)
  show "life_step l ?m ?m'"
  proof (cases "job_move l i (?m i) (?m' i)")
    case True
    then show ?thesis using life_step.move m' by metis
  next
    case False
    then have "?m' i = ?m i" "l \<noteq> Claimed i" using sm(2) [of i] by auto
    then have "?m' = ?m" "\<And>j. l \<noteq> Claimed j" using m' other by (auto simp: fun_eq_iff)
    then show ?thesis using life_step.rest by metis
  qed
qed

lemma prun_life_run:
  "prun True rt s ls s' \<Longrightarrow> pinv s \<Longrightarrow> none_retrying (pl_db s) \<Longrightarrow>
    life_run (status_map (pl_db s)) ls (status_map (pl_db s')) \<and> none_retrying (pl_db s')"
proof (induction rule: prun.induct)
  case (more s ls t l u)
  have "pinv t" using prun_pinv [OF more(1,4)] .
  with more pstep_life_step [OF more(2)] show ?case by (auto intro: life_run.then_step)
qed (simp add: life_run.start)

section \<open>No move is missing from the platform\<close>

definition sample_platform :: "Status \<Rightarrow> (uuid \<times> int \<times> int) set \<Rightarrow> platform" where
  "sample_platform s H = \<lparr>pl_db = sample_db s, pl_creating = {}, pl_held = H\<rparr>"

lemma sample_row: "row_of (sample_db s) 7 = Some (sample_job s)"
  by (simp add: row_of_def sample_db_def sample_job_def)

lemma sample_pinv: "pinv (sample_platform StatusQueued {})" "pinv (sample_platform StatusProcessing {(7, 0, 3)})"
  using sample_schema [of StatusQueued] sample_schema [of StatusProcessing] sample_row [of StatusProcessing]
  by (simp_all add: pinv_def sample_platform_def) (simp add: sample_job_def)

lemma sample_pinv_any: "st \<in> set all_statuses \<Longrightarrow> pinv (sample_platform st {})" "pinv ((sample_platform StatusPending {})\<lparr>pl_creating := {7}\<rparr>)"
  using sample_schema [of st] sample_schema [of StatusPending] sample_row [of StatusPending]
  by (simp_all add: pinv_def sample_platform_def) (simp add: sample_job_def)

text \<open>The changes of status that some step of the platform makes.\<close>

definition stored_move :: "Status option \<Rightarrow> Status option \<Rightarrow> bool" where
  "stored_move x y \<longleftrightarrow> x \<noteq> y \<and> (\<exists>rt s l s' i. pstep True rt s l s' \<and> pinv s \<and> none_retrying (pl_db s)
     \<and> status_map (pl_db s) i = x \<and> status_map (pl_db s') i = y)"

lemma stored_moveI:
  assumes "pstep True False s l s'" and "pinv s" and "pl_db s = sample_db st" and "st \<noteq> StatusRetrying" and "st \<noteq> t"
    and "status_map (pl_db s') 7 = Some t"
  shows "stored_move (Some st) (Some t)"
proof -
  have "none_retrying (pl_db s)" using assms(3,4) by (auto simp: none_retrying_iff row_of_def sample_db_def sample_job_def split: if_splits)
  moreover have "status_map (pl_db s) 7 = Some st" using assms(3) by (simp add: status_map_def sample_row) (simp add: sample_job_def)
  ultimately show ?thesis using assms(1,2,5,6) unfolding stored_move_def by blast
qed

lemma moves_stored:
  "stored_move (Some StatusPending) (Some StatusQueued)" "stored_move (Some StatusQueued) (Some StatusProcessing)"
  "stored_move (Some StatusQueued) (Some StatusCancelled)" "stored_move (Some StatusProcessing) (Some StatusSucceeded)"
  "stored_move (Some StatusProcessing) (Some StatusFailed)" "stored_move (Some StatusProcessing) (Some StatusCancelled)"
  "stored_move (Some StatusProcessing) (Some StatusQueued)" "stored_move (Some StatusFailed) (Some StatusQueued)"
proof -
  let ?s = "\<lambda>st. sample_platform st {}"
  note defs = sample_platform_def status_map_def sample_row rows_guarded
  show "stored_move (Some StatusPending) (Some StatusQueued)"
    by (rule stored_moveI [OF pstep.publish [where i = 7 and now = 0] sample_pinv_any(2)]) (simp_all add: defs, simp add: sample_job_def)
  have "\<exists>r d. sql_claim 7 ''w'' 0 (sample_db StatusQueued) = (Inr r, d)"
    by (simp add: sql_claim_def update_jobs_returning_def sample_db_def scanJob_def) (simp add: sample_job_def)
  then obtain r d where c: "sql_claim 7 ''w'' 0 (sample_db StatusQueued) = (Inr r, d)" by blast
  have "status_map d 7 = Some StatusProcessing"
    using claim_row [OF sample_schema c] by (simp add: status_map_def)
  then show "stored_move (Some StatusQueued) (Some StatusProcessing)"
    by (intro stored_moveI [OF pstep.claim_lost [where s = "?s StatusQueued" and r = r and d = d and i = 7 and wid = "''w''" and now = 0] sample_pinv_any(1)])
      (simp_all add: c sample_platform_def)
  show "stored_move (Some StatusQueued) (Some StatusCancelled)" "stored_move (Some StatusProcessing) (Some StatusCancelled)"
    by (rule stored_moveI [OF pstep.cancel [where i = 7 and u = 1 and now = 0] sample_pinv_any(1)];
        simp add: defs; simp add: sample_job_def set_cancelled_def)+
  show "stored_move (Some StatusProcessing) (Some StatusSucceeded)"
    by (rule stored_moveI [OF pstep.complete [where i = 7 and a = 0 and m = 3 and t = "Fin 1" and now = 0] sample_pinv(2)];
        simp add: defs standing_def; simp add: sample_job_def set_succeeded_def)
  show "stored_move (Some StatusProcessing) (Some StatusFailed)"
    by (rule stored_moveI [OF pstep.reap_fail [where i = 7 and now = 0 and c = "[]" and m = "[]"] sample_pinv_any(1)];
        simp add: defs; simp add: q_FailExpiredJob_def sample_db_def attempts_overflow_def update_jobs_returning_def update_where_def row_of_def sample_job_def in_int32_def)
  show "stored_move (Some StatusProcessing) (Some StatusQueued)"
    by (rule stored_moveI [OF pstep.reap_requeue [where i = 7 and now = 0 and a = 0 and m = 3] sample_pinv_any(1)];
        simp add: defs budget_spent_def; simp add: q_RequeueExpiredJob_def sample_db_def attempts_overflow_def update_jobs_returning_def update_where_def row_of_def sample_job_def in_int32_def)
  show "stored_move (Some StatusFailed) (Some StatusQueued)"
    by (rule stored_moveI [OF pstep.retry [where i = 7 and u = 1 and now = 0] sample_pinv_any(1)];
        simp add: defs; simp add: sample_job_def reset_for_retry_def)
qed

lemma creation_stored: "stored_move None (Some StatusPending)"
proof -
  let ?s = "sample_platform StatusQueued {}" and ?p = "\<lparr>cj_ID = 8, cj_UserID = 1, cj_Status = StatusPending, cj_IdempotencyKey = None,
    cj_ObjectKey = ''o'', cj_OriginalFilename = ''f'', cj_SizeBytes = 1, cj_Model = ''m''\<rparr>"
  have "none_retrying (pl_db ?s)" by (auto simp: none_retrying_iff row_of_def sample_platform_def sample_db_def sample_job_def split: if_splits)
  moreover have "status_map (pl_db ?s) 8 = None" by (simp add: status_map_def row_of_def sample_platform_def sample_db_def sample_job_def)
  moreover have "status_map (snd (q_CreateJob ?p 0 (pl_db ?s))) 8 = Some StatusPending"
    by (simp add: q_CreateJob_def sample_platform_def sample_db_def sample_job_def sample_user_def same_idem_key_def all_statuses_def status_map_def
        row_of_def new_job_row_def)
  ultimately show ?thesis
    using pstep.create_lost [of ?p True True ?s 0] sample_pinv(1) unfolding stored_move_def
    by (intro conjI exI [of _ True] exI [of _ ?s] exI [of _ Other] exI [of _ "?s\<lparr>pl_db := snd (q_CreateJob ?p 0 (pl_db ?s))\<rparr>"] exI [of _ 8]) simp_all
qed

lemma job_move_moves: "job_move l i x y \<Longrightarrow> stored_move x y"
  by (induction rule: job_move.induct)
    (auto simp: CanTransition_set transitions_def creation_stored moves_stored split: if_splits)

lemma stored_moves_exact: "stored_move x y \<longleftrightarrow> (\<exists>l i. job_move l i x y)"
proof
  assume "stored_move x y"
  then obtain rt s l s' i where "x \<noteq> y" "pstep True rt s l s'" "pinv s" "none_retrying (pl_db s)"
    "status_map (pl_db s) i = x" "status_map (pl_db s') i = y" unfolding stored_move_def by blast
  then show "\<exists>l i. job_move l i x y" using step_moves_job_move(2) [OF pstep_moves, of rt s l s' i] by metis
qed (use job_move_moves in blast)

text \<open>C1. The platform implements the job's state machine, step by step and edge by edge. However the statements of API processes, reapers and
  workers interleave, whatever is lost on the way and whichever process dies, as long as a worker finishes a job only while its claim
  stands and no job is stored as \<open>retrying\<close> at the start: each single step moves at most one job, and that along one edge of the table
  \<open>transitions\<close> (to \<open>processing\<close> by a claim of that job only), through \<open>retrying\<close> along two edges at once, from nothing to pending, or from
  failed to queued by its user's retry; \<open>retrying\<close> is never stored; and the constraints of the schema hold throughout. Conversely every such
  move is made by some step of the platform: the table between statuses that are stored is exactly what the processes do.\<close>

theorem platform_refines_lifecycle:
  assumes "prun True rt s ls s'" and "pinv s" and "none_retrying (pl_db s)"
  shows "life_run (status_map (pl_db s)) ls (status_map (pl_db s')) \<and> none_retrying (pl_db s') \<and> schema_ok (pl_db s')
    \<and> (\<forall>x y. stored_move x y \<longleftrightarrow> (\<exists>l i. job_move l i x y))"
  using prun_life_run [OF assms] prun_pinv [OF assms(1,2)] stored_moves_exact by (simp add: pinv_schema)

section \<open>A bounded number of attempts\<close>

text \<open>How often a job can still be claimed.\<close>

definition claims_left :: "db_Job \<Rightarrow> nat" where
  "claims_left r = (let n = nat (job_MaxAttempts r - job_Attempts r - 1) in
     if job_Status r \<in> {StatusPending, StatusQueued, StatusRetrying} then Suc n
     else if job_Status r = StatusProcessing then n else 0)"

lemma moves_claims:
  assumes "moves True i l r r'" and "job_MaxAttempts r' = job_MaxAttempts r" and "l \<noteq> Retried i"
  shows "claims_left r' + (if l = Claimed i then 1 else 0) \<le> claims_left r"
  using assms(1)
proof cases
  case again
  then show ?thesis using assms(2) by (auto simp: claims_left_def Let_def)
qed (use assms(2,3) in \<open>auto simp: claims_left_def Let_def\<close>)

text \<open>C3. Retries end. When workers and reapers act on what the row still says, a job is claimed, from any point on, at most as
  often as it has attempts left (three times for a new job), unless its user asks for a retry.\<close>

theorem retries_bounded:
  assumes "prun True True s ls s'" and "pinv s" and "row_of (pl_db s) i = Some r" and "Retried i \<notin> set ls"
  shows "\<exists>r'. row_of (pl_db s') i = Some r' \<and> job_MaxAttempts r' = job_MaxAttempts r
    \<and> count_list ls (Claimed i) + claims_left r' \<le> claims_left r"
  using assms
proof (induction rule: prun.induct)
  case (more s ls t l u)
  then obtain r' where r': "row_of (pl_db t) i = Some r'" "job_MaxAttempts r' = job_MaxAttempts r"
    "count_list ls (Claimed i) + claims_left r' \<le> claims_left r" by auto
  have "pinv t" using prun_pinv [OF more(1,4)] .
  then obtain r'' where r'': "row_of (pl_db u) i = Some r''" "job_static r'' = job_static r'" "moves True i l r' r''"
    using pstep_moves [OF more(2)] r'(1) unfolding step_moves_def by blast
  have max: "job_MaxAttempts r'' = job_MaxAttempts r'" using r''(2) by (rule job_static_eqD(5))
  have "l \<noteq> Retried i" using more(6) by auto
  then have "claims_left r'' + (if l = Claimed i then 1 else 0) \<le> claims_left r'" by (rule moves_claims [OF r''(3) max])
  then have "count_list (ls @ [l]) (Claimed i) + claims_left r'' \<le> claims_left r"
    using r'(3) by (cases "l = Claimed i") simp_all
  with r'(2) max r''(1) show ?case by simp
qed auto

section \<open>A claim that no longer stands\<close>

text \<open>C38. A late worker undoes a cancellation. While a worker is transcribing, its user cancels the job: the cancellation is
  stored. When the worker is done it stores the job as succeeded all the same, a move the table does not allow.\<close>

theorem late_worker_overwrites:
  assumes "pinv s" and "(i, a, m) \<in> pl_held s" and "row_of (pl_db s) i = Some r" and "job_Status r = StatusProcessing"
    and "job_UserID r = u" and "job_DeletedAt r = None"
  shows "\<exists>t v. pstep False rt s Other t \<and> status_map (pl_db t) i = Some StatusCancelled
    \<and> pstep False rt t Other v \<and> status_map (pl_db v) i = Some StatusSucceeded
    \<and> \<not> job_step (Some StatusCancelled) (Some StatusSucceeded)"
proof -
  let ?t = "s\<lparr>pl_db := snd (q_CancelJob i u 0 (pl_db s))\<rparr>"
  let ?v = "?t\<lparr>pl_db := snd (sql_complete i (Fin 1) 0 (pl_db ?t))\<rparr>"
  have "pstep False rt s Other ?t" by (rule pstep.cancel)
  moreover have "pstep False rt ?t Other ?v" using assms(2) by (intro pstep.complete [where a = a and m = m]) simp_all
  moreover have "status_map (pl_db ?t) i = Some StatusCancelled" "status_map (pl_db ?v) i = Some StatusSucceeded"
    using assms(3-6) row_of_ID [OF assms(3)] by (simp_all add: status_map_def rows_guarded set_cancelled_def)
  moreover have "\<not> job_step (Some StatusCancelled) (Some StatusSucceeded)"
    by (auto elim!: job_step.cases simp: table_edges)
  ultimately show ?thesis by blast
qed

section \<open>Concrete runs\<close>

text \<open>A worker claims the job and finishes it.\<close>

lemma sample_run:
  "\<exists>s'. prun True True (sample_platform StatusQueued {}) [Claimed 7, Other] s' \<and> status_map (pl_db s') 7 = Some StatusSucceeded"
proof -
  let ?s = "sample_platform StatusQueued {}" and ?r = "set_claimed ''w'' 0 (sample_job StatusQueued)"
  let ?d = "snd (sql_claim 7 ''w'' 0 (sample_db StatusQueued))"
  let ?t = "?s\<lparr>pl_db := ?d, pl_held := insert (7, job_Attempts ?r, job_MaxAttempts ?r) (pl_held ?s)\<rparr>"
  let ?u = "?t\<lparr>pl_db := snd (sql_complete 7 (Fin 1) 0 (pl_db ?t))\<rparr>"
  have c: "sql_claim 7 ''w'' 0 (pl_db ?s) = (Inr ?r, ?d)"
    by (simp add: sql_claim_def update_jobs_returning_def sample_platform_def sample_db_def scanJob_def) (simp add: sample_job_def)
  have row: "row_of ?d 7 = Some ?r" by (simp add: rows_guarded sample_row) (simp add: sample_job_def)
  have s1: "pstep True True ?s (Claimed 7) ?t" using c by (rule pstep.claim)
  have s2: "pstep True True ?t Other ?u"
    by (rule pstep.complete [where a = "job_Attempts ?r" and m = "job_MaxAttempts ?r"]) (simp_all add: standing_def row)
  from prun.more [OF prun.more [OF prun.none s1] s2] have "prun True True ?s [Claimed 7, Other] ?u" by (simp only: append.simps)
  moreover have "status_map (pl_db ?u) 7 = Some StatusSucceeded"
    using row row_of_ID [OF row] by (simp add: status_map_def rows_guarded(7) del: map_option_eq_Some)
  ultimately show ?thesis by blast
qed

theorem platform_refines_lifecycle_witness:
  "\<exists>s'. prun True True (sample_platform StatusQueued {}) [Claimed 7, Other] s' \<and> status_map (pl_db s') 7 = Some StatusSucceeded
    \<and> life_run (status_map (sample_db StatusQueued)) [Claimed 7, Other] (status_map (pl_db s')) \<and> schema_ok (pl_db s')
    \<and> \<not> stored_move (Some StatusFailed) (Some StatusCancelled)"
proof -
  obtain s' where s': "prun True True (sample_platform StatusQueued {}) [Claimed 7, Other] s'" "status_map (pl_db s') 7 = Some StatusSucceeded"
    using sample_run by blast
  have n: "none_retrying (pl_db (sample_platform StatusQueued {}))"
    by (auto simp: none_retrying_iff row_of_def sample_platform_def sample_db_def sample_job_def split: if_splits)
  have "\<not> job_move l i (Some StatusFailed) (Some StatusCancelled)" for l i
    by (auto elim!: job_move.cases simp: CanTransition_set transitions_def)
  then show ?thesis using platform_refines_lifecycle [OF s'(1) sample_pinv(1) n] s' by (auto simp: sample_platform_def)
qed

theorem retries_bounded_witness:
  "\<exists>s' r'. prun True True (sample_platform StatusQueued {}) [Claimed 7, Other] s' \<and> row_of (pl_db s') 7 = Some r'
    \<and> count_list [Claimed 7, Other] (Claimed 7) + claims_left r' \<le> 3"
proof -
  obtain s' where s': "prun True True (sample_platform StatusQueued {}) [Claimed 7, Other] s'" using sample_run by blast
  have "claims_left (sample_job StatusQueued) = 3" by (simp add: claims_left_def sample_job_def)
  then show ?thesis
    using retries_bounded [OF s' sample_pinv(1), of 7 "sample_job StatusQueued"] s' sample_row
    by (auto simp: sample_platform_def)
qed

theorem late_worker_overwrites_witness:
  "\<exists>t v. pstep False False (sample_platform StatusProcessing {(7, 0, 3)}) Other t \<and> status_map (pl_db t) 7 = Some StatusCancelled
    \<and> pstep False False t Other v \<and> status_map (pl_db v) 7 = Some StatusSucceeded"
proof -
  have row: "row_of (pl_db (sample_platform StatusProcessing {(7, 0, 3)})) 7 = Some (sample_job StatusProcessing)"
    "(7, 0, 3) \<in> pl_held (sample_platform StatusProcessing {(7, 0, 3)})" by (simp_all add: sample_platform_def sample_row)
  from late_worker_overwrites [OF sample_pinv(2) row(2,1), of 1 False] show ?thesis by (auto simp: sample_job_def)
qed

end
