(* ===== verification/Platform_Runs.thy ===== *)
theory Platform_Runs
  imports Lifecycle Job_Correct
begin

text \<open>
  The code runs on the platform: each method of the job service, each pass of the reaper and each message a worker
  processes is a sequence of the platform's steps, whatever calls fail. \<open>runs\<close> is a Hoare triple over the
  part of the platform's state that is not in the database: it says from which jobs being created and claims held the code starts,
  and what a successful result says about them.
\<close>

section \<open>Triples\<close>

definition plat :: "world \<Rightarrow> uuid set \<Rightarrow> (uuid \<times> int \<times> int) set \<Rightarrow> platform" where
  "plat w P H = \<lparr>pl_db = w_db w, pl_creating = P, pl_held = H\<rparr>"

definition runs :: "bool \<Rightarrow> uuid set \<Rightarrow> (uuid \<times> int \<times> int) set \<Rightarrow> (world, 'a) go
    \<Rightarrow> ('a \<Rightarrow> uuid set \<Rightarrow> (uuid \<times> int \<times> int) set \<Rightarrow> bool) \<Rightarrow> bool" where
  "runs wt P H m Q \<longleftrightarrow> (\<forall>w. \<exists>ls P' H'. prun wt False (plat w P H) ls (plat (snd (m w)) P' H')
     \<and> (\<forall>x. fst (m w) = Inr x \<longrightarrow> Q x P' H'))"

abbreviation same :: "uuid set \<Rightarrow> (uuid \<times> int \<times> int) set \<Rightarrow> 'a \<Rightarrow> uuid set \<Rightarrow> (uuid \<times> int \<times> int) set \<Rightarrow> bool" where
  "same P H \<equiv> (\<lambda>x P' H'. P' = P \<and> H' = H)"

lemma prun_one: "pstep wt rt s l t \<Longrightarrow> prun wt rt s [l] t"
  using prun.more [OF prun.none] by fastforce

lemma prun_trans:
  assumes "prun wt rt t ls' u" and "prun wt rt s ls t"
  shows "prun wt rt s (ls @ ls') u"
  using assms
proof (induction rule: prun.induct)
  case (more t ls' v l u)
  then have "prun wt rt s ((ls @ ls') @ [l]) u" by (intro prun.more) auto
  then show ?case by simp
qed simp

lemma runsI: "(\<And>w. \<exists>ls P' H'. prun wt False (plat w P H) ls (plat (snd (m w)) P' H') \<and> (\<forall>x. fst (m w) = Inr x \<longrightarrow> Q x P' H'))
    \<Longrightarrow> runs wt P H m Q"
  by (simp add: runs_def)

lemma runsE:
  assumes "runs wt P H m Q"
  obtains ls P' H' where "prun wt False (plat w P H) ls (plat (snd (m w)) P' H')" "\<And>x. fst (m w) = Inr x \<Longrightarrow> Q x P' H'"
  using assms unfolding runs_def by blast

lemma runs_then:
  assumes m: "runs wt P H m Q" and k: "\<And>x P' H'. Q x P' H' \<Longrightarrow> runs wt P' H' (k x) R"
    and f: "\<And>w x. fst (m w) = Inr x \<Longrightarrow> n w = k x (snd (m w))" and e: "\<And>w e. fst (m w) = Inl e \<Longrightarrow> \<exists>e'. n w = (Inl e', snd (m w))"
  shows "runs wt P H n R"
proof (rule runsI)
  fix w
  obtain ls P' H' where 1: "prun wt False (plat w P H) ls (plat (snd (m w)) P' H')" "\<And>x. fst (m w) = Inr x \<Longrightarrow> Q x P' H'"
    using runsE [OF m] by blast
  show "\<exists>ls P' H'. prun wt False (plat w P H) ls (plat (snd (n w)) P' H') \<and> (\<forall>x. fst (n w) = Inr x \<longrightarrow> R x P' H')"
  proof (cases "fst (m w)")
    case (Inl err)
    then show ?thesis using e [OF Inl] 1(1) by fastforce
  next
    case (Inr x)
    obtain ls' P'' H'' where "prun wt False (plat (snd (m w)) P' H') ls' (plat (snd (k x (snd (m w)))) P'' H'')"
      "\<And>y. fst (k x (snd (m w))) = Inr y \<Longrightarrow> R y P'' H''"
      using runsE [OF k [OF 1(2) [OF Inr]]] by blast
    then show ?thesis using prun_trans [OF _ 1(1)] f [OF Inr] by fastforce
  qed
qed

lemma runs_check:
  assumes "runs wt P H m Q" and "\<And>x P' H'. Q x P' H' \<Longrightarrow> runs wt P' H' (k x) R"
  shows "runs wt P H (check m f k) R"
proof (rule runs_then [OF assms])
  show "check m f k w = k x (snd (m w))" if "fst (m w) = Inr x" for w x
    using that by (cases "m w") (simp add: check_def)
  show "\<exists>e'. check m f k w = (Inl e', snd (m w))" if "fst (m w) = Inl e" for w e
    using that by (cases "m w") (simp add: check_def)
qed

lemma runs_quiet: "(\<And>w. w_db (snd (m w)) = w_db w) \<Longrightarrow> runs wt P H m (same P H)"
  by (rule runsI) (metis plat_def prun.none)

lemma runs_weaken: "runs wt P H m Q \<Longrightarrow> (\<And>x P' H'. Q x P' H' \<Longrightarrow> R x P' H') \<Longrightarrow> runs wt P H m R"
  unfolding runs_def by meson

lemma runs_ret: "Q x P H \<Longrightarrow> runs wt P H (ret x) Q"
  by (rule runsI) (auto simp: intro: prun.none)

lemma runs_fail: "runs wt P H (fail e) Q"
  by (rule runsI) (auto simp: intro: prun.none)

text \<open>Code that leaves the claims and the jobs being created alone, whatever its result.\<close>

definition stays :: "bool \<Rightarrow> uuid set \<Rightarrow> (uuid \<times> int \<times> int) set \<Rightarrow> (world, 'a) go \<Rightarrow> bool" where
  "stays wt P H m \<longleftrightarrow> (\<forall>w. \<exists>ls. prun wt False (plat w P H) ls (plat (snd (m w)) P H))"

lemma runs_ignore:
  assumes "stays wt P H m" and "runs wt P H k Q"
  shows "runs wt P H (ignore m k) Q"
proof (rule runsI)
  fix w
  obtain ls where 1: "prun wt False (plat w P H) ls (plat (snd (m w)) P H)" using assms(1) unfolding stays_def by blast
  obtain ls' P' H' where 2: "prun wt False (plat (snd (m w)) P H) ls' (plat (snd (k (snd (m w)))) P' H')"
      "\<forall>y. fst (k (snd (m w))) = Inr y \<longrightarrow> Q y P' H'"
    using assms(2) unfolding runs_def by blast
  from prun_trans [OF 2(1) 1] 2(2)
  show "\<exists>ls P' H'. prun wt False (plat w P H) ls (plat (snd (ignore m k w)) P' H') \<and> (\<forall>x. fst (ignore m k w) = Inr x \<longrightarrow> Q x P' H')"
    unfolding ignore_apply by blast
qed

lemma stays_quiet: "(\<And>w. w_db (snd (m w)) = w_db w) \<Longrightarrow> stays wt P H m"
  unfolding stays_def by (metis plat_def prun.none)

lemma runs_uuid: "(\<And>i. runs wt P H (k i) Q) \<Longrightarrow> runs wt P H (\<lambda>w. let (i, w1) = uuid_New w in k i w1) Q"
proof (rule runsI)
  fix w :: world
  let ?w = "w\<lparr>w_uuids := Suc (w_uuids w)\<rparr>" and ?i = "uuid_at (w_env w) (w_uuids w)"
  assume "\<And>i. runs wt P H (k i) Q"
  then obtain ls P' H' where "prun wt False (plat ?w P H) ls (plat (snd (k ?i ?w)) P' H')" "\<And>x. fst (k ?i ?w) = Inr x \<Longrightarrow> Q x P' H'"
    using runsE by blast
  then show "\<exists>ls P' H'. prun wt False (plat w P H) ls (plat (snd (let (i, w1) = uuid_New w in k i w1)) P' H')
      \<and> (\<forall>x. fst (let (i, w1) = uuid_New w in k i w1) = Inr x \<longrightarrow> Q x P' H')"
    by (auto simp: uuid_New_def plat_def)
qed

text \<open>A statement: answered, or its effect without its answer, or nothing.\<close>

lemma runs_pg:
  assumes "\<And>now d. \<exists>ls P' H'. prun wt False \<lparr>pl_db = d, pl_creating = P, pl_held = H\<rparr> ls \<lparr>pl_db = snd (stmt now d), pl_creating = P', pl_held = H'\<rparr>
    \<and> (\<forall>x. fst (stmt now d) = Inr x \<longrightarrow> Q x P' H')"
  shows "runs wt P H (pg stmt) Q"
proof (rule runsI)
  fix w
  have none: "prun wt False (plat w P H) [] (plat w P H)" by (rule prun.none)
  show "\<exists>ls P' H'. prun wt False (plat w P H) ls (plat (snd (pg stmt w)) P' H') \<and> (\<forall>x. fst (pg stmt w) = Inr x \<longrightarrow> Q x P' H')"
    using none assms [of "w_db w" "time_of w"] by (cases rule: pg_cases [of stmt w]) (auto simp: plat_def)
qed

lemma runs_pg_step:
  assumes "\<And>now d. \<exists>l. pstep wt False \<lparr>pl_db = d, pl_creating = P, pl_held = H\<rparr> l \<lparr>pl_db = snd (stmt now d), pl_creating = P, pl_held = H\<rparr>"
  shows "runs wt P H (pg stmt) (same P H)"
  by (rule runs_pg) (use assms prun_one in blast)

lemma stays_pg_step:
  assumes "\<And>now d. \<exists>l. pstep wt False \<lparr>pl_db = d, pl_creating = P, pl_held = H\<rparr> l \<lparr>pl_db = snd (stmt now d), pl_creating = P, pl_held = H\<rparr>"
  shows "stays wt P H (pg stmt)"
  unfolding stays_def
proof
  fix w
  obtain l where "pstep wt False (plat w P H) l (plat (after w (snd (stmt (time_of w) (w_db w)))) P H)"
    using assms [where d = "w_db w" and now = "time_of w"] by (auto simp: plat_def)
  note one = prun_one [OF this]
  have none: "prun wt False (plat w P H) [] (plat (after w (w_db w)) P H)" by (simp add: plat_def prun.none)
  show "\<exists>ls. prun wt False (plat w P H) ls (plat (snd (pg stmt w)) P H)"
    using one none by (cases rule: pg_cases [of stmt w]) auto
qed

section \<open>The statements\<close>

abbreviation pl :: "database \<Rightarrow> uuid set \<Rightarrow> (uuid \<times> int \<times> int) set \<Rightarrow> platform" where
  "pl d P H \<equiv> \<lparr>pl_db = d, pl_creating = P, pl_held = H\<rparr>"

lemma step_db: "pstep wt rt (pl d P H) l ((pl d P H)\<lparr>pl_db := d'\<rparr>) \<Longrightarrow> \<exists>l. pstep wt rt (pl d P H) l (pl d' P H)"
  by auto

lemma steps_db:
  "\<exists>l. pstep wt rt (pl d P H) l (pl (snd (q_CancelJob i u now d)) P H)"
  "\<exists>l. pstep wt rt (pl d P H) l (pl (snd (q_RetryJob i u now d)) P H)"
  "\<exists>l. pstep wt rt (pl d P H) l (pl (snd (q_SoftDeleteJob i u now d)) P H)"
  "\<exists>l. pstep wt rt (pl d P H) l (pl (snd (q_CreateJobEvent e i ty b now d)) P H)"
  "\<not> budget_spent a m \<Longrightarrow> \<exists>l. pstep wt False (pl d P H) l (pl (snd (q_RequeueExpiredJob i now d)) P H)"
  "\<exists>l. pstep wt rt (pl d P H) l (pl (snd (q_FailExpiredJob i c f now d)) P H)"
  "\<exists>l. pstep wt rt (pl d P H) l (pl (snd (sql_renew_lease i now d)) P H)"
  "\<exists>l. pstep wt rt (pl d P H) l (pl (snd (sql_insert_transcript t now d)) P H)"
  "\<exists>l. pstep wt rt (pl d P H) l (pl (snd (sql_insert_segments g now d)) P H)"
  using pstep.cancel [of wt rt "pl d P H" i u now] pstep.retry [of wt rt "pl d P H" i u now]
    pstep.delete [of wt rt "pl d P H" i u now] pstep.event [of wt rt "pl d P H" e i ty b now]
    pstep.reap_requeue [of a m False i "pl d P H" wt now] pstep.reap_fail [of wt rt "pl d P H" i c f now]
    pstep.renew [of wt rt "pl d P H" i now] pstep.transcript [of wt rt "pl d P H" t now] pstep.segment [of wt rt "pl d P H" g now]
  by auto

lemma steps_held:
  assumes "(i, a, m) \<in> H"
  shows "\<exists>l. pstep False rt (pl d P H) l (pl (snd (sql_complete i x now d)) P H)"
    "a + 1 \<ge> m \<Longrightarrow> \<exists>l. pstep False rt (pl d P H) l (pl (snd (sql_fail i (a + 1) c e now d)) P H)"
    "\<not> a + 1 \<ge> m \<Longrightarrow> \<exists>l. pstep False rt (pl d P H) l (pl (snd (sql_requeue i (a + 1) c e now d)) P H)"
  using pstep.complete [of i a m "pl d P H" False rt x now] pstep.give_up [of i a m "pl d P H" False rt c e now]
    pstep.give_back [of i a m "pl d P H" False rt c e now] assms
  by auto

lemma runs_create: "cj_Status p = StatusPending \<Longrightarrow> runs wt P H (pg (q_CreateJob p)) (\<lambda>r P' H'. P' = insert (job_ID r) P \<and> H' = H)"
proof (rule runs_pg)
  fix now d assume p: "cj_Status p = StatusPending"
  show "\<exists>ls P' H'. prun wt False (pl d P H) ls (pl (snd (q_CreateJob p now d)) P' H')
      \<and> (\<forall>x. fst (q_CreateJob p now d) = Inr x \<longrightarrow> P' = insert (job_ID x) P \<and> H' = H)"
  proof (cases "q_CreateJob p now d")
    case (Pair r d')
    show ?thesis
    proof (cases r)
      case (Inl e)
      then show ?thesis
        using Pair prun_one [OF pstep.create_lost [OF p, of wt False "pl d P H" now]] by auto
    next
      case (Inr row)
      then show ?thesis
        using Pair prun_one [OF pstep.create [OF p, of now "pl d P H" row d' wt False]] by auto
    qed
  qed
qed

lemma runs_publish: "i \<in> P \<Longrightarrow> runs wt P H (pg (q_UpdateJobStatus i StatusQueued)) (\<lambda>_ _ _. True)"
proof (rule runs_pg)
  fix now d assume "i \<in> P"
  then show "\<exists>ls P' H'. prun wt False (pl d P H) ls (pl (snd (q_UpdateJobStatus i StatusQueued now d)) P' H')
      \<and> (\<forall>x. fst (q_UpdateJobStatus i StatusQueued now d) = Inr x \<longrightarrow> True)"
    using prun_one [OF pstep.publish [of i "pl d P H" wt False now]] by auto
qed

text \<open>A claim that matches no row changes nothing; one that does returns the row it was asked for.\<close>

lemma claim_result:
  "sql_claim i wid now d = (Inl e, d') \<Longrightarrow> d' = d" "sql_claim i wid now d = (Inr r, d') \<Longrightarrow> job_ID r = i"
proof -
  let ?p = "\<lambda>r. job_ID r = i \<and> job_Status r \<in> {StatusQueued, StatusRetrying} \<and> job_DeletedAt r = None"
  let ?fs = "filter ?p (tbl_jobs d)"
  have eq: "sql_claim i wid now d = (scanJob (map (set_claimed wid now) ?fs), d\<lparr>tbl_jobs := update_where ?p (set_claimed wid now) (tbl_jobs d)\<rparr>)"
    unfolding sql_claim_def update_jobs_returning_def by (rule refl)
  show "d' = d" if "sql_claim i wid now d = (Inl e, d')"
  proof -
    have "scanJob (map (set_claimed wid now) ?fs) = Inl e" using that eq by simp
    then have "?fs = []" unfolding scanJob_def by (metis (no_types, lifting) list.case_eq_if map_is_Nil_conv sum.distinct(1))
    then have "\<And>r. r \<in> set (tbl_jobs d) \<Longrightarrow> \<not> ?p r" by (simp only: filter_empty_conv) blast
    then have "update_where ?p (set_claimed wid now) (tbl_jobs d) = tbl_jobs d" by (rule update_where_none)
    with that eq show ?thesis by simp
  qed
  show "job_ID r = i" if "sql_claim i wid now d = (Inr r, d')"
  proof -
    have scan: "scanJob (map (set_claimed wid now) ?fs) = Inr r" using that eq by simp
    then obtain r0 rs where fs: "?fs = r0 # rs" by (cases ?fs) (simp_all add: scanJob_def)
    then have "r0 \<in> set ?fs" by simp
    then have "job_ID r0 = i" by simp
    moreover have "r = set_claimed wid now r0" using scan fs by (simp add: scanJob_def)
    ultimately show ?thesis by (simp add: updates_ID)
  qed
qed

lemma runs_claim: "runs wt P H (pg (sql_claim i wid)) (\<lambda>r P' H'. job_ID r = i \<and> P' = P \<and> H' = insert (i, job_Attempts r, job_MaxAttempts r) H)"
proof (rule runs_pg)
  fix now d
  show "\<exists>ls P' H'. prun wt False (pl d P H) ls (pl (snd (sql_claim i wid now d)) P' H')
      \<and> (\<forall>x. fst (sql_claim i wid now d) = Inr x \<longrightarrow> job_ID x = i \<and> P' = P \<and> H' = insert (i, job_Attempts x, job_MaxAttempts x) H)"
  proof (cases "sql_claim i wid now d")
    case (Pair r d')
    show ?thesis
    proof (cases r)
      case (Inl e)
      with Pair claim_result(1) have "d' = d" by blast
      then show ?thesis using Pair Inl prun.none [of wt False "pl d P H"] by auto
    next
      case (Inr row)
      then show ?thesis
        using Pair claim_result(2) [of i wid now d row d'] prun_one [OF pstep.claim [of i wid now "pl d P H" row d' wt False]] by auto
    qed
  qed
qed

section \<open>The code\<close>

lemma runs_read: "(\<And>now d. snd (stmt now d) = d) \<Longrightarrow> runs wt P H (pg stmt) (same P H)"
  by (rule runs_quiet) (simp add: pg_read_only)

text \<open>A call whose result is only wrapped.\<close>

lemma runs_wrap: "runs wt P H m (same P H) \<Longrightarrow> runs wt P H (check m f (\<lambda>x. ret (g x))) (same P H)"
  by (erule runs_check) (simp add: runs_ret)

lemma runs_calls:
  "runs wt P H (JobStore_GetJob i u) (same P H)" "runs wt P H (JobStore_GetJobByIdempotencyKey u k) (same P H)"
  "runs wt P H (JobStore_CancelJob i u) (same P H)" "runs wt P H (JobStore_RetryJob i u) (same P H)"
  "runs wt P H (Producer_Enqueue i) (same P H)" "runs wt P H LeaseStore_ListExpiredLeases (same P H)"
  unfolding JobStore_GetJob_def JobStore_GetJobByIdempotencyKey_def JobStore_CancelJob_def JobStore_RetryJob_def Producer_Enqueue_def
    LeaseStore_ListExpiredLeases_def
  by (intro runs_wrap runs_read runs_pg_step steps_db runs_quiet;
      simp add: q_GetJobByID_def q_GetJobByIdempotencyKey_def q_ListExpiredLeases_def)+

lemma runs_event: "runs wt P H (JobStore_CreateEvent i ty b) (same P H)" "runs wt P H (recordEvent jobSvc i ty None) (same P H)"
proof -
  show e: "runs wt P H (JobStore_CreateEvent i ty b) (same P H)" for b
    unfolding JobStore_CreateEvent_def by (intro runs_uuid runs_wrap runs_pg_step steps_db)
  show "runs wt P H (recordEvent jobSvc i ty None) (same P H)"
    unfolding recordEvent_None jobSvc_sel impl_sel by (intro runs_wrap e)
qed

lemma runs_delete_call: "runs wt P H (JobStore_SoftDeleteJob i u) (same P H)"
  unfolding JobStore_SoftDeleteJob_def
  by (rule runs_check [OF runs_pg_step [OF steps_db(3)]]) (simp add: runs_fail runs_ret)

lemma stays_object: "stays wt P H (Client_DeleteObject key)"
  unfolding Client_DeleteObject_def
  by (rule stays_quiet) (simp add: check_def split: prod.split sum.split, metis remove_object_frame(1) snd_conv)

lemma runs_any: "runs wt P H m (same P H) \<Longrightarrow> runs wt P H m (\<lambda>_ _ _. True)"
  by (erule runs_weaken) simp

lemma runs_create_new: "runs wt P H (create_new uuid_New jobSvc p) (\<lambda>_ _ _. True)"
  unfolding create_new_def jobSvc_sel impl_sel
proof (rule runs_uuid)
  fix i
  let ?rest = "\<lambda>created. check (recordEvent jobSvc (job_ID created) EventCreated None) id (\<lambda>_.
    check (transition jobSvc (job_ID created) StatusQueued EventQueued) id (\<lambda>queued.
    check (Producer_Enqueue (job_ID created)) (Errorf ''job: enqueue'') (\<lambda>_. ret queued)))"
  have c: "runs wt P H (JobStore_CreateJob (new_job i p)) (\<lambda>j P' H'. job_ID j \<in> P')"
    unfolding JobStore_CreateJob_def
    by (rule runs_check [OF runs_create]) (auto simp: new_job_def intro!: runs_ret)
  have t: "runs wt P' H' (transition jobSvc j StatusQueued EventQueued) (\<lambda>_ _ _. True)" if "j \<in> P'" for j P' H'
    unfolding transition_def jobSvc_sel impl_sel JobStore_UpdateJobStatus_def check_assoc
    by (rule runs_check [OF runs_publish [OF that]]) (auto simp: check_ret intro!: runs_check [OF runs_event(2)] runs_ret)
  show "runs wt P H (check (JobStore_CreateJob (new_job i p)) (Errorf ''job: create'') ?rest) (\<lambda>_ _ _. True)"
    by (rule runs_check [OF c], rule runs_check [OF runs_event(2)], rule runs_check [OF t])
      (auto intro!: runs_check [OF runs_calls(5)] runs_ret)
qed

lemma get_by_key_quiet: "w_db (snd (JobStore_GetJobByIdempotencyKey u k w)) = w_db w"
proof -
  have "snd (JobStore_GetJobByIdempotencyKey u k w) = snd (pg (q_GetJobByIdempotencyKey u k) w)"
    by (auto simp: JobStore_GetJobByIdempotencyKey_def check_def split: prod.splits sum.splits)
  then show ?thesis by (simp add: pg_read_only q_GetJobByIdempotencyKey_def)
qed

lemma runs_Create: "runs wt P H (Create uuid_New jobSvc p) (\<lambda>_ _ _. True)"
proof (cases "cp_IdempotencyKey p")
  case (Some k)
  show ?thesis
  proof (rule runsI)
    fix w
    let ?get = "JobStore_GetJobByIdempotencyKey (cp_UserID p) k"
    obtain ls where 1: "prun wt False (plat w P H) ls (plat (snd (?get w)) P H)"
      using get_by_key_quiet [of "cp_UserID p" k w] prun.none [of wt False "plat w P H"] by (auto simp: plat_def)
    obtain ls' P' H' where "prun wt False (plat (snd (?get w)) P H) ls' (plat (snd (create_new uuid_New jobSvc p (snd (?get w)))) P' H')"
      using runs_create_new [of wt P H p] unfolding runs_def by blast
    from prun_trans [OF this 1] 1
    show "\<exists>ls P' H'. prun wt False (plat w P H) ls (plat (snd (Create uuid_New jobSvc p w)) P' H')
        \<and> (\<forall>x. fst (Create uuid_New jobSvc p w) = Inr x \<longrightarrow> True)"
      using Some by (cases "?get w") (auto simp: Create_def split: sum.splits)
  qed
qed (simp add: Create_def runs_create_new)

lemma runs_methods:
  "runs wt P H (Cancel jobSvc u i) (\<lambda>_ _ _. True)" "runs wt P H (Retry jobSvc u i) (\<lambda>_ _ _. True)"
  "runs wt P H (Delete jobSvc u i) (\<lambda>_ _ _. True)"
  unfolding Cancel_def Retry_def Delete_def jobSvc_sel impl_sel
  by (rule runs_check [OF runs_calls(1)], auto intro!: runs_fail runs_ret runs_check [OF runs_calls(3)] runs_check [OF runs_event(2)])
    (rule runs_check [OF runs_calls(1)], auto intro!: runs_fail runs_ret runs_check [OF runs_calls(4)] runs_check [OF runs_event(2)]
        runs_check [OF runs_calls(5)],
     rule runs_check [OF runs_calls(1)], auto intro!: runs_check [OF runs_delete_call] runs_ignore [OF stays_object] runs_ret)

subsection \<open>The reaper\<close>

lemma runs_lease_event: "(\<And>P' H'. P' = P \<and> H' = H \<Longrightarrow> runs wt P' H' k Q) \<Longrightarrow> runs wt P H (LeaseStore_event i ty b msg k) Q"
  unfolding LeaseStore_event_def by (rule runs_uuid) (rule runs_check [OF runs_pg_step [OF steps_db(4)]])

lemma runs_lease_calls:
  "\<not> budget_spent a m \<Longrightarrow> runs wt P H (LeaseStore_RequeueExpiredJob i) (same P H)" "runs wt P H (LeaseStore_FailExpiredJob i c f) (same P H)"
  unfolding LeaseStore_RequeueExpiredJob_def LeaseStore_FailExpiredJob_def
  by (rule runs_check [OF runs_pg_step [OF steps_db(5)]], assumption, auto intro!: runs_lease_event runs_ret)
    (rule runs_check [OF runs_pg_step [OF steps_db(6)]], auto intro!: runs_lease_event runs_ret)

lemma reap_job_world: "snd (reap_job reaper x w) = snd ((if budget_spent (xj_Attempts x) (xj_MaxAttempts x)
    then LeaseStore_FailExpiredJob (xj_ID x) leaseExpiredErrorCode leaseExpiredErrorMessage
    else check (LeaseStore_RequeueExpiredJob (xj_ID x)) id (\<lambda>_. Producer_Enqueue (xj_ID x))) w)"
  by (auto simp: reap_job_def reaper_def NewReaper_def leases_def producer_def check_def split: prod.splits sum.splits)

lemma reap_job_runs: "\<exists>ls P' H'. prun wt False (plat w P H) ls (plat (snd (reap_job reaper x w)) P' H')"
proof -
  have "runs wt P H (if budget_spent (xj_Attempts x) (xj_MaxAttempts x)
      then LeaseStore_FailExpiredJob (xj_ID x) leaseExpiredErrorCode leaseExpiredErrorMessage
      else check (LeaseStore_RequeueExpiredJob (xj_ID x)) id (\<lambda>_. Producer_Enqueue (xj_ID x))) (\<lambda>_ _ _. True)"
    by (auto intro: runs_any runs_lease_calls runs_calls intro!: runs_check [OF runs_lease_calls(1)])
  then show ?thesis unfolding reap_job_world runs_def by blast
qed

lemma reap_jobs_runs: "\<exists>ls P' H'. prun wt False (plat w P H) ls (plat (snd (reap_jobs reaper xs w)) P' H')"
proof (induction xs arbitrary: w P H)
  case (Cons x xs)
  obtain ls P' H' where 1: "prun wt False (plat w P H) ls (plat (snd (reap_job reaper x w)) P' H')" using reap_job_runs by blast
  obtain ls' P'' H'' where "prun wt False (plat (snd (reap_job reaper x w)) P' H') ls' (plat (snd (reap_jobs reaper xs (snd (reap_job reaper x w)))) P'' H'')"
    using Cons.IH by blast
  from prun_trans [OF this 1] show ?case by (auto simp: Let_def case_prod_beta)
qed (auto intro: prun.none)

lemma ReapOnce_runs: "\<exists>ls P' H'. prun wt False (plat w P H) ls (plat (snd (ReapOnce reaper w)) P' H')"
proof -
  let ?l = "LeaseStore_ListExpiredLeases"
  obtain ls P' H' where 1: "prun wt False (plat w P H) ls (plat (snd (?l w)) P' H')"
    using runs_calls(6) [of wt P H] unfolding runs_def by blast
  show ?thesis
  proof (cases "fst (?l w)")
    case (Inl e)
    then have "snd (ReapOnce reaper w) = snd (?l w)"
      by (cases "?l w") (simp add: ReapOnce_def reaper_def NewReaper_def leases_def)
    then show ?thesis using 1 by auto
  next
    case (Inr xs)
    then have "snd (ReapOnce reaper w) = snd (reap_jobs reaper xs (snd (?l w)))"
      by (cases "?l w") (simp add: ReapOnce_def reaper_def NewReaper_def leases_def)
    moreover obtain ls' P'' H'' where "prun wt False (plat (snd (?l w)) P' H') ls' (plat (snd (reap_jobs reaper xs (snd (?l w)))) P'' H'')"
      using reap_jobs_runs by blast
    ultimately show ?thesis using prun_trans [OF _ 1] by metis
  qed
qed

subsection \<open>The worker\<close>

lemma runs_insert_event: "runs wt P H (insert_event i ty b) (same P H)"
  unfolding insert_event_def by (intro runs_uuid runs_wrap runs_pg_step steps_db)

lemma runs_insert_transcript: "runs wt P H (insert_transcript i md res) (same P H)"
  unfolding insert_transcript_def by (intro runs_uuid runs_wrap runs_pg_step steps_db)

lemma runs_segment_rows:
  "(\<And>rows. runs wt P H (k rows) Q) \<Longrightarrow> runs wt P H (\<lambda>w. let (rows, w1) = segment_rows t gs w in k rows w1) Q"
proof (induction gs arbitrary: k)
  case (Cons g gs)
  obtain idx st en tx av where g: "g = (idx, st, en, tx, av)" by (cases g) auto
  let ?row = "\<lambda>i. \<lparr>seg_ID = i, seg_TranscriptID = t, seg_Idx = idx, seg_StartMs = st, seg_EndMs = en, seg_Text = tx, seg_AvgLogprob = av\<rparr>"
  have "runs wt P H (\<lambda>w. let (i, w1) = uuid_New w in (\<lambda>w1. let (rows, w2) = segment_rows t gs w1 in k (?row i # rows) w2) w1) Q"
    by (rule runs_uuid, rule Cons.IH, rule Cons.prems)
  then show ?case by (simp add: g Let_def case_prod_beta)
qed simp

lemma runs_insert_segments: "runs wt P H (insert_segments t gs) (same P H)"
proof (cases "gs = []")
  case False
  then show ?thesis unfolding insert_segments_def
    by (simp only: if_False) (rule runs_segment_rows, rule runs_pg_step, rule steps_db)
qed (simp only: insert_segments_def if_True runs_ret simp_thms)

lemma runs_finish:
  assumes "(i, a, m) \<in> H"
  shows "runs False P H (complete_job i x) (\<lambda>_ _ _. True)" "runs False P H (fail_or_retry_job i a m c e) (\<lambda>_ _ _. True)"
proof -
  show "runs False P H (complete_job i x) (\<lambda>_ _ _. True)"
    unfolding complete_job_def
    by (rule runs_check [OF runs_pg_step [OF steps_held(1) [OF assms]]]) (auto intro: runs_any runs_insert_event)
  show "runs False P H (fail_or_retry_job i a m c e) (\<lambda>_ _ _. True)"
  proof (cases "a + 1 \<ge> m")
    case True
    then show ?thesis unfolding fail_or_retry_job_def Let_def
      by (simp only: if_True, intro runs_check [OF runs_pg_step [OF steps_held(2) [OF assms True]]])
        (auto intro!: runs_check [OF runs_insert_event] runs_ret)
  next
    case False
    then show ?thesis unfolding fail_or_retry_job_def Let_def
      by (simp only: if_False, intro runs_check [OF runs_pg_step [OF steps_held(3) [OF assms False]]])
        (auto intro!: runs_check [OF runs_insert_event] runs_ret)
  qed
qed

lemma runs_renewals: "runs wt P H k Q \<Longrightarrow> runs wt P H (renewals n i k) Q"
  by (induction n) (auto simp: renew_lease_def intro!: runs_ignore stays_pg_step steps_db)

lemma runs_xadd: "runs wt P H (xadd st en) (\<lambda>_ _ _. True)"
  by (rule runs_any, rule runs_quiet) simp

lemma runs_transcribe:
  assumes "(cl_id c, cl_attempts c, cl_max_attempts c) \<in> H"
  shows "runs False P H (transcribe_and_store n oc c) (\<lambda>_ _ _. True)"
  unfolding transcribe_and_store_def
proof (rule runs_renewals, cases "oc (cl_object_key c)")
  case (Transcribed res)
  then show "runs False P H (case oc (cl_object_key c) of Raised_TranscriptionError code message \<Rightarrow>
       check (fail_or_retry_job (cl_id c) (cl_attempts c) (cl_max_attempts c) code message) id (\<lambda>new_status.
       if new_status = ''queued'' then xadd StreamName [(''job_id'', cl_id c)] else ret ())
   | Raised_other \<Rightarrow> fail (ErrMsg ''unhandled'')
   | Transcribed res \<Rightarrow> check (insert_transcript (cl_id c) (cl_model c) res) id (\<lambda>tid.
       check (insert_segments tid (re_segments res)) id (\<lambda>_. complete_job (cl_id c) (re_duration res)))) (\<lambda>_ _ _. True)"
    by (auto intro!: runs_check [OF runs_insert_transcript] runs_check [OF runs_insert_segments] runs_finish(1) [OF assms])
qed (auto intro!: runs_fail runs_check [OF runs_finish(2) [OF assms]] runs_xadd runs_ret)

lemma runs_claim_next: "runs wt P H (claim_next i wid) (\<lambda>x P' H'. \<forall>c. x = Some c \<longrightarrow> (cl_id c, cl_attempts c, cl_max_attempts c) \<in> H')"
proof (rule runsI)
  fix w
  let ?Q = "\<lambda>x P' H'. \<forall>c. x = Some c \<longrightarrow> (cl_id c, cl_attempts c, cl_max_attempts c) \<in> H'"
  let ?k = "\<lambda>r. check (insert_event i ''leased'' [(''worker_id'', wid)]) id (\<lambda>_.
       ret (Some \<lparr>cl_id = job_ID r, cl_object_key = job_ObjectKey r, cl_original_filename = job_OriginalFilename r,
         cl_model = job_Model r, cl_attempts = job_Attempts r, cl_max_attempts = job_MaxAttempts r\<rparr>))"
  have k: "runs wt P' H' (?k r) ?Q" if "job_ID r = i \<and> P' = P \<and> H' = insert (i, job_Attempts r, job_MaxAttempts r) H" for r P' H'
    using that by (intro runs_check [OF runs_insert_event] runs_ret) auto
  show "\<exists>ls P' H'. prun wt False (plat w P H) ls (plat (snd (claim_next i wid w)) P' H') \<and> (\<forall>x. fst (claim_next i wid w) = Inr x \<longrightarrow> ?Q x P' H')"
  proof (cases "fst (pg (sql_claim i wid) w)")
    case (Inl e)
    then have c: "snd (claim_next i wid w) = snd (pg (sql_claim i wid) w) \<and> (\<forall>x. fst (claim_next i wid w) = Inr x \<longrightarrow> x = None)"
      by (cases "pg (sql_claim i wid) w") (auto simp: claim_next_def)
    obtain ls P' H' where "prun wt False (plat w P H) ls (plat (snd (pg (sql_claim i wid) w)) P' H')"
      using runs_claim [of wt P H i wid] unfolding runs_def by blast
    then show ?thesis using c by auto
  next
    case (Inr r)
    then have c: "claim_next i wid w = check (pg (sql_claim i wid)) id ?k w"
      by (cases "pg (sql_claim i wid) w") (simp add: claim_next_def check_def)
    have "runs wt P H (check (pg (sql_claim i wid)) id ?k) ?Q" by (rule runs_check [OF runs_claim k])
    then show ?thesis unfolding runs_def c by blast
  qed
qed

lemma runs_process_job: "runs False P H (process_job n oc i wid) (\<lambda>_ _ _. True)"
  unfolding process_job_def
  by (rule runs_check [OF runs_claim_next]) (auto intro: runs_ret runs_transcribe split: option.splits)

text \<open>C2. The code runs on the platform. Whatever fails, each method of the job service and each pass of the reaper is a
  sequence of the platform's steps, and the processing of a message by a worker is one too if claims need not
  stand; so what holds of every run of the platform holds of any interleaving of them. In particular the service and the reaper
  move jobs along the table \<open>transitions\<close> and by user retries only, each step one edge as in the specification \<open>life_run\<close>.\<close>

theorem code_runs_on_platform:
  assumes "schema_ok (w_db w)"
    and "w' \<in> {snd (Create uuid_New jobSvc p w), snd (Cancel jobSvc u i w), snd (Retry jobSvc u i w), snd (Delete jobSvc u i w), snd (ReapOnce reaper w)}"
  shows "(\<exists>ls P' H'. prun wt False (plat w P H) ls (plat w' P' H'))
    \<and> life\<^sup>*\<^sup>* (status_map (w_db w)) (status_map (w_db w'))
    \<and> (none_retrying (w_db w) \<longrightarrow> (\<exists>ls. life_run (status_map (w_db w)) ls (status_map (w_db w'))))
    \<and> (\<exists>ls P' H'. prun False False (plat w P H) ls (plat (snd (process_job n oc i wid w)) P' H'))"
proof (intro conjI)
  have go: "\<exists>ls P' H'. prun wt False (plat w P H) ls (plat w' P' H')" for wt P H
    using assms(2) runs_Create [of wt P H p] runs_methods [of wt P H u i] ReapOnce_runs [of wt w P H]
    unfolding runs_def by blast
  show "\<exists>ls P' H'. prun wt False (plat w P H) ls (plat w' P' H')" by (rule go)
  obtain ls P' H' where run: "prun True False (plat w {} {}) ls (plat w' P' H')" using go by blast
  have inv: "pinv (plat w {} {})" using assms(1) by (simp add: pinv_def plat_def)
  then show "life\<^sup>*\<^sup>* (status_map (w_db w)) (status_map (w_db w'))" using prun_life [OF run] by (simp add: plat_def)
  show "none_retrying (w_db w) \<longrightarrow> (\<exists>ls. life_run (status_map (w_db w)) ls (status_map (w_db w')))"
    using prun_life_run [OF run inv] by (auto simp: plat_def)
  show "\<exists>ls P' H'. prun False False (plat w P H) ls (plat (snd (process_job n oc i wid w)) P' H')"
    using runs_process_job [of P H n oc i wid] unfolding runs_def by blast
qed

theorem code_runs_on_platform_witness:
  "life\<^sup>*\<^sup>* (status_map (sample_db StatusQueued)) (status_map (w_db (snd (Cancel jobSvc 1 7 (sample_world StatusQueued)))))"
  using code_runs_on_platform [of "sample_world StatusQueued" "snd (Cancel jobSvc 1 7 (sample_world StatusQueued))" "sample_params None" 1 7]
    sample_inv [of StatusQueued]
  by (simp add: sample_world_def inv_world_def)

end
