(* ===== verification/Kept.thy ===== *)
theory Kept
  imports Worker
begin

text \<open>
  Invariants of the database, once and for all. The locale \<open>kept_by_statements\<close> takes a predicate that each statement keeps, and
  concludes that the methods of the job service, the passes of the reaper and the messages of the workers keep it, whatever
  fails. The set \<open>C\<close> holds the error codes the workers may store.
\<close>

abbreviation db_rel :: "(database \<Rightarrow> bool) \<Rightarrow> world \<Rightarrow> world \<Rightarrow> bool" where
  "db_rel J \<equiv> inv_rel (\<lambda>w. J (w_db w))"

named_theorems kept_intros \<open>calls that keep an invariant of the database\<close>

lemma kept_pg: "(\<And>now d. J d \<Longrightarrow> J (snd (stmt now d))) \<Longrightarrow> keeps (db_rel J) (pg stmt)"
  using pg_keeps_db [where R = "\<lambda>d d'. J d \<longrightarrow> J d'" and stmt = stmt] by (simp add: inv_rel_def keeps_def)

lemma kept_read: "(\<And>now d. snd (stmt now d) = d) \<Longrightarrow> keeps (db_rel J) (pg stmt)"
  by (rule kept_pg) simp

lemma kept_uuid: "(\<And>i. keeps (db_rel J) (k i)) \<Longrightarrow> keeps (db_rel J) (\<lambda>w. let (i, w1) = uuid_New w in k i w1)"
  by (auto simp: keeps_def inv_rel_def uuid_New_def)

lemma kept_quiet [kept_intros]: "keeps (db_rel J) (xadd s e)" "keeps (db_rel J) (remove_object key)"
  by (simp_all add: keeps_def inv_rel_def)

lemma kept_reads [kept_intros]: "keeps (db_rel J) (pg (q_GetJobByID i u))" "keeps (db_rel J) (pg (q_GetJobByIdempotencyKey u k))"
  "keeps (db_rel J) (pg q_ListExpiredLeases)"
  by (rule kept_read, simp add: q_GetJobByID_def q_GetJobByIdempotencyKey_def q_ListExpiredLeases_def)+

lemma kept_segment_rows:
  "(\<And>rows. keeps (db_rel J) (k rows)) \<Longrightarrow> keeps (db_rel J) (\<lambda>w. let (rows, w1) = segment_rows t gs w in k rows w1)"
proof (induction gs arbitrary: k)
  case (Cons g gs)
  obtain idx st en tx av where g: "g = (idx, st, en, tx, av)" by (cases g) auto
  let ?row = "\<lambda>i. \<lparr>seg_ID = i, seg_TranscriptID = t, seg_Idx = idx, seg_StartMs = st, seg_EndMs = en, seg_Text = tx, seg_AvgLogprob = av\<rparr>"
  have "keeps (db_rel J) (\<lambda>w. let (i, w1) = uuid_New w in (\<lambda>w1. let (rows, w2) = segment_rows t gs w1 in k (?row i # rows) w2) w1)"
    by (rule kept_uuid, rule Cons.IH, rule Cons.prems)
  then show ?case by (simp add: g Let_def case_prod_beta)
qed simp

lemmas kept_control = keeps_check keeps_ignore keeps_if keeps_ret keeps_fail reflp_inv_rel transp_inv_rel

text \<open>A failure the worker foresees has a code of \<open>C\<close>.\<close>

definition codes_in :: "string set \<Rightarrow> outcome \<Rightarrow> bool" where
  "codes_in C oc \<longleftrightarrow> (case oc of Raised_TranscriptionError c m \<Rightarrow> c \<in> C | _ \<Rightarrow> True)"

section \<open>The contract\<close>

locale kept_by_statements =
  fixes J :: "database \<Rightarrow> bool" and C :: "string set"
  assumes CreateJob: "cj_Status p = StatusPending \<Longrightarrow> J d \<Longrightarrow> J (snd (q_CreateJob p now d))"
    and UpdateJobStatus: "J d \<Longrightarrow> J (snd (q_UpdateJobStatus i StatusQueued now d))"
    and RetryJob: "J d \<Longrightarrow> J (snd (q_RetryJob i u now d))"
    and CancelJob: "J d \<Longrightarrow> J (snd (q_CancelJob i u now d))"
    and SoftDeleteJob: "J d \<Longrightarrow> J (snd (q_SoftDeleteJob i u now d))"
    and CreateJobEvent: "J d \<Longrightarrow> J (snd (q_CreateJobEvent e i ty b now d))"
    and RequeueExpiredJob: "J d \<Longrightarrow> J (snd (q_RequeueExpiredJob i now d))"
    and FailExpiredJob: "J d \<Longrightarrow> J (snd (q_FailExpiredJob i leaseExpiredErrorCode m now d))"
    and claim: "J d \<Longrightarrow> J (snd (sql_claim i wid now d))"
    and renew: "J d \<Longrightarrow> J (snd (sql_renew_lease i now d))"
    and complete: "J d \<Longrightarrow> J (snd (sql_complete i x now d))"
    and give_up: "c \<in> C \<Longrightarrow> J d \<Longrightarrow> J (snd (sql_fail i a c m now d))"
    and give_back: "c \<in> C \<Longrightarrow> J d \<Longrightarrow> J (snd (sql_requeue i a c m now d))"
    and transcript: "J d \<Longrightarrow> J (snd (sql_insert_transcript t now d))"
    and segment: "J d \<Longrightarrow> J (snd (sql_insert_segment g now d))"
begin

lemma segments: "J d \<Longrightarrow> J (snd (sql_insert_segments gs now d))"
  by (rule sql_insert_segments_keeps [where Q = J]) (rule segment)

lemmas stmts = UpdateJobStatus RetryJob CancelJob SoftDeleteJob CreateJobEvent RequeueExpiredJob FailExpiredJob
  claim renew complete transcript segments

lemma CreateJob_call: "job_Status j = StatusPending \<Longrightarrow> keeps (db_rel J) (JobStore_CreateJob j)"
  unfolding JobStore_CreateJob_def by (intro kept_control kept_pg, erule CreateJob [rotated]) simp

lemma store: "keeps (db_rel J) (JobStore_GetJob i u)"
  "keeps (db_rel J) (JobStore_GetJobByIdempotencyKey u k)" "keeps (db_rel J) (JobStore_UpdateJobStatus i StatusQueued)"
  "keeps (db_rel J) (JobStore_CancelJob i u)" "keeps (db_rel J) (JobStore_RetryJob i u)"
  "keeps (db_rel J) (JobStore_SoftDeleteJob i u)" "keeps (db_rel J) (JobStore_CreateEvent i ty b)"
  "keeps (db_rel J) (Producer_Enqueue i)" "keeps (db_rel J) (Client_DeleteObject key)"
  unfolding JobStore_GetJob_def JobStore_GetJobByIdempotencyKey_def
    JobStore_UpdateJobStatus_def JobStore_CancelJob_def JobStore_RetryJob_def JobStore_SoftDeleteJob_def
    JobStore_CreateEvent_def Producer_Enqueue_def Client_DeleteObject_def
  by ((rule kept_uuid)?, intro kept_control kept_intros, (rule kept_pg, erule stmts)?)+

lemma recordEvent: "keeps (db_rel J) (recordEvent jobSvc i ty None)"
  unfolding recordEvent_None jobSvc_sel impl_sel by (intro kept_control store)

lemma create_new: "keeps (db_rel J) (create_new uuid_New jobSvc p)"
  unfolding create_new_def transition_def jobSvc_sel impl_sel
  by (rule kept_uuid) (intro kept_control store recordEvent CreateJob_call, simp add: new_job_def)

lemma Create: "keeps (db_rel J) (Create uuid_New jobSvc p)"
proof (cases "cp_IdempotencyKey p")
  case (Some k)
  show ?thesis
  proof (rule keepsI)
    fix w
    obtain r w1 where g: "JobStore_GetJobByIdempotencyKey (cp_UserID p) k w = (r, w1)"
      by (cases "JobStore_GetJobByIdempotencyKey (cp_UserID p) k w")
    have "db_rel J w w1" using store(2) g by (rule keepsD)
    moreover have "db_rel J w1 (snd (create_new uuid_New jobSvc p w1))" using create_new unfolding keeps_def by blast
    ultimately show "db_rel J w (snd (Create uuid_New jobSvc p w))"
      using g Some by (auto simp: Create_def inv_rel_def split: sum.splits)
  qed
qed (simp add: Create_def create_new)

lemma methods: "keeps (db_rel J) (Cancel jobSvc u i)" "keeps (db_rel J) (Retry jobSvc u i)" "keeps (db_rel J) (Delete jobSvc u i)"
  unfolding Cancel_def Retry_def Delete_def jobSvc_sel impl_sel by (intro kept_control store recordEvent)+

lemma leases_calls: "keeps (db_rel J) (LeaseStore_RequeueExpiredJob i)" "keeps (db_rel J) (LeaseStore_FailExpiredJob i leaseExpiredErrorCode m)"
  "keeps (db_rel J) LeaseStore_ListExpiredLeases"
proof -
  have e: "keeps (db_rel J) k \<Longrightarrow> keeps (db_rel J) (LeaseStore_event i ty b m k)" for k :: "(world, unit) go" and i ty b m
    unfolding LeaseStore_event_def by (rule kept_uuid) (intro kept_control kept_pg, erule stmts)
  show "keeps (db_rel J) (LeaseStore_RequeueExpiredJob i)" "keeps (db_rel J) (LeaseStore_FailExpiredJob i leaseExpiredErrorCode m)"
    "keeps (db_rel J) LeaseStore_ListExpiredLeases"
    unfolding LeaseStore_RequeueExpiredJob_def LeaseStore_FailExpiredJob_def LeaseStore_ListExpiredLeases_def
    by (intro kept_control e kept_intros kept_pg; erule stmts)+
qed

lemma reap_job: "db_rel J w (snd (reap_job reaper x w))"
proof -
  let ?call = "if budget_spent (xj_Attempts x) (xj_MaxAttempts x)
    then LeaseStore_FailExpiredJob (xj_ID x) leaseExpiredErrorCode leaseExpiredErrorMessage
    else check (LeaseStore_RequeueExpiredJob (xj_ID x)) id (\<lambda>_. Producer_Enqueue (xj_ID x))"
  have "keeps (db_rel J) ?call" by (intro kept_control leases_calls store)
  moreover have "snd (reap_job reaper x w) = snd (?call w)"
    by (auto simp: reap_job_def reaper_def NewReaper_def leases_def producer_def check_def split: prod.splits sum.splits)
  ultimately show ?thesis by (simp only: keeps_def)
qed

lemma ReapOnce: "db_rel J w (snd (ReapOnce reaper w))"
proof -
  have js: "db_rel J w (snd (reap_jobs reaper xs w))" for xs w
  proof (induction xs arbitrary: w)
    case (Cons x xs)
    show ?case using reap_job [of w x] Cons.IH [of "snd (reap_job reaper x w)"] by (auto simp: inv_rel_def case_prod_beta Let_def)
  qed (simp add: inv_rel_def)
  obtain r w1 where l: "LeaseStore_ListExpiredLeases w = (r, w1)" by (cases "LeaseStore_ListExpiredLeases w")
  have "db_rel J w w1" using leases_calls(3) l by (rule keepsD)
  then show ?thesis
    using l js [of w1] by (cases r) (auto simp: ReapOnce_def reaper_def NewReaper_def leases_def inv_rel_def)
qed

lemma worker_calls: "keeps (db_rel J) (insert_event i ty kvs)" "keeps (db_rel J) (renew_lease i)"
  "keeps (db_rel J) (complete_job i x)" "keeps (db_rel J) (insert_transcript i md res)" "keeps (db_rel J) (insert_segments t gs)"
  "c \<in> C \<Longrightarrow> keeps (db_rel J) (fail_or_retry_job i a mx c m)"
proof -
  show e: "keeps (db_rel J) (insert_event i ty kvs)" for i ty kvs
    unfolding insert_event_def by (rule kept_uuid) (intro kept_control kept_pg, erule stmts)
  show "keeps (db_rel J) (renew_lease i)" unfolding renew_lease_def by (rule kept_pg, erule stmts)
  show "keeps (db_rel J) (complete_job i x)" unfolding complete_job_def by (intro kept_control e kept_pg, erule stmts)
  show "keeps (db_rel J) (insert_transcript i md res)"
    unfolding insert_transcript_def by (rule kept_uuid) (intro kept_control kept_pg, erule stmts)
  show "keeps (db_rel J) (insert_segments t gs)"
  proof (cases "gs = []")
    case False
    then show ?thesis unfolding insert_segments_def by (simp only: if_False) (rule kept_segment_rows, rule kept_pg, erule stmts)
  next
    case True
    then have "insert_segments t gs = ret ()" by (simp add: insert_segments_def)
    then show ?thesis by (simp only:) (intro kept_control)
  qed
  show "keeps (db_rel J) (fail_or_retry_job i a mx c m)" if "c \<in> C"
    unfolding fail_or_retry_job_def Let_def by (intro kept_control e kept_pg) (erule give_up [OF that] give_back [OF that])+
qed

lemma renewals: "keeps (db_rel J) k \<Longrightarrow> keeps (db_rel J) (renewals n i k)"
proof (induction n)
  case (Suc n)
  then show ?case unfolding renewals.simps by (intro kept_control worker_calls)
qed simp

lemma claim_next: "keeps (db_rel J) (claim_next i wid)"
proof (rule keepsI)
  fix w
  obtain r w1 where p: "pg (sql_claim i wid) w = (r, w1)" by (cases "pg (sql_claim i wid) w")
  have "keeps (db_rel J) (pg (sql_claim i wid))" by (rule kept_pg) (rule claim)
  then have step: "db_rel J w w1" using p by (rule keepsD)
  show "db_rel J w (snd (claim_next i wid w))"
  proof (cases r)
    case (Inr row)
    then have "snd (claim_next i wid w) = snd (insert_event i ''leased'' [(''worker_id'', wid)] w1)"
      using p by (auto simp: claim_next_def check_def split: prod.splits sum.splits)
    then show ?thesis using step worker_calls(1) by (auto simp: keeps_def inv_rel_def)
  qed (use p step in \<open>simp add: claim_next_def\<close>)
qed

lemma process_job:
  assumes "\<forall>k. codes_in C (oc k)"
  shows "keeps (db_rel J) (process_job n oc i wid)"
proof -
  have "keeps (db_rel J) (transcribe_and_store n oc c)" for c
    unfolding transcribe_and_store_def
    by (rule renewals) (use assms [THEN spec, of "cl_object_key c"] in \<open>cases "oc (cl_object_key c)"; simp only: codes_in_def outcome.case; intro kept_control kept_intros worker_calls; simp\<close>)
  then show ?thesis unfolding process_job_def
    by (intro kept_control claim_next) (auto intro: kept_control split: option.split)
qed

end

end
