(* ===== verification/Consumer.thy ===== *)
theory Consumer
  imports Kept
begin

text \<open>
  The consumer loop of \<open>src/worker/worker/main.py\<close>: what a worker does with the entries its consumer group hands it.

  \<open>XREADGROUP\<close> is outside the repository: what each read returns is an argument, a failure or a list of entries, each with the
  number of lease renewals and what comes of transcribing an object should its job be claimed. The entries the worker has
  acknowledged are part of the state; an acknowledgement is a call that leaves the process and can be lost like any other, and the
  exception it then raises is caught nowhere, so it ends the process.
\<close>

section \<open>The loop\<close>

record entry =
  en_id :: nat
  en_fields :: redis_entry
  en_renewals :: nat
  en_outcome :: "string \<Rightarrow> outcome"

datatype read = RedisError | Messages "entry list"

type_synonym consumer = "world \<times> nat list"

definition xack :: "nat \<Rightarrow> (consumer, unit) go" where
  "xack mid = (\<lambda>(w, acked). let w1 = w\<lparr>w_calls := Suc (w_calls w)\<rparr> in
     case fault_at (w_env w) (w_calls w) of
       NoFault \<Rightarrow> (Inr (), (w1, acked @ [mid]))
     | LostRequest \<Rightarrow> (Inl (ErrIO ''connection''), (w1, acked))
     | LostReply \<Rightarrow> (Inl (ErrIO ''connection''), (w1, acked @ [mid])))"

definition consume_entry :: "string \<Rightarrow> entry \<Rightarrow> (consumer, unit) go" where
  "consume_entry wid en = (\<lambda>(w, acked).
     xack (en_id en) (case map_of (en_fields en) ''job_id'' of
        None \<Rightarrow> w
      | Some jid \<Rightarrow> snd (process_job (en_renewals en) (en_outcome en) jid wid w), acked))"

fun consume_entries :: "string \<Rightarrow> entry list \<Rightarrow> (consumer, unit) go" where
  "consume_entries wid [] = ret ()"
| "consume_entries wid (en # ens) = check (consume_entry wid en) id (\<lambda>_. consume_entries wid ens)"

fun worker_run :: "string \<Rightarrow> read list \<Rightarrow> (consumer, unit) go" where
  "worker_run wid [] = ret ()"
| "worker_run wid (RedisError # rs) = worker_run wid rs"
| "worker_run wid (Messages ens # rs) = check (consume_entries wid ens) id (\<lambda>_. worker_run wid rs)"

section \<open>Acknowledgement\<close>

fun delivered :: "read list \<Rightarrow> nat list" where
  "delivered [] = []"
| "delivered (RedisError # rs) = delivered rs"
| "delivered (Messages ens # rs) = map en_id ens @ delivered rs"

lemma xack_acks: "xack mid (w, acked) = (Inr (), s) \<Longrightarrow> snd s = acked @ [mid]"
  by (auto simp: xack_def Let_def split: fault.splits)

lemma consume_entries_acks:
  "consume_entries wid ens (w, acked) = (Inr (), s) \<Longrightarrow> snd s = acked @ map en_id ens"
proof (induction ens arbitrary: w acked)
  case (Cons en ens)
  obtain w1 acked1 where 1: "consume_entry wid en (w, acked) = (Inr (), (w1, acked1))" and 2: "consume_entries wid ens (w1, acked1) = (Inr (), s)"
    using Cons.prems by (auto simp: check_def split: prod.splits sum.splits)
  have "acked1 = acked @ [en_id en]" using xack_acks 1 by (fastforce simp: consume_entry_def)
  then show ?case using Cons.IH [OF 2] by simp
qed auto

text \<open>A worker that is still running has acknowledged every entry it was handed, once and in order, whatever became of the jobs.\<close>

lemma worker_acks_everything:
  "worker_run wid rs (w, acked) = (Inr (), s) \<Longrightarrow> snd s = acked @ delivered rs"
proof (induction wid rs arbitrary: w acked rule: worker_run.induct)
  case (3 wid ens rs)
  obtain w1 acked1 where 1: "consume_entries wid ens (w, acked) = (Inr (), (w1, acked1))" and 2: "worker_run wid rs (w1, acked1) = (Inr (), s)"
    using "3.prems" by (auto simp: check_def split: prod.splits sum.splits)
  have "snd s = acked1 @ delivered rs" using "3.IH" [OF 2] by simp
  then show ?case using consume_entries_acks [OF 1] by simp
qed auto

section \<open>What the loop keeps\<close>

fun handed :: "read \<Rightarrow> entry list" where
  "handed RedisError = []"
| "handed (Messages ens) = ens"

context kept_by_statements
begin

lemma consume_entry:
  assumes "\<forall>k. codes_in C (en_outcome en k)"
  shows "db_rel J w (fst (snd (consume_entry wid en (w, acked))))"
proof -
  have ack: "w_db (fst (snd (xack mid (v, acked)))) = w_db v" for mid v by (simp add: xack_def Let_def split: fault.split)
  show ?thesis
  proof (cases "map_of (en_fields en) ''job_id''")
    case (Some jid)
    have "db_rel J w (snd (process_job (en_renewals en) (en_outcome en) jid wid w))"
      using process_job [OF assms, of "en_renewals en" jid wid] unfolding keeps_def by blast
    then show ?thesis using Some by (simp add: consume_entry_def ack inv_rel_def)
  qed (simp add: consume_entry_def ack inv_rel_def)
qed

lemma consume_entries:
  assumes "list_all (\<lambda>en. \<forall>k. codes_in C (en_outcome en k)) ens"
  shows "db_rel J w (fst (snd (consume_entries wid ens (w, acked))))"
  using assms
proof (induction ens arbitrary: w acked)
  case (Cons en ens)
  obtain r w1 acked1 where e: "consume_entry wid en (w, acked) = (r, (w1, acked1))" by (metis prod.collapse)
  have "db_rel J w w1" using consume_entry [of en w wid acked] Cons.prems e by simp
  moreover have "db_rel J w1 (fst (snd (consume_entries wid ens (w1, acked1))))" using Cons.prems by (intro Cons.IH) simp
  ultimately show ?case using e by (cases r) (auto simp: inv_rel_def)
qed (simp add: inv_rel_def)

text \<open>Whatever a worker is handed, and however it ends.\<close>

lemma worker_run:
  assumes "list_all (\<lambda>x. list_all (\<lambda>en. \<forall>k. codes_in C (en_outcome en k)) (handed x)) rs"
  shows "db_rel J w (fst (snd (worker_run wid rs (w, acked))))"
  using assms
proof (induction wid rs arbitrary: w acked rule: worker_run.induct)
  case (3 wid ens rs)
  obtain r w1 acked1 where e: "consume_entries wid ens (w, acked) = (r, (w1, acked1))" by (metis prod.collapse)
  have "db_rel J w w1" using consume_entries [of ens w wid acked] "3.prems" e by simp
  moreover have "db_rel J w1 (fst (snd (worker_run wid rs (w1, acked1))))" using "3.prems" by (intro "3.IH") simp
  ultimately show ?case using e by (cases r) (auto simp: inv_rel_def)
qed (simp_all add: inv_rel_def)

end

section \<open>What is lost\<close>

text \<open>The claim does not reach the database, and the entry is acknowledged all the same: the job is as it was, and its message
  will not be handed to anybody again.\<close>

lemma claim_error_loses_message:
  assumes "fault_at (w_env w) (w_calls w) = LostRequest" and "fault_at (w_env w) (Suc (w_calls w)) = NoFault"
    and "map_of (en_fields en) ''job_id'' = Some jid"
  shows "\<exists>w'. consume_entry wid en (w, acked) = (Inr (), (w', acked @ [en_id en])) \<and> w_db w' = w_db w \<and> w_redis w' = w_redis w"
proof -
  have "process_job (en_renewals en) (en_outcome en) jid wid w = (Inl (ErrIO ''connection''), after w (w_db w))"
    using assms(1) by (simp add: process_job_def claim_next_def pg_eq check_def)
  then show ?thesis using assms(2,3) by (auto simp: consume_entry_def xack_def Let_def)
qed

text \<open>A worker that stops between storing the transcript and completing the job leaves a transcript behind. From then on no worker
  can complete the job: storing the transcript again violates the uniqueness of \<open>job_id\<close>, which ends the processing.\<close>

definition stuck :: "uuid \<Rightarrow> database \<Rightarrow> bool" where
  "stuck jid d \<longleftrightarrow> (\<exists>t \<in> set (tbl_transcripts d). tr_JobID t = jid) \<and> (\<forall>r \<in> set (tbl_jobs d). job_ID r = jid \<longrightarrow> job_Status r \<noteq> StatusSucceeded)"

lemma stuck_insert_event: "keeps (db_rel (stuck jid)) (insert_event i t p)"
  unfolding insert_event_def
  by (intro kept_uuid keeps_check keeps_ret kept_pg) (auto simp: q_CreateJobEvent_def stuck_def Let_def)

lemma stuck_renewals: "keeps (db_rel (stuck jid)) k \<Longrightarrow> keeps (db_rel (stuck jid)) (renewals n i k)"
proof (induction n)
  case (Suc n)
  have "keeps (db_rel (stuck jid)) (renew_lease i)"
    unfolding renew_lease_def
    by (rule kept_pg) (auto simp: sql_renew_lease_def update_jobs_def update_jobs_returning_def stuck_def set_update_where)
  then show ?case unfolding renewals.simps by (intro keeps_ignore transp_inv_rel Suc)
qed simp

lemma stuck_sql_claim: "keeps (db_rel (stuck jid)) (pg (sql_claim i wid))"
  by (rule kept_pg) (auto simp: sql_claim_def update_jobs_returning_def stuck_def set_update_where set_claimed_def)

lemma claimed_id:
  assumes "claim_next jid wid w = (Inr (Some c), w')"
  shows "cl_id c = jid"
proof -
  obtain r w1 where p: "pg (sql_claim jid wid) w = (Inr r, w1)" and c: "cl_id c = job_ID r"
    using assms by (auto simp: claim_next_def split: prod.splits sum.splits if_splits elim!: check_eq_InrE)
  have "job_ID r = jid" if "fst (sql_claim jid wid now d) = Inr r" for now d
    using that by (auto simp: sql_claim_def update_jobs_returning_def scanJob_def set_claimed_def split: list.splits dest!: filter_eq_ConsD)
  then show ?thesis using p c by (cases rule: pg_cases [of "sql_claim jid wid" w]) auto
qed

lemma stuck_claim: "keeps (db_rel (stuck jid)) (claim_next i wid)"
proof (rule keepsI)
  fix w
  obtain r w1 where p: "pg (sql_claim i wid) w = (r, w1)" by (cases "pg (sql_claim i wid) w")
  note step = keepsD [OF stuck_sql_claim p, of jid]
  show "db_rel (stuck jid) w (snd (claim_next i wid w))"
  proof (cases r)
    case (Inl e)
    then show ?thesis using p step by (simp add: claim_next_def)
  next
    case (Inr row)
    then have "snd (claim_next i wid w) = snd (insert_event i ''leased'' [(''worker_id'', wid)] w1)"
      using p by (auto simp: claim_next_def check_def split: prod.splits sum.splits)
    then show ?thesis using step stuck_insert_event [of jid] by (auto simp: keeps_def inv_rel_def)
  qed
qed

lemma stuck_insert_transcript:
  assumes "stuck jid (w_db w)"
  shows "\<exists>e w'. insert_transcript jid model res w = (Inl e, w') \<and> stuck jid (w_db w')"
proof -
  let ?v = "snd (uuid_New w)" and ?stmt = "sql_insert_transcript \<lparr>tr_ID = fst (uuid_New w), tr_JobID = jid, tr_Text = re_text res,
    tr_LanguageDetected = re_language_detected res, tr_LanguageProbability = re_language_probability res, tr_Model = model,
    tr_ProcessingSeconds = re_processing_seconds res, tr_RealTimeFactor = re_real_time_factor res, tr_CreatedAt = 0\<rparr>"
  have d: "?stmt now (w_db w) = (Inl (PgError ''23505''), w_db w)" for now
    using assms by (auto simp: sql_insert_transcript_def stuck_def)
  have v: "w_db ?v = w_db w" by (simp add: uuid_New_def)
  have "\<exists>e w'. pg ?stmt ?v = (Inl e, w') \<and> stuck jid (w_db w')"
    by (rule pg_cases [of ?stmt ?v]) (use assms in \<open>auto simp: d v\<close>)
  then show ?thesis by (auto simp: insert_transcript_def Let_def case_prod_beta)
qed

lemma stored_transcript_blocks:
  assumes "stuck jid (w_db w)" and "\<And>k. \<exists>res. oc k = Transcribed res"
  shows "stuck jid (w_db (snd (process_job n oc jid wid w)))"
proof -
  have "keeps (db_rel (stuck jid)) (check (insert_transcript jid model res) id k)" for model res and k :: "uuid \<Rightarrow> (world, unit) go"
  proof (rule keepsI)
    fix v
    show "db_rel (stuck jid) v (snd (check (insert_transcript jid model res) id k v))"
      using stuck_insert_transcript [of jid v model res] by (cases "stuck jid (w_db v)") (auto simp: inv_rel_def)
  qed
  then have t: "keeps (db_rel (stuck jid)) (transcribe_and_store n oc c)" if "cl_id c = jid" for c
    using that assms(2) [of "cl_object_key c"] by (auto simp: transcribe_and_store_def stuck_renewals)
  obtain r w1 where c: "claim_next jid wid w = (r, w1)" by (cases "claim_next jid wid w")
  have w1: "stuck jid (w_db w1)" using keepsD [OF stuck_claim c, of jid] assms(1) by (simp add: inv_rel_def)
  have "stuck jid (w_db (snd (transcribe_and_store n oc x w1)))" if "r = Inr (Some x)" for x
    using t [OF claimed_id] c that w1 by (auto simp: keeps_def inv_rel_def)
  then show ?thesis using c w1 by (cases r) (auto simp: process_job_def check_def split: option.splits)
qed

end
