(* ===== verification/Go_Encoding.thy ===== *)
theory Go_Encoding
  imports Go_Strings
begin

text \<open>
  \<open>encoding/hex\<close> and \<open>encoding/base64\<close> without padding (\<open>RawStdEncoding\<close>, \<open>RawURLEncoding\<close>) on lists of
  bytes, a byte being a \<open>char\<close>. Decoding skips line breaks, as Go's decoder does, and fails on any other
  character outside the alphabet and on a single left-over digit; the unused bits of the last digit
  are not looked at.
\<close>

section \<open>Hexadecimal\<close>

definition hex_chars :: string where
  "hex_chars = ''0123456789abcdef''"

definition hex_byte :: "char \<Rightarrow> string" where
  "hex_byte c = (let n = (of_char c :: nat) in [hex_chars ! (n div 16), hex_chars ! (n mod 16)])"

definition hex_EncodeToString :: "bytes \<Rightarrow> string" where
  "hex_EncodeToString bs = concat (map hex_byte bs)"

lemma length_hex: "length (hex_EncodeToString bs) = 2 * length bs"
  by (induction bs) (simp_all add: hex_EncodeToString_def hex_byte_def Let_def)

lemma hex_chars_inj: "m < 16 \<Longrightarrow> n < 16 \<Longrightarrow> hex_chars ! m = hex_chars ! n \<longleftrightarrow> m = n"
proof -
  assume "m < 16" "n < 16"
  moreover have "distinct hex_chars" "length hex_chars = 16" by (simp_all add: hex_chars_def)
  ultimately show ?thesis by (simp add: nth_eq_iff_index_eq)
qed

lemma hex_byte_inj: "hex_byte c = hex_byte d \<longleftrightarrow> c = d"
proof -
  let ?c = "of_char c :: nat" and ?d = "of_char d :: nat"
  have lt: "?c < 256" "?d < 256" by simp_all
  have "hex_byte c = hex_byte d \<longleftrightarrow> ?c div 16 = ?d div 16 \<and> ?c mod 16 = ?d mod 16"
    using lt by (simp add: hex_byte_def Let_def hex_chars_inj less_mult_imp_div_less)
  also have "\<dots> \<longleftrightarrow> ?c = ?d" by (metis div_mult_mod_eq)
  finally show ?thesis by simp
qed

lemma hex_inj: "hex_EncodeToString bs = hex_EncodeToString cs \<longleftrightarrow> bs = cs"
proof (induction bs arbitrary: cs)
  case Nil
  then show ?case by (cases cs) (simp_all add: hex_EncodeToString_def hex_byte_def Let_def)
next
  case (Cons b bs)
  show ?case
  proof (cases cs)
    case Nil
    then show ?thesis by (simp add: hex_EncodeToString_def hex_byte_def Let_def)
  next
    case C: (Cons c cs')
    have l: "length (hex_byte b) = length (hex_byte c)" by (simp add: hex_byte_def Let_def)
    show ?thesis
      using Cons.IH [of cs'] hex_byte_inj [of b c] append_eq_append_conv [OF disjI1 [OF l]]
      by (simp add: C hex_EncodeToString_def)
  qed
qed

section \<open>Base64\<close>

definition std_alphabet :: string where
  "std_alphabet = ''ABCDEFGHIJKLMNOPQRSTUVWXYZabcdefghijklmnopqrstuvwxyz0123456789+/''"

definition url_alphabet :: string where
  "url_alphabet = ''ABCDEFGHIJKLMNOPQRSTUVWXYZabcdefghijklmnopqrstuvwxyz0123456789-_''"

fun index_of :: "char \<Rightarrow> string \<Rightarrow> nat option" where
  "index_of c [] = None"
| "index_of c (x # xs) = (if x = c then Some 0 else map_option Suc (index_of c xs))"

lemma index_of_nth: "distinct xs \<Longrightarrow> n < length xs \<Longrightarrow> index_of (xs ! n) xs = Some n"
proof (induction xs arbitrary: n)
  case (Cons x xs)
  then show ?case by (cases n) auto
qed simp

text \<open>A digit of base 64 is a number below 64; three bytes are four digits.\<close>

definition b64_enc3 :: "nat \<Rightarrow> nat \<Rightarrow> nat \<Rightarrow> nat list" where
  "b64_enc3 a b c = [a div 4, a mod 4 * 16 + b div 16, b mod 16 * 4 + c div 64, c mod 64]"

fun b64_digits :: "nat list \<Rightarrow> nat list" where
  "b64_digits (a # b # c # bs) = b64_enc3 a b c @ b64_digits bs"
| "b64_digits [a, b] = take 3 (b64_enc3 a b 0)"
| "b64_digits [a] = take 2 (b64_enc3 a 0 0)"
| "b64_digits [] = []"

definition b64_dec4 :: "nat \<Rightarrow> nat \<Rightarrow> nat \<Rightarrow> nat \<Rightarrow> nat list" where
  "b64_dec4 w x y z = [w * 4 + x div 16, x mod 16 * 16 + y div 4, y mod 4 * 64 + z]"

fun b64_bytes :: "nat list \<Rightarrow> nat list option" where
  "b64_bytes (w # x # y # z # ds) = map_option ((@) (b64_dec4 w x y z)) (b64_bytes ds)"
| "b64_bytes [w, x, y] = Some (take 2 (b64_dec4 w x y 0))"
| "b64_bytes [w, x] = Some (take 1 (b64_dec4 w x 0 0))"
| "b64_bytes [w] = None"
| "b64_bytes [] = Some []"

definition base64_encode :: "string \<Rightarrow> bytes \<Rightarrow> string" where
  "base64_encode alph bs = map (\<lambda>d. alph ! d) (b64_digits (map of_char bs))"

definition line_break :: "char \<Rightarrow> bool" where
  "line_break c \<longleftrightarrow> c = CHR 0x0A \<or> c = CHR 0x0D"

definition base64_decode :: "string \<Rightarrow> string \<Rightarrow> bytes option" where
  "base64_decode alph s =
    (let ds = map (\<lambda>c. index_of c alph) (filter (\<lambda>c. \<not> line_break c) s)
     in if None \<in> set ds then None else map_option (map char_of) (b64_bytes (map the ds)))"

lemma b64_group: "a < 256 \<Longrightarrow> b < 256 \<Longrightarrow> c < 256 \<Longrightarrow>
    b64_dec4 (a div 4) (a mod 4 * 16 + b div 16) (b mod 16 * 4 + c div 64) (c mod 64) = [a, b, c]"
proof -
  assume "a < 256" "b < 256" "c < 256"
  then have "b div 16 < 16" "c div 64 < 4" by (simp_all add: less_mult_imp_div_less)
  then show ?thesis by (simp add: b64_dec4_def)
qed

lemma b64_roundtrip: "\<forall>b \<in> set bs. b < 256 \<Longrightarrow> b64_bytes (b64_digits bs) = Some bs"
proof (induction bs rule: b64_digits.induct)
  case (1 a b c bs)
  then show ?case using b64_group [of a b c] by (simp add: b64_enc3_def)
next
  case (2 a b)
  then show ?case using b64_group [of a b 0] by (simp add: b64_enc3_def b64_dec4_def)
next
  case (3 a)
  then show ?case using b64_group [of a 0 0] by (simp add: b64_enc3_def b64_dec4_def)
qed simp

lemma b64_digits_range: "\<forall>b \<in> set bs. b < 256 \<Longrightarrow> d \<in> set (b64_digits bs) \<Longrightarrow> d < 64"
proof -
  have g: "\<forall>d \<in> set (b64_enc3 a b c). d < 64" if "a < 256" "b < 256" "c < 256" for a b c
  proof -
    have "b div 16 < 16" "c div 64 < 4" "a div 4 < 64"
      using that by (simp_all add: less_mult_imp_div_less)
    then have "a mod 4 * 16 + b div 16 < 64" "b mod 16 * 4 + c div 64 < 64" "a div 4 < 64"
      using mod_less_divisor [of 4 a] mod_less_divisor [of 16 b] by linarith+
    then show ?thesis by (simp add: b64_enc3_def)
  qed
  show "\<forall>b \<in> set bs. b < 256 \<Longrightarrow> d \<in> set (b64_digits bs) \<Longrightarrow> d < 64"
  proof (induction bs rule: b64_digits.induct)
    case (1 a b c bs)
    then show ?case using g [of a b c] by auto
  next
    case (2 a b)
    then show ?case using g [of a b 0] by (auto dest: in_set_takeD)
  next
    case (3 a)
    then show ?case using g [of a 0 0] by (auto dest: in_set_takeD)
  qed simp
qed

text \<open>Decoding inverts encoding, for any alphabet of 64 different characters, none a line break.\<close>

lemma base64_roundtrip:
  assumes "distinct alph" "length alph = 64" "\<forall>c \<in> set alph. \<not> line_break c"
  shows "base64_decode alph (base64_encode alph bs) = Some bs"
proof -
  let ?bs = "map of_char bs :: nat list" and ?s = "base64_encode alph bs"
  have r: "\<forall>b \<in> set ?bs. b < 256" by auto
  have d: "d < 64" if "d \<in> set (b64_digits ?bs)" for d using b64_digits_range [OF r that] .
  have "set ?s \<subseteq> set alph" using d assms(2) by (auto simp: base64_encode_def)
  then have f: "filter (\<lambda>c. \<not> line_break c) ?s = ?s" using assms(3) by (auto simp: filter_id_conv)
  have m: "map (\<lambda>c. index_of c alph) ?s = map Some (b64_digits ?bs)"
    using d assms(1,2) by (simp add: base64_encode_def index_of_nth)
  have "base64_decode alph ?s = map_option (map char_of) (b64_bytes (b64_digits ?bs))"
    unfolding base64_decode_def f m Let_def by (simp add: comp_def)
  then show ?thesis by (simp add: b64_roundtrip [OF r] comp_def)
qed

lemma alphabets:
  "distinct std_alphabet" "length std_alphabet = 64" "\<forall>c \<in> set std_alphabet. \<not> line_break c"
  "distinct url_alphabet" "length url_alphabet = 64" "\<forall>c \<in> set url_alphabet. \<not> line_break c"
  by (simp_all add: std_alphabet_def url_alphabet_def line_break_def)

lemma base64_encode_chars:
  assumes "length alph = 64"
  shows "set (base64_encode alph bs) \<subseteq> set alph"
proof -
  have r: "\<forall>b \<in> set (map of_char bs :: nat list). b < 256" by auto
  show ?thesis using b64_digits_range [OF r] assms by (auto simp: base64_encode_def)
qed

definition RawStd_EncodeToString :: "bytes \<Rightarrow> string" where
  "RawStd_EncodeToString = base64_encode std_alphabet"

definition RawStd_DecodeString :: "string \<Rightarrow> bytes option" where
  "RawStd_DecodeString = base64_decode std_alphabet"

definition RawURL_EncodeToString :: "bytes \<Rightarrow> string" where
  "RawURL_EncodeToString = base64_encode url_alphabet"

definition RawURL_DecodeString :: "string \<Rightarrow> bytes option" where
  "RawURL_DecodeString = base64_decode url_alphabet"

lemma RawStd_roundtrip [simp]: "RawStd_DecodeString (RawStd_EncodeToString bs) = Some bs"
  by (simp add: RawStd_DecodeString_def RawStd_EncodeToString_def base64_roundtrip alphabets)

lemma RawURL_roundtrip [simp]: "RawURL_DecodeString (RawURL_EncodeToString bs) = Some bs"
  by (simp add: RawURL_DecodeString_def RawURL_EncodeToString_def base64_roundtrip alphabets)

end
