(* ===== verification/Auth_Tokens.thy ===== *)
theory Auth_Tokens
  imports Go_Encoding
begin

text \<open>
  The tokens of \<open>src/api/internal/auth/jwt.go\<close>.

  \<open>golang-jwt\<close> is outside the repository: signing and parsing are the fields of a record \<open>jwt_lib\<close>, with
  what the library documents as two named hypotheses. \<open>jwt_honest\<close>: what was signed with a key parses
  back with that key, until it expires. \<open>jwt_checks\<close>: what parses as valid carries a signature that
  verifies under the key the key function returned for the token's own algorithm, and has not
  expired. \<open>time.Now()\<close> is the argument \<open>now\<close>; durations are nanoseconds.
\<close>

section \<open>Types\<close>

type_synonym TokenType = string

definition TokenTypeAccess :: TokenType where "TokenTypeAccess = ''access''"
definition TokenTypeRefresh :: TokenType where "TokenTypeRefresh = ''refresh''"
definition TokenTypeWSTicket :: TokenType where "TokenTypeWSTicket = ''ws_ticket''"

lemma token_types_distinct [simp]:
  "TokenTypeAccess \<noteq> TokenTypeRefresh" "TokenTypeRefresh \<noteq> TokenTypeAccess"
  "TokenTypeAccess \<noteq> TokenTypeWSTicket" "TokenTypeWSTicket \<noteq> TokenTypeAccess"
  "TokenTypeRefresh \<noteq> TokenTypeWSTicket" "TokenTypeWSTicket \<noteq> TokenTypeRefresh"
  by (simp_all add: TokenTypeAccess_def TokenTypeRefresh_def TokenTypeWSTicket_def)

definition wsTicketTTL :: int where
  "wsTicketTTL = 30 * 10 ^ 9"

record Claims =
  c_UserID :: uuid
  c_Type :: TokenType
  c_IssuedAt :: "instant option"
  c_ExpiresAt :: "instant option"
  c_Subject :: uuid

record TokenIssuer =
  ti_secret :: bytes
  ti_accessTokenTTL :: int
  ti_refreshTokenTTL :: int

definition NewTokenIssuer :: "string \<Rightarrow> int \<Rightarrow> int \<Rightarrow> TokenIssuer" where
  "NewTokenIssuer secret accessTTL refreshTTL =
    \<lparr>ti_secret = secret, ti_accessTokenTTL = accessTTL, ti_refreshTokenTTL = refreshTTL\<rparr>"

section \<open>The library\<close>

datatype jwt_method = SigningMethodHMAC | OtherMethod

record jwt_lib =
  jwt_SignedString :: "bytes \<Rightarrow> Claims \<Rightarrow> string + string"
  jwt_ParseWithClaims :: "(jwt_method \<Rightarrow> error + bytes) \<Rightarrow> instant \<Rightarrow> string \<Rightarrow> error + (Claims \<times> bool)"
  jwt_Method :: "string \<Rightarrow> jwt_method"
  jwt_verifies :: "bytes \<Rightarrow> string \<Rightarrow> bool"

definition live :: "instant \<Rightarrow> Claims \<Rightarrow> bool" where
  "live now c \<longleftrightarrow> (case c_ExpiresAt c of None \<Rightarrow> True | Some t \<Rightarrow> now < t)"

text \<open>Claims that survive the JSON encoding: a type of this program and times in whole seconds.\<close>

definition plain_claims :: "Claims \<Rightarrow> bool" where
  "plain_claims c \<longleftrightarrow> c_Type c \<in> {TokenTypeAccess, TokenTypeRefresh, TokenTypeWSTicket}
     \<and> (\<forall>t \<in> set_option (c_ExpiresAt c) \<union> set_option (c_IssuedAt c). t mod 10 ^ 9 = 0)"

definition jwt_honest :: "jwt_lib \<Rightarrow> bool" where
  "jwt_honest J \<longleftrightarrow> (\<forall>secret c tok keyfunc now.
     plain_claims c \<and> jwt_SignedString J secret c = Inr tok \<and> keyfunc SigningMethodHMAC = Inr secret \<longrightarrow>
       (if live now c then jwt_ParseWithClaims J keyfunc now tok = Inr (c, True)
        else \<exists>e. jwt_ParseWithClaims J keyfunc now tok = Inl e))"

definition jwt_checks :: "jwt_lib \<Rightarrow> bool" where
  "jwt_checks J \<longleftrightarrow> (\<forall>keyfunc now tok c. jwt_ParseWithClaims J keyfunc now tok = Inr (c, True) \<longrightarrow>
     live now c \<and> (\<exists>k. keyfunc (jwt_Method J tok) = Inr k \<and> jwt_verifies J k tok))"

section \<open>Issuing and verifying\<close>

text \<open>\<open>jwt.NewNumericDate\<close> truncates to the second.\<close>

definition numeric_date :: "instant \<Rightarrow> instant" where
  "numeric_date t = t - t mod 10 ^ 9"

definition issued_claims :: "uuid \<Rightarrow> TokenType \<Rightarrow> int \<Rightarrow> instant \<Rightarrow> Claims" where
  "issued_claims userID typ ttl now = \<lparr>c_UserID = userID, c_Type = typ, c_IssuedAt = Some (numeric_date now),
     c_ExpiresAt = Some (numeric_date (now + ttl)), c_Subject = userID\<rparr>"

definition issue :: "jwt_lib \<Rightarrow> TokenIssuer \<Rightarrow> instant \<Rightarrow> uuid \<Rightarrow> TokenType \<Rightarrow> int \<Rightarrow> error + string" where
  "issue J i now userID typ ttl =
    (case jwt_SignedString J (ti_secret i) (issued_claims userID typ ttl now) of
       Inl msg \<Rightarrow> Inl (Errorf ''auth: sign token'' (ErrMsg msg)) | Inr sgnd \<Rightarrow> Inr sgnd)"

definition IssueAccessToken :: "jwt_lib \<Rightarrow> TokenIssuer \<Rightarrow> instant \<Rightarrow> uuid \<Rightarrow> error + string" where
  "IssueAccessToken J i now userID = issue J i now userID TokenTypeAccess (ti_accessTokenTTL i)"

definition IssueRefreshToken :: "jwt_lib \<Rightarrow> TokenIssuer \<Rightarrow> instant \<Rightarrow> uuid \<Rightarrow> error + string" where
  "IssueRefreshToken J i now userID = issue J i now userID TokenTypeRefresh (ti_refreshTokenTTL i)"

definition IssueWSTicket :: "jwt_lib \<Rightarrow> TokenIssuer \<Rightarrow> instant \<Rightarrow> uuid \<Rightarrow> error + string" where
  "IssueWSTicket J i now userID = issue J i now userID TokenTypeWSTicket wsTicketTTL"

definition verify_key :: "TokenIssuer \<Rightarrow> jwt_method \<Rightarrow> error + bytes" where
  "verify_key i m = (if m \<noteq> SigningMethodHMAC then Inl (ErrMsg ''auth: unexpected signing method'') else Inr (ti_secret i))"

definition Verify :: "jwt_lib \<Rightarrow> TokenIssuer \<Rightarrow> instant \<Rightarrow> string \<Rightarrow> TokenType \<Rightarrow> error + Claims" where
  "Verify J i now tokenString want =
    (case jwt_ParseWithClaims J (verify_key i) now tokenString of
       Inl err \<Rightarrow> Inl ErrInvalidToken
     | Inr (claims, valid) \<Rightarrow>
         if \<not> valid then Inl ErrInvalidToken
         else if c_Type claims \<noteq> want then Inl ErrInvalidToken
         else Inr claims)"

section \<open>What a token is good for\<close>

lemma Verify_issued:
  assumes "jwt_honest J" and "typ \<in> {TokenTypeAccess, TokenTypeRefresh, TokenTypeWSTicket}"
    and "issue J i now userID typ ttl = Inr tok"
  shows "Verify J i t tok want =
    (if want = typ \<and> t < numeric_date (now + ttl) then Inr (issued_claims userID typ ttl now) else Inl ErrInvalidToken)"
proof -
  let ?c = "issued_claims userID typ ttl now"
  have "plain_claims ?c" using assms(2)
    by (auto simp: plain_claims_def issued_claims_def numeric_date_def minus_mod_eq_div_mult)
  moreover have "jwt_SignedString J (ti_secret i) ?c = Inr tok" using assms(3) by (auto simp: issue_def split: sum.splits)
  ultimately have p: "if live t ?c then jwt_ParseWithClaims J (verify_key i) t tok = Inr (?c, True)
      else \<exists>e. jwt_ParseWithClaims J (verify_key i) t tok = Inl e"
    using assms(1) unfolding jwt_honest_def by (metis verify_key_def)
  have l: "live t ?c \<longleftrightarrow> t < numeric_date (now + ttl)" by (simp add: live_def issued_claims_def)
  show ?thesis
    using p unfolding l by (auto simp: Verify_def issued_claims_def split: if_splits)
qed

text \<open>C25. A token is accepted by the issuer that made it exactly as the type it was issued as, and exactly
  until its lifetime (counted to the second) is over; it then names the user it was issued for. So a
  refresh token is never accepted as an access token or a ticket, nor the other way round.\<close>

theorem token_lifecycle:
  assumes "jwt_honest J" and "typ \<in> {TokenTypeAccess, TokenTypeRefresh, TokenTypeWSTicket}"
    and "issue J i now userID typ ttl = Inr tok"
  shows "Verify J i t tok want =
    (if want = typ \<and> t < numeric_date (now + ttl) then Inr (issued_claims userID typ ttl now) else Inl ErrInvalidToken)"
  using assms by (rule Verify_issued)

text \<open>C26. Whatever string a client presents: if it is accepted, it has the type asked for, its own
  algorithm is an HMAC (so neither \<open>none\<close> nor a public-key algorithm gets through), its signature
  verifies under the server's secret, and it has not expired. Every rejection is the same error.\<close>

theorem verify_sound:
  assumes "jwt_checks J"
  shows "case Verify J i now tok want of
      Inr c \<Rightarrow> c_Type c = want \<and> live now c \<and> jwt_Method J tok = SigningMethodHMAC
        \<and> jwt_verifies J (ti_secret i) tok
    | Inl e \<Rightarrow> e = ErrInvalidToken"
proof (cases "jwt_ParseWithClaims J (verify_key i) now tok")
  case (Inr cv)
  obtain c valid where cv: "cv = (c, valid)" by (cases cv)
  show ?thesis
  proof (cases valid)
    case True
    then have "live now c \<and> (\<exists>k. verify_key i (jwt_Method J tok) = Inr k \<and> jwt_verifies J k tok)"
      using assms Inr unfolding cv jwt_checks_def by simp
    then show ?thesis using Inr cv True by (auto simp: Verify_def verify_key_def split: if_splits)
  qed (use Inr cv in \<open>simp add: Verify_def\<close>)
qed (simp add: Verify_def)

section \<open>The hypotheses can hold\<close>

text \<open>A library for the witnesses: a token is the key in hexadecimal and the claims in decimal, with dots
  between; a token is valid under a key if it is what signing its claims with that key gives.\<close>

definition opt_text :: "instant option \<Rightarrow> string" where
  "opt_text t = (case t of None \<Rightarrow> [] | Some x \<Rightarrow> fmt_d x)"

definition opt_of :: "string \<Rightarrow> instant option" where
  "opt_of s = (if s = [] then None else read_int s)"

definition toy_encode :: "bytes \<Rightarrow> Claims \<Rightarrow> string" where
  "toy_encode k c = hex_EncodeToString k @ ''.'' @ digits (unat (c_UserID c)) @ ''.'' @ c_Type c @ ''.'' @ opt_text (c_IssuedAt c)
     @ ''.'' @ opt_text (c_ExpiresAt c) @ ''.'' @ digits (unat (c_Subject c))"

definition toy_decode :: "string \<Rightarrow> Claims option" where
  "toy_decode s = (case split_on (CHR ''.'') s of
     [k, u, ty, i, e, sub] \<Rightarrow> (case (read_nat u, read_nat sub) of
        (Some n, Some m) \<Rightarrow> Some \<lparr>c_UserID = of_nat n, c_Type = ty, c_IssuedAt = opt_of i, c_ExpiresAt = opt_of e, c_Subject = of_nat m\<rparr>
      | _ \<Rightarrow> None)
   | _ \<Rightarrow> None)"

definition toy_jwt :: jwt_lib where
  "toy_jwt = \<lparr>jwt_SignedString = (\<lambda>k c. Inr (toy_encode k c)),
     jwt_ParseWithClaims = (\<lambda>kf now t. case kf SigningMethodHMAC of Inl e \<Rightarrow> Inl e | Inr k \<Rightarrow>
       (case toy_decode t of None \<Rightarrow> Inl (ErrMsg ''malformed'')
        | Some c \<Rightarrow> if toy_encode k c = t \<and> live now c then Inr (c, True) else Inl (ErrMsg ''invalid''))),
     jwt_Method = (\<lambda>_. SigningMethodHMAC), jwt_verifies = (\<lambda>k t. \<exists>c \<in> set_option (toy_decode t). toy_encode k c = t)\<rparr>"

lemma no_dot:
  "CHR ''.'' \<notin> set (digits n)" "CHR ''.'' \<notin> set (fmt_d x)" "CHR ''.'' \<notin> set (opt_text t)" "CHR ''.'' \<notin> set (hex_EncodeToString k)"
proof -
  have d: "char_digit (CHR ''.'') = None" by code_simp
  show "CHR ''.'' \<notin> set (digits n)" for n using d by (auto dest: char_digit_digits)
  then show f: "CHR ''.'' \<notin> set (fmt_d x)" for x by (simp add: fmt_d_def)
  then show "CHR ''.'' \<notin> set (opt_text t)" by (simp add: opt_text_def split: option.split)
  have h: "CHR ''.'' \<notin> set hex_chars" "length hex_chars = 16" by (simp_all add: hex_chars_def)
  have "CHR ''.'' \<notin> set (hex_byte c)" for c
  proof -
    have "hex_byte c ! 0 \<in> set hex_chars" "hex_byte c ! 1 \<in> set hex_chars"
      using h(2) by (simp_all add: hex_byte_def Let_def less_mult_imp_div_less)
    then show ?thesis using h(1) by (auto simp: hex_byte_def Let_def)
  qed
  then show "CHR ''.'' \<notin> set (hex_EncodeToString k)" by (auto simp: hex_EncodeToString_def)
qed

lemma opt_roundtrip [simp]: "opt_of (opt_text t) = t"
  by (cases t) (simp_all add: opt_of_def opt_text_def)

lemma toy_roundtrip:
  assumes "CHR ''.'' \<notin> set (c_Type c)"
  shows "toy_decode (toy_encode k c) = Some c"
proof -
  have "split_on (CHR ''.'') (toy_encode k c) = [hex_EncodeToString k, digits (unat (c_UserID c)), c_Type c,
      opt_text (c_IssuedAt c), opt_text (c_ExpiresAt c), digits (unat (c_Subject c))]"
    using assms by (simp add: toy_encode_def split_on_append split_on_id no_dot)
  then show ?thesis by (simp add: toy_decode_def)
qed

lemma plain_no_dot: "plain_claims c \<Longrightarrow> CHR ''.'' \<notin> set (c_Type c)"
  by (auto simp: plain_claims_def TokenTypeAccess_def TokenTypeRefresh_def TokenTypeWSTicket_def)

lemma toy_laws: "jwt_honest toy_jwt" "jwt_checks toy_jwt"
  by (auto simp: jwt_honest_def jwt_checks_def toy_jwt_def plain_no_dot toy_roundtrip split: sum.splits option.splits if_splits)

definition sample_issuer :: TokenIssuer where
  "sample_issuer = NewTokenIssuer ''secret'' (15 * 60 * 10 ^ 9) (24 * 3600 * 10 ^ 9)"

definition sample_token :: string where
  "sample_token = toy_encode ''secret'' (issued_claims 1 TokenTypeAccess (15 * 60 * 10 ^ 9) 0)"

lemma sample_issue: "issue toy_jwt sample_issuer 0 1 TokenTypeAccess (15 * 60 * 10 ^ 9) = Inr sample_token"
  by (simp add: issue_def toy_jwt_def sample_issuer_def NewTokenIssuer_def sample_token_def)

theorem token_lifecycle_witness:
  "Verify toy_jwt sample_issuer 5 sample_token TokenTypeAccess = Inr (issued_claims 1 TokenTypeAccess (15 * 60 * 10 ^ 9) 0)
   \<and> Verify toy_jwt sample_issuer 5 sample_token TokenTypeRefresh = Inl ErrInvalidToken"
  using token_lifecycle [OF toy_laws(1) _ sample_issue] by (simp add: numeric_date_def)

theorem verify_sound_witness:
  "case Verify toy_jwt sample_issuer 5 sample_token TokenTypeAccess of
     Inr c \<Rightarrow> c_Type c = TokenTypeAccess \<and> c_UserID c = 1 | Inl e \<Rightarrow> False"
proof -
  have "Verify toy_jwt sample_issuer 5 sample_token TokenTypeAccess = Inr (issued_claims 1 TokenTypeAccess (15 * 60 * 10 ^ 9) 0)"
    using Verify_issued [OF toy_laws(1) _ sample_issue] by (simp add: numeric_date_def)
  then show ?thesis
    using verify_sound [OF toy_laws(2), where i = sample_issuer and now = 5 and tok = sample_token and want = TokenTypeAccess]
    by (simp add: issued_claims_def)
qed

end
