(* ===== verification/Sha256.thy ===== *)
theory Sha256
  imports Go_Encoding
begin

text \<open>
  \<open>crypto/sha256\<close>: the digest \<open>auth.HashAPIKey\<close> takes, as FIPS 180-4 specifies it, on 32-bit words.
\<close>

unbundle bit_operations_syntax

type_synonym w32 = "32 word"

text \<open>The round constants are the first 32 bits of the fractional parts of the cube roots of the first 64
  primes, the initial state those of the square roots of the first 8; \<open>iroot b k x 0\<close> is the largest
  integer below \<open>2 ^ b\<close> whose \<open>k\<close>-th power is at most \<open>x\<close>.\<close>

fun iroot :: "nat \<Rightarrow> nat \<Rightarrow> int \<Rightarrow> int \<Rightarrow> int" where
  "iroot 0 k x acc = acc"
| "iroot (Suc b) k x acc = (if (acc + 2 ^ b) ^ k \<le> x then iroot b k x (acc + 2 ^ b) else iroot b k x acc)"

definition sha_primes :: "int list" where
  "sha_primes =
    [2, 3, 5, 7, 11, 13, 17, 19, 23, 29, 31, 37, 41, 43, 47, 53,
     59, 61, 67, 71, 73, 79, 83, 89, 97, 101, 103, 107, 109, 113, 127, 131,
     137, 139, 149, 151, 157, 163, 167, 173, 179, 181, 191, 193, 197, 199, 211, 223,
     227, 229, 233, 239, 241, 251, 257, 263, 269, 271, 277, 281, 283, 293, 307, 311]"

definition sha_K :: "w32 list" where
  "sha_K = map (\<lambda>p. word_of_int (iroot 36 3 (p * 2 ^ 96) 0)) sha_primes"

definition sha_H0 :: "w32 list" where
  "sha_H0 = map (\<lambda>p. word_of_int (iroot 36 2 (p * 2 ^ 64) 0)) (take 8 sha_primes)"

text \<open>Padding to a multiple of 64 bytes: a one bit, zeros, and the length in bits as eight bytes.\<close>

fun be_bytes :: "nat \<Rightarrow> int \<Rightarrow> bytes" where
  "be_bytes 0 n = []"
| "be_bytes (Suc k) n = be_bytes k (n div 256) @ [char_of (n mod 256)]"

definition sha_pad :: "bytes \<Rightarrow> bytes" where
  "sha_pad m = (let k = (119 - length m mod 64) mod 64
     in m @ [char_of (128::int)] @ replicate k (char_of (0::int)) @ be_bytes 8 (8 * int (length m)))"

fun words_of :: "bytes \<Rightarrow> w32 list" where
  "words_of (a # b # c # d # bs) =
    word_of_int (((of_char a * 256 + of_char b) * 256 + of_char c) * 256 + of_char d) # words_of bs"
| "words_of bs = []"

definition bytes_of :: "w32 \<Rightarrow> bytes" where
  "bytes_of w = be_bytes 4 (uint w)"

definition small_sigma0 :: "w32 \<Rightarrow> w32" where
  "small_sigma0 x = word_rotr 7 x XOR word_rotr 18 x XOR drop_bit 3 x"

definition small_sigma1 :: "w32 \<Rightarrow> w32" where
  "small_sigma1 x = word_rotr 17 x XOR word_rotr 19 x XOR drop_bit 10 x"

definition big_sigma0 :: "w32 \<Rightarrow> w32" where
  "big_sigma0 x = word_rotr 2 x XOR word_rotr 13 x XOR word_rotr 22 x"

definition big_sigma1 :: "w32 \<Rightarrow> w32" where
  "big_sigma1 x = word_rotr 6 x XOR word_rotr 11 x XOR word_rotr 25 x"

text \<open>The message schedule, the last word computed first in the list.\<close>

fun sha_extend :: "nat \<Rightarrow> w32 list \<Rightarrow> w32 list" where
  "sha_extend 0 ws = ws"
| "sha_extend (Suc k) ws =
    sha_extend k ((small_sigma1 (ws ! 1) + ws ! 6 + small_sigma0 (ws ! 14) + ws ! 15) # ws)"

definition sha_schedule :: "w32 list \<Rightarrow> w32 list" where
  "sha_schedule ws = rev (sha_extend 48 (rev ws))"

type_synonym sha_regs = "w32 \<times> w32 \<times> w32 \<times> w32 \<times> w32 \<times> w32 \<times> w32 \<times> w32"

definition sha_round :: "w32 \<times> w32 \<Rightarrow> sha_regs \<Rightarrow> sha_regs" where
  "sha_round kw r = (case r of (a, b, c, d, e, f, g, h) \<Rightarrow>
    (let t1 = h + big_sigma1 e + ((e AND f) XOR (NOT e AND g)) + fst kw + snd kw;
         t2 = big_sigma0 a + ((a AND b) XOR (a AND c) XOR (b AND c))
     in (t1 + t2, a, b, c, d + t1, e, f, g)))"

definition sha_block :: "w32 list \<Rightarrow> w32 list \<Rightarrow> w32 list" where
  "sha_block hs ws =
    (case fold sha_round (zip sha_K (sha_schedule ws)) (hs ! 0, hs ! 1, hs ! 2, hs ! 3, hs ! 4, hs ! 5, hs ! 6, hs ! 7)
     of (a, b, c, d, e, f, g, h) \<Rightarrow> map2 (+) hs [a, b, c, d, e, f, g, h])"

fun sha_blocks :: "nat \<Rightarrow> w32 list \<Rightarrow> w32 list \<Rightarrow> w32 list" where
  "sha_blocks 0 hs ws = hs"
| "sha_blocks (Suc n) hs ws = sha_blocks n (sha_block hs (take 16 ws)) (drop 16 ws)"

definition sha256_Sum256 :: "bytes \<Rightarrow> bytes" where
  "sha256_Sum256 m = (let p = sha_pad m
     in concat (map bytes_of (sha_blocks (length p div 64) sha_H0 (words_of p))))"

lemma length_be_bytes [simp]: "length (be_bytes k n) = k"
  by (induction k n rule: be_bytes.induct) simp_all

lemma length_sha_block: "length hs = 8 \<Longrightarrow> length (sha_block hs ws) = 8"
  by (simp add: sha_block_def split: prod.splits)

lemma length_sha_blocks: "length hs = 8 \<Longrightarrow> length (sha_blocks n hs ws) = 8"
  by (induction n hs ws rule: sha_blocks.induct) (simp_all add: length_sha_block)

lemma length_Sum256: "length (sha256_Sum256 m) = 32"
proof -
  have "length (concat (map bytes_of hs)) = 4 * length hs" for hs
    by (induction hs) (simp_all add: bytes_of_def)
  then show ?thesis by (simp add: sha256_Sum256_def Let_def length_sha_blocks sha_H0_def sha_primes_def)
qed

end
