(* ===== verification/Auth_Password.thy ===== *)
theory Auth_Password
  imports Go_Encoding Sha256
begin

text \<open>
  Password hashes and API keys: \<open>src/api/internal/auth/password.go\<close> and \<open>src/api/internal/auth/apikey.go\<close>.

  \<open>argon2.IDKey\<close> (\<open>golang.org/x/crypto\<close>) is outside the repository: a parameter \<open>IDKey\<close>, with \<open>None\<close> for the
  panic it documents on a time or thread parameter below one. What the code relies on is \<open>idkey_ok\<close>: with
  sensible parameters it returns a key of the length asked for. \<open>rand.Read\<close> is an argument too. The digest
  of an API key is the SHA-256 of \<open>Sha256\<close>, not a parameter.
\<close>

type_synonym idkey = "bytes \<Rightarrow> bytes \<Rightarrow> nat \<Rightarrow> nat \<Rightarrow> nat \<Rightarrow> nat \<Rightarrow> bytes option"

definition idkey_ok :: "idkey \<Rightarrow> bool" where
  "idkey_ok A \<longleftrightarrow> (\<forall>p s t m n k. 1 \<le> t \<and> 1 \<le> n \<and> 1 \<le> k \<longrightarrow> (\<exists>h. A p s t m n k = Some h \<and> length h = k))"

section \<open>Password hashes\<close>

definition argonTime :: nat where "argonTime = 1"
definition argonMemory :: nat where "argonMemory = 64 * 1024"
definition argonThreads :: nat where "argonThreads = 4"
definition argonKeyLen :: nat where "argonKeyLen = 32"
definition saltLen :: nat where "saltLen = 16"

lemmas argon_defs = argonTime_def argonMemory_def argonThreads_def argonKeyLen_def saltLen_def

definition encode_hash :: "bytes \<Rightarrow> bytes \<Rightarrow> string" where
  "encode_hash salt hash = ''$argon2id$v=19$m='' @ fmt_d (int argonMemory) @ '',t='' @ fmt_d (int argonTime)
     @ '',p='' @ fmt_d (int argonThreads) @ ''$'' @ RawStd_EncodeToString salt @ ''$'' @ RawStd_EncodeToString hash"

definition HashPassword :: "idkey \<Rightarrow> (nat \<Rightarrow> ('w, bytes) go) \<Rightarrow> string \<Rightarrow> ('w, string) go" where
  "HashPassword IDKey rand_read password =
    check (rand_read saltLen) (Errorf ''auth: generate salt'') (\<lambda>salt.
      case IDKey password salt argonTime argonMemory argonThreads argonKeyLen of
        None \<Rightarrow> fail (Panic ''argon2'')
      | Some hash \<Rightarrow> ret (encode_hash salt hash))"

subsection \<open>The scanner\<close>

text \<open>\<open>fmt.Sscanf\<close> with the format \<open>m=%d,t=%d,p=%d\<close>: literal bytes must match; before a number white space is
  skipped (a new line is an error); a number is a non-empty run of digits whose value fits its
  variable; what follows the last number is not looked at. White space is Unicode's, as UTF-8.\<close>

definition white_spaces :: "string list" where
  "white_spaces = map (\<lambda>n. [char_of n]) [9, 11, 12, 13, 32 :: nat]
     @ map (map char_of) ([[0xC2, 0x85], [0xC2, 0xA0], [0xE1, 0x9A, 0x80], [0xE2, 0x80, 0xA8], [0xE2, 0x80, 0xA9],
         [0xE2, 0x80, 0xAF], [0xE2, 0x81, 0x9F], [0xE3, 0x80, 0x80]] @ map (\<lambda>n. [0xE2, 0x80, 0x80 + n]) [0 ..< 11 :: nat])"

fun cut_space :: "string list \<Rightarrow> string \<Rightarrow> string option" where
  "cut_space [] s = None"
| "cut_space (p # ps) s = (case CutPrefix s p of Some t \<Rightarrow> if p = [] then None else Some t | None \<Rightarrow> cut_space ps s)"

lemma cut_space_shorter: "cut_space ps s = Some t \<Longrightarrow> length t < length s"
  by (induction ps s rule: cut_space.induct) (auto simp: CutPrefix_iff split: option.splits if_splits)

function skip_space :: "string \<Rightarrow> string option" where
  "skip_space s = (if s \<noteq> [] \<and> hd s = CHR 0x0A then None
     else case cut_space white_spaces s of None \<Rightarrow> Some s | Some t \<Rightarrow> skip_space t)"
  by pat_completeness auto
termination by (relation "measure length") (auto dest: cut_space_shorter)

declare skip_space.simps [simp del]

definition scan_uint :: "nat \<Rightarrow> string \<Rightarrow> (nat \<times> string) option" where
  "scan_uint bits s = (case skip_space s of None \<Rightarrow> None | Some t \<Rightarrow>
     (case read_nat (takeWhile is_digit t) of None \<Rightarrow> None
      | Some n \<Rightarrow> if n < 2 ^ bits then Some (n, dropWhile is_digit t) else None))"

definition scan_params :: "string \<Rightarrow> (nat \<times> nat \<times> nat) option" where
  "scan_params s =
    Option.bind (CutPrefix s ''m='') (\<lambda>s. Option.bind (scan_uint 32 s) (\<lambda>(memory, s).
    Option.bind (CutPrefix s '',t='') (\<lambda>s. Option.bind (scan_uint 32 s) (\<lambda>(time, s).
    Option.bind (CutPrefix s '',p='') (\<lambda>s. Option.bind (scan_uint 8 s) (\<lambda>(threads, s).
      Some (memory, time, threads)))))))"

text \<open>\<open>None\<close> is the panic of \<open>IDKey\<close>.\<close>

definition VerifyPassword :: "idkey \<Rightarrow> string \<Rightarrow> string \<Rightarrow> (error + bool) option" where
  "VerifyPassword IDKey encoded password =
    (let parts = split_on (CHR ''$'') encoded in
     if length parts \<noteq> 6 \<or> parts ! 1 \<noteq> ''argon2id'' then Some (Inl (ErrMsg ''auth: malformed password hash''))
     else case scan_params (parts ! 3) of
       None \<Rightarrow> Some (Inl (Errorf ''auth: malformed password hash params'' (ErrMsg ''scan'')))
     | Some (memory, time, threads) \<Rightarrow>
     (case RawStd_DecodeString (parts ! 4) of
       None \<Rightarrow> Some (Inl (Errorf ''auth: malformed password hash salt'' (ErrMsg ''base64'')))
     | Some salt \<Rightarrow>
     (case RawStd_DecodeString (parts ! 5) of
       None \<Rightarrow> Some (Inl (Errorf ''auth: malformed password hash digest'' (ErrMsg ''base64'')))
     | Some want \<Rightarrow> map_option (\<lambda>got. Inr (got = want)) (IDKey password salt time memory threads (length want)))))"

subsection \<open>Verifying what was hashed\<close>

lemma std_no_dollar: "CHR ''$'' \<notin> set (RawStd_EncodeToString bs)"
  using base64_encode_chars [OF alphabets(2), of bs]
  by (auto simp: RawStd_EncodeToString_def std_alphabet_def)

lemma cut_space_other: "\<forall>p \<in> set ps. p \<noteq> [] \<and> hd p \<noteq> c \<Longrightarrow> cut_space ps (c # s) = None"
proof (induction ps)
  case (Cons p ps)
  then show ?case by (cases p) auto
qed simp

lemma white_spaces_no_digit: "\<forall>p \<in> set white_spaces. p \<noteq> [] \<and> \<not> is_digit (hd p)"
proof -
  have "list_all (\<lambda>p. p \<noteq> [] \<and> \<not> is_digit (hd p)) white_spaces" by code_simp
  then show ?thesis by (simp add: list_all_iff)
qed

lemma skip_space_digit: "is_digit c \<Longrightarrow> skip_space (c # s) = Some (c # s)"
proof -
  assume c: "is_digit c"
  have "\<not> is_digit (CHR 0x0A)" by code_simp
  with c have "c \<noteq> CHR 0x0A" by blast
  moreover have "cut_space white_spaces (c # s) = None"
    using white_spaces_no_digit c by (intro cut_space_other) blast
  ultimately show ?thesis by (simp add: skip_space.simps)
qed

lemma scan_uint_digits:
  assumes "n < 2 ^ bits" and "rest = [] \<or> \<not> is_digit (hd rest)"
  shows "scan_uint bits (digits n @ rest) = Some (n, rest)"
proof -
  have d: "\<forall>c \<in> set (digits n). is_digit c" using char_digit_digits by (auto simp: is_digit_def)
  then obtain c cs where "digits n @ rest = c # cs" and "is_digit c"
    by (cases "digits n") auto
  then have "skip_space (digits n @ rest) = Some (digits n @ rest)" by (simp add: skip_space_digit)
  moreover have "takeWhile is_digit (digits n @ rest) = digits n" "dropWhile is_digit (digits n @ rest) = rest"
    using d assms(2) by (cases rest; simp add: takeWhile_append2 dropWhile_append2)+
  ultimately show ?thesis using assms(1) by (simp add: scan_uint_def)
qed

definition params_text :: string where
  "params_text = ''m='' @ digits argonMemory @ '',t='' @ digits argonTime @ '',p='' @ digits argonThreads"

lemma scan_argon_params: "scan_params params_text = Some (argonMemory, argonTime, argonThreads)"
proof -
  have nd: "\<not> is_digit (CHR '','')" by code_simp
  have "scan_uint 32 (digits argonMemory @ '',t='' @ digits argonTime @ '',p='' @ digits argonThreads)
      = Some (argonMemory, '',t='' @ digits argonTime @ '',p='' @ digits argonThreads)"
    using nd by (intro scan_uint_digits) (simp_all add: argon_defs)
  moreover have "scan_uint 32 (digits argonTime @ '',p='' @ digits argonThreads)
      = Some (argonTime, '',p='' @ digits argonThreads)"
    using nd by (intro scan_uint_digits) (simp_all add: argon_defs)
  moreover have "scan_uint 8 (digits argonThreads) = Some (argonThreads, [])"
    using scan_uint_digits [of argonThreads 8 "[]"] by (simp add: argon_defs)
  ultimately show ?thesis by (simp add: scan_params_def params_text_def)
qed

lemma params_no_dollar: "CHR ''$'' \<notin> set params_text"
proof -
  have "char_digit (CHR ''$'') = None" by code_simp
  then show ?thesis by (auto simp: params_text_def dest: char_digit_digits)
qed

lemma split_encode_hash:
  "split_on (CHR ''$'') (encode_hash salt hash) =
    ['''', ''argon2id'', ''v=19'', params_text, RawStd_EncodeToString salt, RawStd_EncodeToString hash]"
proof -
  have "encode_hash salt hash = ''$argon2id$v=19$'' @ params_text @ ''$'' @ RawStd_EncodeToString salt @ ''$'' @ RawStd_EncodeToString hash"
    by (simp add: encode_hash_def params_text_def fmt_d_def)
  then show ?thesis by (simp add: split_on_append split_on_id std_no_dollar params_no_dollar)
qed

lemma VerifyPassword_encode:
  "VerifyPassword A (encode_hash salt hash) p
    = map_option (\<lambda>got. Inr (got = hash)) (A p salt argonTime argonMemory argonThreads (length hash))"
  unfolding VerifyPassword_def split_encode_hash Let_def
  by (simp add: scan_argon_params numeral_eq_Suc split: option.splits)

lemma HashPassword_Inr:
  assumes "HashPassword A rnd p w = (Inr enc, w')"
  obtains salt hash where "rnd saltLen w = (Inr salt, w')" and "enc = encode_hash salt hash"
    and "A p salt argonTime argonMemory argonThreads argonKeyLen = Some hash"
  using assms by (auto simp: HashPassword_def elim!: check_eq_InrE split: option.splits)

lemma Verify_hashed:
  assumes "idkey_ok A" and "HashPassword A rnd p w = (Inr enc, w')"
  shows "\<exists>salt. fst (rnd saltLen w) = Inr salt \<and> (\<forall>p'. VerifyPassword A enc p' = Some (Inr
      (A p' salt argonTime argonMemory argonThreads argonKeyLen = A p salt argonTime argonMemory argonThreads argonKeyLen)))"
proof -
  from assms(2) obtain salt hash where s: "rnd saltLen w = (Inr salt, w')" and e: "enc = encode_hash salt hash"
    and h: "A p salt argonTime argonMemory argonThreads argonKeyLen = Some hash"
    by (rule HashPassword_Inr)
  have key: "\<exists>k. A q salt argonTime argonMemory argonThreads argonKeyLen = Some k \<and> length k = argonKeyLen" for q
    using assms(1) by (simp add: idkey_ok_def argon_defs)
  have l: "length hash = argonKeyLen" using key [of p] h by auto
  have "VerifyPassword A enc q = Some (Inr
      (A q salt argonTime argonMemory argonThreads argonKeyLen = A p salt argonTime argonMemory argonThreads argonKeyLen))" for q
    using key [of q] by (auto simp: e VerifyPassword_encode l h)
  with s show ?thesis by auto
qed

text \<open>C24. A stored hash accepts exactly the passwords that \<open>argon2id\<close>, with the salt in the hash, maps to the
  key in the hash. The check never fails or panics on it, so in particular the registered password
  is always accepted.\<close>

theorem password_roundtrip:
  assumes "idkey_ok A" and "HashPassword A rnd p w = (Inr enc, w')"
  shows "VerifyPassword A enc p = Some (Inr True)
    \<and> (\<exists>salt. fst (rnd saltLen w) = Inr salt \<and> (\<forall>p'. VerifyPassword A enc p' = Some (Inr
      (A p' salt argonTime argonMemory argonThreads argonKeyLen = A p salt argonTime argonMemory argonThreads argonKeyLen))))"
  using Verify_hashed [OF assms] by auto

text \<open>A key function of the right shape, for the witnesses: the password padded to the length.\<close>

definition toy_IDKey :: idkey where
  "toy_IDKey p s t m n k = (if t < 1 \<or> n < 1 then None else Some (take k (p @ replicate k (CHR ''x''))))"

lemma toy_IDKey_ok: "idkey_ok toy_IDKey"
  by (auto simp: idkey_ok_def toy_IDKey_def min_def)

definition const_rand :: "nat \<Rightarrow> (unit, bytes) go" where
  "const_rand k = ret (replicate k (CHR ''r''))"

lemma toy_hash: "HashPassword toy_IDKey const_rand ''hunter2'' () =
    (Inr (encode_hash (replicate 16 (CHR ''r'')) (''hunter2'' @ replicate 25 (CHR ''x''))), ())"
  by (simp add: HashPassword_def const_rand_def check_def toy_IDKey_def argon_defs)

theorem password_roundtrip_witness:
  "VerifyPassword toy_IDKey (encode_hash (replicate 16 (CHR ''r'')) (''hunter2'' @ replicate 25 (CHR ''x''))) ''hunter2'' = Some (Inr True)
   \<and> VerifyPassword toy_IDKey (encode_hash (replicate 16 (CHR ''r'')) (''hunter2'' @ replicate 25 (CHR ''x''))) ''hunter3'' = Some (Inr False)"
proof (rule conjI)
  show "VerifyPassword toy_IDKey (encode_hash (replicate 16 (CHR ''r'')) (''hunter2'' @ replicate 25 (CHR ''x''))) ''hunter2'' = Some (Inr True)"
    using password_roundtrip [OF toy_IDKey_ok toy_hash] by blast
  have "\<exists>salt. \<forall>p'. VerifyPassword toy_IDKey (encode_hash (replicate 16 (CHR ''r'')) (''hunter2'' @ replicate 25 (CHR ''x''))) p' =
      Some (Inr (toy_IDKey p' salt argonTime argonMemory argonThreads argonKeyLen = toy_IDKey ''hunter2'' salt argonTime argonMemory argonThreads argonKeyLen))"
    using password_roundtrip [OF toy_IDKey_ok toy_hash] by blast
  then show "VerifyPassword toy_IDKey (encode_hash (replicate 16 (CHR ''r'')) (''hunter2'' @ replicate 25 (CHR ''x''))) ''hunter3'' = Some (Inr False)"
    by (auto simp: toy_IDKey_def argon_defs)
qed

section \<open>API keys\<close>

definition apiKeyPrefix :: string where
  "apiKeyPrefix = ''asrk_''"

definition HashAPIKey :: "string \<Rightarrow> string" where
  "HashAPIKey raw = hex_EncodeToString (sha256_Sum256 raw)"

definition GenerateAPIKey :: "(nat \<Rightarrow> ('w, bytes) go) \<Rightarrow> ('w, string \<times> string) go" where
  "GenerateAPIKey rand_read =
    check (rand_read 32) (Errorf ''auth: generate api key'') (\<lambda>buf.
      let raw = apiKeyPrefix @ hex_EncodeToString buf; hash = HashAPIKey raw in ret (raw, hash))"

lemma GenerateAPIKey_Inr:
  assumes "GenerateAPIKey rnd w = (Inr (raw, hash), w')"
  shows "hash = HashAPIKey raw" and "\<exists>buf. rnd 32 w = (Inr buf, w') \<and> raw = apiKeyPrefix @ hex_EncodeToString buf"
  using assms by (auto simp: GenerateAPIKey_def Let_def elim!: check_eq_InrE)

end
