(* ===== verification/Auth_Service.thy ===== *)
theory Auth_Service
  imports Auth_Tokens Auth_Password
begin

text \<open>
  The authentication service of \<open>src/api/internal/auth/service.go\<close>: one definition per method over any
  implementation of its two store interfaces, the contract \<open>auth_backend\<close> of those stores, and what
  each method does for every backend that meets it.

  What the package takes from outside is one record \<open>auth_lib\<close>: \<open>uuid.New\<close>, \<open>rand.Read\<close>, \<open>time.Now\<close>,
  \<open>argon2.IDKey\<close> and the JWT library. A panic is the error \<open>Panic\<close>.
\<close>

section \<open>Types\<close>

record User =
  usr_ID :: uuid
  usr_Email :: string
  usr_PasswordHash :: string
  usr_CreatedAt :: instant

record APIKey =
  ak_ID :: uuid
  ak_UserID :: uuid
  ak_Name :: string
  ak_KeyHash :: string
  ak_LastUsedAt :: "instant option"
  ak_CreatedAt :: instant
  ak_RevokedAt :: "instant option"

record TokenPair =
  AccessToken :: string
  RefreshToken :: string

record 'w UserStore =
  us_CreateUser :: "uuid \<Rightarrow> string \<Rightarrow> string \<Rightarrow> ('w, User) go"
  us_GetUserByEmail :: "string \<Rightarrow> ('w, User) go"
  us_GetUserByID :: "uuid \<Rightarrow> ('w, User) go"

record 'w APIKeyStore =
  ks_CreateAPIKey :: "uuid \<Rightarrow> uuid \<Rightarrow> string \<Rightarrow> string \<Rightarrow> ('w, APIKey) go"
  ks_ListAPIKeysByUser :: "uuid \<Rightarrow> ('w, APIKey list) go"
  ks_GetAPIKeyByHash :: "string \<Rightarrow> ('w, APIKey) go"
  ks_RevokeAPIKey :: "uuid \<Rightarrow> uuid \<Rightarrow> ('w, unit) go"
  ks_TouchAPIKeyLastUsed :: "uuid \<Rightarrow> ('w, unit) go"

record 'w auth_Service =
  as_users :: "'w UserStore"
  as_apiKeys :: "'w APIKeyStore"
  as_tokens :: TokenIssuer

definition auth_NewService :: "'w UserStore \<Rightarrow> 'w APIKeyStore \<Rightarrow> TokenIssuer \<Rightarrow> 'w auth_Service" where
  "auth_NewService users apiKeys tokens = \<lparr>as_users = users, as_apiKeys = apiKeys, as_tokens = tokens\<rparr>"

record 'w auth_lib =
  al_new :: "'w \<Rightarrow> uuid \<times> 'w"
  al_rand :: "nat \<Rightarrow> ('w, bytes) go"
  al_now :: "'w \<Rightarrow> instant \<times> 'w"
  al_IDKey :: idkey
  al_jwt :: jwt_lib

section \<open>The methods\<close>

text \<open>A function of the current time, and of a new identifier.\<close>

definition with_now :: "'w auth_lib \<Rightarrow> (instant \<Rightarrow> error + 'a) \<Rightarrow> ('w, 'a) go" where
  "with_now L f = (\<lambda>w. let (now, w1) = al_now L w in (f now, w1))"

definition with_new :: "'w auth_lib \<Rightarrow> (uuid \<Rightarrow> ('w, 'a) go) \<Rightarrow> ('w, 'a) go" where
  "with_new L k = (\<lambda>w. let (i, w1) = al_new L w in k i w1)"

definition auth_Register :: "'w auth_lib \<Rightarrow> 'w auth_Service \<Rightarrow> string \<Rightarrow> string \<Rightarrow> ('w, User) go" where
  "auth_Register L s email password =
    (\<lambda>w. case HashPassword (al_IDKey L) (al_rand L) password w of
       (Inl (Panic m), w1) \<Rightarrow> (Inl (Panic m), w1)
     | (Inl err, w1) \<Rightarrow> (Inl (Errorf ''auth: hash password'' err), w1)
     | (Inr hash, w1) \<Rightarrow>
         with_new L (\<lambda>i. check (us_CreateUser (as_users s) i email hash)
           (\<lambda>err. if errors_Is err ErrEmailTaken then ErrEmailTaken else Errorf ''auth: register'' err) ret) w1)"

definition issueTokenPair :: "'w auth_lib \<Rightarrow> 'w auth_Service \<Rightarrow> uuid \<Rightarrow> ('w, TokenPair) go" where
  "issueTokenPair L s userID =
    check (with_now L (\<lambda>now. IssueAccessToken (al_jwt L) (as_tokens s) now userID)) (Errorf ''auth: issue access token'') (\<lambda>access.
    check (with_now L (\<lambda>now. IssueRefreshToken (al_jwt L) (as_tokens s) now userID)) (Errorf ''auth: issue refresh token'') (\<lambda>refresh.
    ret \<lparr>AccessToken = access, RefreshToken = refresh\<rparr>))"

definition Login :: "'w auth_lib \<Rightarrow> 'w auth_Service \<Rightarrow> string \<Rightarrow> string \<Rightarrow> ('w, TokenPair) go" where
  "Login L s email password =
    check (us_GetUserByEmail (as_users s) email)
      (\<lambda>err. if errors_Is err ErrUserNotFound then ErrInvalidCredentials else Errorf ''auth: login'' err) (\<lambda>u.
    case VerifyPassword (al_IDKey L) (usr_PasswordHash u) password of
      None \<Rightarrow> fail (Panic ''argon2'')
    | Some (Inl err) \<Rightarrow> fail (Errorf ''auth: verify password'' err)
    | Some (Inr ok) \<Rightarrow> if \<not> ok then fail ErrInvalidCredentials else issueTokenPair L s (usr_ID u))"

definition Refresh :: "'w auth_lib \<Rightarrow> 'w auth_Service \<Rightarrow> string \<Rightarrow> ('w, TokenPair) go" where
  "Refresh L s refreshToken =
    check (with_now L (\<lambda>now. Verify (al_jwt L) (as_tokens s) now refreshToken TokenTypeRefresh)) (\<lambda>_. ErrInvalidCredentials) (\<lambda>claims.
    check (us_GetUserByID (as_users s) (c_UserID claims))
      (\<lambda>err. if errors_Is err ErrUserNotFound then ErrInvalidCredentials else Errorf ''auth: refresh'' err) (\<lambda>_.
    issueTokenPair L s (c_UserID claims)))"

definition CurrentUser :: "'w auth_Service \<Rightarrow> uuid \<Rightarrow> ('w, User) go" where
  "CurrentUser s userID =
    check (us_GetUserByID (as_users s) userID)
      (\<lambda>err. if errors_Is err ErrUserNotFound then ErrUserNotFound else Errorf ''auth: current user'' err) ret"

definition CreateAPIKey :: "'w auth_lib \<Rightarrow> 'w auth_Service \<Rightarrow> uuid \<Rightarrow> string \<Rightarrow> ('w, string \<times> APIKey) go" where
  "CreateAPIKey L s userID name =
    check (GenerateAPIKey (al_rand L)) (Errorf ''auth: generate api key'') (\<lambda>(raw, hash).
    with_new L (\<lambda>i. check (ks_CreateAPIKey (as_apiKeys s) i userID name hash) (Errorf ''auth: create api key'') (\<lambda>k.
    ret (raw, k))))"

definition ListAPIKeys :: "'w auth_Service \<Rightarrow> uuid \<Rightarrow> ('w, APIKey list) go" where
  "ListAPIKeys s userID = check (ks_ListAPIKeysByUser (as_apiKeys s) userID) (Errorf ''auth: list api keys'') ret"

definition RevokeAPIKey :: "'w auth_Service \<Rightarrow> uuid \<Rightarrow> uuid \<Rightarrow> ('w, unit) go" where
  "RevokeAPIKey s userID keyID =
    check (ks_RevokeAPIKey (as_apiKeys s) keyID userID)
      (\<lambda>err. if errors_Is err ErrAPIKeyNotFound then ErrAPIKeyNotFound else Errorf ''auth: revoke api key'' err) ret"

definition AuthenticateAPIKey :: "'w auth_Service \<Rightarrow> string \<Rightarrow> ('w, uuid) go" where
  "AuthenticateAPIKey s raw =
    check (ks_GetAPIKeyByHash (as_apiKeys s) (HashAPIKey raw))
      (\<lambda>err. if errors_Is err ErrAPIKeyNotFound then ErrInvalidAPIKey else Errorf ''auth: authenticate api key'' err) (\<lambda>k.
    ignore (ks_TouchAPIKeyLastUsed (as_apiKeys s) (ak_ID k)) (ret (ak_UserID k)))"

section \<open>The contract of the stores\<close>

record auth_abs =
  aa_users :: "uuid \<rightharpoonup> User"
  aa_keys :: "uuid \<rightharpoonup> APIKey"

definition put_user :: "User \<Rightarrow> auth_abs \<Rightarrow> auth_abs" where
  "put_user u a = a\<lparr>aa_users := (aa_users a)(usr_ID u \<mapsto> u)\<rparr>"

definition put_key :: "APIKey \<Rightarrow> auth_abs \<Rightarrow> auth_abs" where
  "put_key k a = a\<lparr>aa_keys := (aa_keys a)(ak_ID k \<mapsto> k)\<rparr>"

definition user_email :: "string \<Rightarrow> auth_abs \<Rightarrow> User \<Rightarrow> bool" where
  "user_email em a u \<longleftrightarrow> aa_users a (usr_ID u) = Some u \<and> usr_Email u = em"

definition stored_key :: "auth_abs \<Rightarrow> APIKey \<Rightarrow> bool" where
  "stored_key a k \<longleftrightarrow> aa_keys a (ak_ID k) = Some k"

definition active_key :: "string \<Rightarrow> auth_abs \<Rightarrow> APIKey \<Rightarrow> bool" where
  "active_key h a k \<longleftrightarrow> stored_key a k \<and> ak_KeyHash k = h \<and> ak_RevokedAt k = None"

definition revocable :: "uuid \<Rightarrow> uuid \<Rightarrow> auth_abs \<Rightarrow> APIKey \<Rightarrow> bool" where
  "revocable i u a k \<longleftrightarrow> aa_keys a i = Some k \<and> ak_UserID k = u \<and> ak_RevokedAt k = None"

definition new_key :: "uuid \<Rightarrow> uuid \<Rightarrow> string \<Rightarrow> string \<Rightarrow> instant \<Rightarrow> APIKey" where
  "new_key i u name h now = \<lparr>ak_ID = i, ak_UserID = u, ak_Name = name, ak_KeyHash = h, ak_LastUsedAt = None,
     ak_CreatedAt = now, ak_RevokedAt = None\<rparr>"

text \<open>An error in whose chain no sentinel of the auth package occurs.\<close>

definition auth_opaque :: "error \<Rightarrow> bool" where
  "auth_opaque e \<longleftrightarrow> (\<forall>x. \<not> errors_Is e (AuthErr x))"

lemma auth_opaque_simps [simp]:
  "auth_opaque (Errorf m e) = auth_opaque e" "\<not> auth_opaque (AuthErr x)" "auth_opaque (ErrIO m)" "auth_opaque (ErrMsg m)"
  "auth_opaque (PgError c)" "auth_opaque ErrNoRows" "auth_opaque (Panic m)"
  by (auto simp: auth_opaque_def)

lemma auth_opaque_Is [simp]: "auth_opaque e \<Longrightarrow> \<not> errors_Is e (AuthErr x)"
  by (simp add: auth_opaque_def)

text \<open>\<open>promises I \<alpha> m E F\<close>: a returned value comes with effect \<open>E\<close>; an error either is a sentinel, which says
  \<open>F\<close> of the state and leaves it as it was, or is opaque, after the effect or without it.\<close>

definition outcome :: "('a \<Rightarrow> 's \<Rightarrow> 's \<Rightarrow> bool) \<Rightarrow> (error \<Rightarrow> 's \<Rightarrow> bool) \<Rightarrow> error + 'a \<Rightarrow> 's \<Rightarrow> 's \<Rightarrow> bool" where
  "outcome E F r a a' \<longleftrightarrow> (case r of Inr x \<Rightarrow> E x a a'
     | Inl e \<Rightarrow> F e a \<and> a' = a \<or> auth_opaque e \<and> (a' = a \<or> (\<exists>x. E x a a')))"

definition promises ::
  "('w \<Rightarrow> bool) \<Rightarrow> ('w \<Rightarrow> 's) \<Rightarrow> ('w, 'a) go \<Rightarrow> ('a \<Rightarrow> 's \<Rightarrow> 's \<Rightarrow> bool) \<Rightarrow> (error \<Rightarrow> 's \<Rightarrow> bool) \<Rightarrow> bool" where
  "promises I \<alpha> m E F \<longleftrightarrow> (\<forall>w. I w \<longrightarrow> I (snd (m w)) \<and> outcome E F (fst (m w)) (\<alpha> w) (\<alpha> (snd (m w))))"

lemma outcome_Inr [simp]: "outcome E F (Inr x) a a' \<longleftrightarrow> E x a a'"
  by (simp add: outcome_def)

lemma outcome_Inl [simp]: "outcome E F (Inl e) a a' \<longleftrightarrow> F e a \<and> a' = a \<or> auth_opaque e \<and> (a' = a \<or> (\<exists>x. E x a a'))"
  by (simp add: outcome_def)

lemma outcome_mono:
  "outcome E F r a a' \<Longrightarrow> (\<And>x. E x a a' \<Longrightarrow> E' x a a') \<Longrightarrow> (\<And>e. F e a \<Longrightarrow> F' e a) \<Longrightarrow> outcome E' F' r a a'"
  by (cases r) auto

lemma promisesI:
  "(\<And>w r w'. I w \<Longrightarrow> m w = (r, w') \<Longrightarrow> I w' \<and> outcome E F r (\<alpha> w) (\<alpha> w')) \<Longrightarrow> promises I \<alpha> m E F"
  unfolding promises_def by (metis prod.collapse)

lemma promisesD: "promises I \<alpha> m E F \<Longrightarrow> I w \<Longrightarrow> m w = (r, w') \<Longrightarrow> I w' \<and> outcome E F r (\<alpha> w) (\<alpha> w')"
  by (metis promises_def fst_conv snd_conv)

text \<open>A method that is one call with its sentinel translated.\<close>

lemma promises_wrap:
  assumes "promises I \<alpha> m E (\<lambda>e a. e = AuthErr x \<and> N a)"
  shows "promises I \<alpha> (check m (\<lambda>e. if errors_Is e (AuthErr x) then AuthErr y else Errorf msg e) ret) E
    (\<lambda>e a. e = AuthErr y \<and> N a)"
proof (rule promisesI)
  fix w r w' assume w: "I w" and c: "check m (\<lambda>e. if errors_Is e (AuthErr x) then AuthErr y else Errorf msg e) ret w = (r, w')"
  obtain r1 w1 where m: "m w = (r1, w1)" by (cases "m w")
  note d = promisesD [OF assms w m]
  show "I w' \<and> outcome E (\<lambda>e a. e = AuthErr y \<and> N a) r (\<alpha> w) (\<alpha> w')"
  proof (cases r1)
    case (Inl e)
    then have "r = Inl (if errors_Is e (AuthErr x) then AuthErr y else Errorf msg e)" "w' = w1"
      using c m by (simp_all add: check_def)
    then show ?thesis using d Inl by auto
  qed (use c m d in \<open>auto simp: check_def\<close>)
qed

locale auth_backend =
  fixes U :: "'w UserStore" and K :: "'w APIKeyStore" and L :: "'w auth_lib"
    and I :: "'w \<Rightarrow> bool" and \<alpha> :: "'w \<Rightarrow> auth_abs"
  assumes user_ID: "\<lbrakk>I w; aa_users (\<alpha> w) i = Some u\<rbrakk> \<Longrightarrow> usr_ID u = i"
    and email_unique: "\<lbrakk>I w; user_email em (\<alpha> w) u; user_email em (\<alpha> w) u'\<rbrakk> \<Longrightarrow> u = u'"
    and key_ID: "\<lbrakk>I w; aa_keys (\<alpha> w) i = Some k\<rbrakk> \<Longrightarrow> ak_ID k = i"
    and hash_unique: "\<lbrakk>I w; stored_key (\<alpha> w) k; stored_key (\<alpha> w) k'; ak_KeyHash k = ak_KeyHash k'\<rbrakk> \<Longrightarrow> k = k'"
    and new_inv: "\<lbrakk>I w; al_new L w = (i, w')\<rbrakk> \<Longrightarrow> I w' \<and> \<alpha> w' = \<alpha> w"
    and now_inv: "\<lbrakk>I w; al_now L w = (t, w')\<rbrakk> \<Longrightarrow> I w' \<and> \<alpha> w' = \<alpha> w"
    and rand_inv: "promises I \<alpha> (al_rand L n) (\<lambda>_ a a'. a' = a) (\<lambda>_ _. False)"
    and create_user: "promises I \<alpha> (us_CreateUser U i em h)
      (\<lambda>u a a'. (\<exists>now. u = \<lparr>usr_ID = i, usr_Email = em, usr_PasswordHash = h, usr_CreatedAt = now\<rparr>)
        \<and> aa_users a i = None \<and> \<not> (\<exists>c. user_email em a c) \<and> a' = put_user u a)
      (\<lambda>e a. e = ErrEmailTaken \<and> (aa_users a i \<noteq> None \<or> (\<exists>c. user_email em a c)))"
    and user_by_email: "promises I \<alpha> (us_GetUserByEmail U em) (\<lambda>u a a'. a' = a \<and> user_email em a u)
      (\<lambda>e a. e = ErrUserNotFound \<and> \<not> (\<exists>u. user_email em a u))"
    and user_by_id: "promises I \<alpha> (us_GetUserByID U i) (\<lambda>u a a'. a' = a \<and> aa_users a i = Some u)
      (\<lambda>e a. e = ErrUserNotFound \<and> aa_users a i = None)"
    and create_key: "promises I \<alpha> (ks_CreateAPIKey K i uid name h)
      (\<lambda>k a a'. (\<exists>now. k = new_key i uid name h now) \<and> aa_keys a i = None \<and> aa_users a uid \<noteq> None
        \<and> \<not> (\<exists>c. stored_key a c \<and> ak_KeyHash c = h) \<and> a' = put_key k a) (\<lambda>_ _. False)"
    and list_keys: "promises I \<alpha> (ks_ListAPIKeysByUser K uid)
      (\<lambda>ks a a'. a' = a \<and> distinct ks \<and> sorted_wrt (\<lambda>k k'. ak_CreatedAt k' \<le> ak_CreatedAt k) ks
        \<and> set ks = {k. stored_key a k \<and> ak_UserID k = uid \<and> ak_RevokedAt k = None}) (\<lambda>_ _. False)"
    and key_by_hash: "promises I \<alpha> (ks_GetAPIKeyByHash K h) (\<lambda>k a a'. a' = a \<and> active_key h a k)
      (\<lambda>e a. e = ErrAPIKeyNotFound \<and> \<not> (\<exists>k. active_key h a k))"
    and revoke_key: "promises I \<alpha> (ks_RevokeAPIKey K i uid)
      (\<lambda>_ a a'. \<exists>k now. revocable i uid a k \<and> a' = put_key (k\<lparr>ak_RevokedAt := Some now\<rparr>) a)
      (\<lambda>e a. e = ErrAPIKeyNotFound \<and> \<not> (\<exists>k. revocable i uid a k))"
    and touch_key: "promises I \<alpha> (ks_TouchAPIKeyLastUsed K i)
      (\<lambda>_ a a'. \<exists>now. a' = (case aa_keys a i of None \<Rightarrow> a | Some k \<Rightarrow> put_key (k\<lparr>ak_LastUsedAt := Some now\<rparr>) a)) (\<lambda>_ _. False)"

section \<open>What the methods do\<close>

text \<open>Rules for the control structures: a call that only reads, then the rest.\<close>

lemma promises_ret: "(\<And>a. E x a a) \<Longrightarrow> promises I \<alpha> (ret x) E F"
  by (simp add: promises_def)

lemma promises_fail: "(\<And>a. F e a \<or> auth_opaque e) \<Longrightarrow> promises I \<alpha> (fail e) E F"
  by (simp add: promises_def)

lemma promises_read:
  assumes m: "promises I \<alpha> m (\<lambda>x a a'. a' = a \<and> R x a) F1"
    and f: "\<And>e a. F1 e a \<Longrightarrow> F (f e) a" "\<And>e. auth_opaque e \<Longrightarrow> auth_opaque (f e)"
    and k: "\<And>x. promises I \<alpha> (k x) (\<lambda>y a a'. R x a \<longrightarrow> E y a a') (\<lambda>e a. R x a \<longrightarrow> F e a)"
  shows "promises I \<alpha> (check m f k) E F"
proof (rule promisesI)
  fix w r w' assume w: "I w" and c: "check m f k w = (r, w')"
  obtain r1 w1 where mw: "m w = (r1, w1)" by (cases "m w")
  note d = promisesD [OF m w mw]
  show "I w' \<and> outcome E F r (\<alpha> w) (\<alpha> w')"
  proof (cases r1)
    case (Inl e)
    then have "r = Inl (f e)" "w' = w1" using c mw by (simp_all add: check_def)
    then show ?thesis using d Inl f by auto
  next
    case (Inr x)
    then have "k x w1 = (r, w')" using c mw by (simp add: check_def)
    from promisesD [OF k _ this] d Inr have "I w' \<and> outcome (\<lambda>y a a'. R x a \<longrightarrow> E y a a') (\<lambda>e a. R x a \<longrightarrow> F e a) r (\<alpha> w) (\<alpha> w')"
      by auto
    then show ?thesis using d Inr by (auto elim: outcome_mono)
  qed
qed

lemma promises_conv:
  assumes "promises I \<alpha> m E F" and "\<And>x a a'. E x a a' \<Longrightarrow> E' x a a'" and "\<And>e a. F e a \<Longrightarrow> F' e a"
  shows "promises I \<alpha> m E' F'"
  using assms(1) unfolding promises_def by (blast intro: outcome_mono assms(2,3))

lemma promises_map:
  assumes "promises I \<alpha> m E (\<lambda>_ _. False)" and "\<And>x a a'. E x a a' \<Longrightarrow> E' (g x) a a'"
  shows "promises I \<alpha> (check m (Errorf msg) (\<lambda>x. ret (g x))) E' F"
proof (rule promisesI)
  fix w r w' assume w: "I w" and c: "check m (Errorf msg) (\<lambda>x. ret (g x)) w = (r, w')"
  obtain r1 w1 where m: "m w = (r1, w1)" by (cases "m w")
  show "I w' \<and> outcome E' F r (\<alpha> w) (\<alpha> w')"
  proof (cases r1)
    case (Inl e)
    then show ?thesis using promisesD [OF assms(1) w m] c m by (auto simp: check_def dest!: assms(2))
  next
    case (Inr x)
    then show ?thesis using promisesD [OF assms(1) w m] c m assms(2) by (auto simp: check_def)
  qed
qed

lemma HashPassword_promises:
  assumes "\<And>n. promises I \<alpha> (rnd n) (\<lambda>_ a a'. a' = a) (\<lambda>_ _. False)"
  shows "promises I \<alpha> (HashPassword A rnd p) (\<lambda>h a a'. a' = a) (\<lambda>_ _. False)"
  unfolding HashPassword_def
  by (rule promises_read [where R = "\<lambda>_ _. True"])
     (auto simp: assms split: option.split intro!: promises_ret promises_fail)

lemma VerifyPassword_opaque: "VerifyPassword A h p = Some (Inl e) \<Longrightarrow> auth_opaque e"
  by (auto simp: VerifyPassword_def Let_def split: if_splits option.splits)

lemma verify_cases:
  fixes v :: "(error + bool) option"
  obtains (panic) "v = None" | (err) e where "v = Some (Inl e)" | (wrong) "v = Some (Inr False)" | (ok) "v = Some (Inr True)"
proof (cases v)
  case (Some r)
  show ?thesis
  proof (cases r)
    case (Inr b)
    with Some that(3,4) show ?thesis by (cases b) simp_all
  qed (use Some that(2) in simp)
qed (rule that(1))

lemma Issue_opaque:
  "IssueAccessToken J T t u = Inl e \<Longrightarrow> auth_opaque e" "IssueRefreshToken J T t u = Inl e \<Longrightarrow> auth_opaque e"
  by (auto simp: IssueAccessToken_def IssueRefreshToken_def issue_def split: sum.splits)

text \<open>The tokens of a pair were issued for \<open>u\<close>, at some times.\<close>

definition pair_for :: "jwt_lib \<Rightarrow> TokenIssuer \<Rightarrow> uuid \<Rightarrow> TokenPair \<Rightarrow> bool" where
  "pair_for J T u pair \<longleftrightarrow> (\<exists>t t'. IssueAccessToken J T t u = Inr (AccessToken pair)
     \<and> IssueRefreshToken J T t' u = Inr (RefreshToken pair))"

context auth_backend
begin

lemma now_rule:
  assumes "\<And>t e a. g t = Inl e \<Longrightarrow> F (f e) a \<or> auth_opaque (f e)" and "\<And>t x. g t = Inr x \<Longrightarrow> promises I \<alpha> (k x) E F"
  shows "promises I \<alpha> (check (with_now L g) f k) E F"
proof (rule promisesI)
  fix w r w' assume w: "I w" and m: "check (with_now L g) f k w = (r, w')"
  obtain t w1 where t: "al_now L w = (t, w1)" by (cases "al_now L w")
  have w1: "I w1" "\<alpha> w1 = \<alpha> w" using now_inv [OF w t] by simp_all
  show "I w' \<and> outcome E F r (\<alpha> w) (\<alpha> w')"
  proof (cases "g t")
    case (Inl e)
    then show ?thesis using m t w1 assms(1) [OF Inl, of "\<alpha> w"] by (auto simp: with_now_def check_def)
  next
    case (Inr x)
    then have "k x w1 = (r, w')" using m t by (simp add: with_now_def check_def)
    from promisesD [OF assms(2) [OF Inr] w1(1) this] w1 show ?thesis by simp
  qed
qed

lemma new_rule:
  assumes "\<And>i. promises I \<alpha> (k i) E F"
  shows "promises I \<alpha> (with_new L k) E F"
proof (rule promisesI)
  fix w r w' assume w: "I w" and m: "with_new L k w = (r, w')"
  obtain i w1 where i: "al_new L w = (i, w1)" by (cases "al_new L w")
  have w1: "I w1" "\<alpha> w1 = \<alpha> w" using new_inv [OF w i] by simp_all
  moreover have "k i w1 = (r, w')" using m i by (simp add: with_new_def)
  ultimately show "I w' \<and> outcome E F r (\<alpha> w) (\<alpha> w')" using promisesD [OF assms] by metis
qed

lemma issue_pair:
  "promises I \<alpha> (issueTokenPair L (auth_NewService U K T) u) (\<lambda>pair a a'. a' = a \<and> pair_for (al_jwt L) T u pair) (\<lambda>_ _. False)"
  unfolding issueTokenPair_def auth_NewService_def
  by (intro now_rule promises_ret) (auto simp: pair_for_def dest: Issue_opaque)

lemma user_by_email_unique:
  "promises I \<alpha> (us_GetUserByEmail U em) (\<lambda>u a a'. a' = a \<and> user_email em a u \<and> (\<forall>c. user_email em a c \<longrightarrow> c = u))
     (\<lambda>e a. e = ErrUserNotFound \<and> \<not> (\<exists>u. user_email em a u))"
proof (rule promisesI)
  fix w r w' assume w: "I w" and m: "us_GetUserByEmail U em w = (r, w')"
  from promisesD [OF user_by_email w m] email_unique [OF w]
  show "I w' \<and> outcome (\<lambda>u a a'. a' = a \<and> user_email em a u \<and> (\<forall>c. user_email em a c \<longrightarrow> c = u))
     (\<lambda>e a. e = ErrUserNotFound \<and> \<not> (\<exists>u. user_email em a u)) r (\<alpha> w) (\<alpha> w')"
    by (cases r) auto
qed

lemma Login_spec:
  "promises I \<alpha> (Login L (auth_NewService U K T) em pw)
    (\<lambda>pair a a'. a' = a \<and> (\<exists>u. user_email em a u \<and> VerifyPassword (al_IDKey L) (usr_PasswordHash u) pw = Some (Inr True)
       \<and> pair_for (al_jwt L) T (usr_ID u) pair))
    (\<lambda>e a. e = ErrInvalidCredentials
       \<and> (\<forall>u. user_email em a u \<longrightarrow> VerifyPassword (al_IDKey L) (usr_PasswordHash u) pw = Some (Inr False)))"
  (is "promises I \<alpha> ?m ?E ?F")
  unfolding Login_def
proof (rule promises_read)
  show "promises I \<alpha> (us_GetUserByEmail (as_users (auth_NewService U K T)) em)
      (\<lambda>u a a'. a' = a \<and> user_email em a u \<and> (\<forall>c. user_email em a c \<longrightarrow> c = u))
      (\<lambda>e a. e = ErrUserNotFound \<and> \<not> (\<exists>u. user_email em a u))"
    using user_by_email_unique [of em] by (simp add: auth_NewService_def)
next
  fix u :: User
  let ?k = "case VerifyPassword (al_IDKey L) (usr_PasswordHash u) pw of None \<Rightarrow> fail (Panic ''argon2'')
    | Some (Inl err) \<Rightarrow> fail (Errorf ''auth: verify password'' err)
    | Some (Inr ok) \<Rightarrow> if \<not> ok then fail ErrInvalidCredentials else issueTokenPair L (auth_NewService U K T) (usr_ID u)"
  let ?R = "\<lambda>a. user_email em a u \<and> (\<forall>c. user_email em a c \<longrightarrow> c = u)"
  show "promises I \<alpha> ?k (\<lambda>y a a'. ?R a \<longrightarrow> ?E y a a') (\<lambda>e a. ?R a \<longrightarrow> ?F e a)"
  proof (cases "VerifyPassword (al_IDKey L) (usr_PasswordHash u) pw" rule: verify_cases)
    case ok
    have "promises I \<alpha> (issueTokenPair L (auth_NewService U K T) (usr_ID u)) (\<lambda>y a a'. ?R a \<longrightarrow> ?E y a a') (\<lambda>e a. ?R a \<longrightarrow> ?F e a)"
      by (rule promises_conv [OF issue_pair]) (use ok in auto)
    with ok show ?thesis by simp
  next
    case (err e)
    then show ?thesis by simp (rule promises_fail, auto dest: VerifyPassword_opaque)
  next
    case wrong
    then show ?thesis by simp (rule promises_fail, auto)
  qed (simp add: promises_fail)
qed auto

lemma Refresh_spec:
  "promises I \<alpha> (Refresh L (auth_NewService U K T) tok)
    (\<lambda>pair a a'. a' = a \<and> (\<exists>c t. Verify (al_jwt L) T t tok TokenTypeRefresh = Inr c \<and> aa_users a (c_UserID c) \<noteq> None
       \<and> pair_for (al_jwt L) T (c_UserID c) pair))
    (\<lambda>e a. e = ErrInvalidCredentials \<and> (\<exists>t. (\<forall>c. Verify (al_jwt L) T t tok TokenTypeRefresh = Inr c \<longrightarrow> aa_users a (c_UserID c) = None)))"
  (is "promises I \<alpha> ?m ?E ?F")
  unfolding Refresh_def
proof (rule now_rule)
  fix t x assume v: "Verify (al_jwt L) (as_tokens (auth_NewService U K T)) t tok TokenTypeRefresh = Inr x"
  show "promises I \<alpha> (check (us_GetUserByID (as_users (auth_NewService U K T)) (c_UserID x))
      (\<lambda>err. if errors_Is err ErrUserNotFound then ErrInvalidCredentials else Errorf ''auth: refresh'' err)
      (\<lambda>_. issueTokenPair L (auth_NewService U K T) (c_UserID x))) ?E ?F"
  proof (rule promises_read)
    show "promises I \<alpha> (us_GetUserByID (as_users (auth_NewService U K T)) (c_UserID x))
        (\<lambda>u a a'. a' = a \<and> aa_users a (c_UserID x) = Some u) (\<lambda>e a. e = ErrUserNotFound \<and> aa_users a (c_UserID x) = None)"
      using user_by_id by (simp add: auth_NewService_def)
    show "?F ((\<lambda>err. if errors_Is err ErrUserNotFound then ErrInvalidCredentials else Errorf ''auth: refresh'' err) e) a"
      if "e = ErrUserNotFound \<and> aa_users a (c_UserID x) = None" for e a
      using that v by (auto simp: auth_NewService_def intro!: exI [of _ t])
  qed (use v in \<open>auto simp: auth_NewService_def [of U K T] intro!: promises_conv [OF issue_pair [unfolded auth_NewService_def]]\<close>)
next
  fix t e a assume "Verify (al_jwt L) (as_tokens (auth_NewService U K T)) t tok TokenTypeRefresh = Inl e"
  then show "?F ErrInvalidCredentials a \<or> auth_opaque ErrInvalidCredentials"
    by (auto simp: auth_NewService_def intro!: exI [of _ t])
qed

lemma CurrentUser_spec:
  "promises I \<alpha> (CurrentUser (auth_NewService U K T) i) (\<lambda>u a a'. a' = a \<and> aa_users a i = Some u)
     (\<lambda>e a. e = ErrUserNotFound \<and> aa_users a i = None)"
  using promises_wrap [OF user_by_id] by (simp add: CurrentUser_def auth_NewService_def)

lemma Revoke_spec:
  "promises I \<alpha> (RevokeAPIKey (auth_NewService U K T) uid i)
     (\<lambda>_ a a'. \<exists>k now. revocable i uid a k \<and> a' = put_key (k\<lparr>ak_RevokedAt := Some now\<rparr>) a)
     (\<lambda>e a. e = ErrAPIKeyNotFound \<and> \<not> (\<exists>k. revocable i uid a k))"
  using promises_wrap [OF revoke_key] by (simp add: RevokeAPIKey_def auth_NewService_def)

lemma List_spec:
  "promises I \<alpha> (ListAPIKeys (auth_NewService U K T) uid)
     (\<lambda>ks a a'. a' = a \<and> distinct ks \<and> sorted_wrt (\<lambda>k k'. ak_CreatedAt k' \<le> ak_CreatedAt k) ks
        \<and> set ks = {k. stored_key a k \<and> ak_UserID k = uid \<and> ak_RevokedAt k = None}) (\<lambda>_ _. False)"
  using promises_map [OF list_keys, where g = "\<lambda>x. x"] by (simp add: ListAPIKeys_def auth_NewService_def)

lemma generate_key:
  "promises I \<alpha> (GenerateAPIKey (al_rand L)) (\<lambda>p a a'. a' = a \<and> snd p = HashAPIKey (fst p)) (\<lambda>_ _. False)"
  unfolding GenerateAPIKey_def
  by (rule promises_read [where R = "\<lambda>_ _. True"]) (auto simp: rand_inv Let_def intro!: promises_ret)

lemma CreateAPIKey_spec:
  "promises I \<alpha> (CreateAPIKey L (auth_NewService U K T) uid name)
     (\<lambda>p a a'. (\<exists>i now. snd p = new_key i uid name (HashAPIKey (fst p)) now \<and> aa_keys a i = None) \<and> aa_users a uid \<noteq> None
        \<and> \<not> (\<exists>c. stored_key a c \<and> ak_KeyHash c = HashAPIKey (fst p)) \<and> a' = put_key (snd p) a) (\<lambda>_ _. False)"
  (is "promises I \<alpha> ?m ?E ?F")
  unfolding CreateAPIKey_def
proof (rule promises_read [OF generate_key])
  fix p :: "string \<times> string"
  obtain raw h where p: "p = (raw, h)" by (cases p)
  have "promises I \<alpha> (check (ks_CreateAPIKey K i uid name h) (Errorf ''auth: create api key'') (\<lambda>k. ret (raw, k)))
      (\<lambda>y a a'. h = HashAPIKey raw \<longrightarrow> ?E y a a') (\<lambda>e a. h = HashAPIKey raw \<longrightarrow> ?F e a)" for i
    by (rule promises_map [OF create_key]) auto
  then show "promises I \<alpha> (case p of (raw, hash) \<Rightarrow> with_new L (\<lambda>i. check (ks_CreateAPIKey (as_apiKeys (auth_NewService U K T)) i uid name hash)
      (Errorf ''auth: create api key'') (\<lambda>k. ret (raw, k)))) (\<lambda>y a a'. snd p = HashAPIKey (fst p) \<longrightarrow> ?E y a a') (\<lambda>e a. snd p = HashAPIKey (fst p) \<longrightarrow> ?F e a)"
    by (simp add: p auth_NewService_def new_rule)
qed auto

lemma touch_rule:
  "promises I \<alpha> (ignore (ks_TouchAPIKeyLastUsed K i) (ret x))
     (\<lambda>y a a'. y = x \<and> (a' = a \<or> (\<exists>k now. aa_keys a i = Some k \<and> a' = put_key (k\<lparr>ak_LastUsedAt := Some now\<rparr>) a))) (\<lambda>_ _. False)"
proof (rule promisesI)
  fix w r w' assume w: "I w" and c: "ignore (ks_TouchAPIKeyLastUsed K i) (ret x) w = (r, w')"
  obtain r1 w1 where m: "ks_TouchAPIKeyLastUsed K i w = (r1, w1)" by (cases "ks_TouchAPIKeyLastUsed K i w")
  have "I w1" and "\<alpha> w1 = \<alpha> w \<or> (\<exists>k now. aa_keys (\<alpha> w) i = Some k \<and> \<alpha> w1 = put_key (k\<lparr>ak_LastUsedAt := Some now\<rparr>) (\<alpha> w))"
    using promisesD [OF touch_key w m] by (cases r1; auto split: option.splits)+
  then show "I w' \<and> outcome (\<lambda>y a a'. y = x \<and> (a' = a \<or> (\<exists>k now. aa_keys a i = Some k \<and> a' = put_key (k\<lparr>ak_LastUsedAt := Some now\<rparr>) a))) (\<lambda>_ _. False) r (\<alpha> w) (\<alpha> w')"
    using c m by auto
qed

lemma Authenticate_spec:
  "promises I \<alpha> (AuthenticateAPIKey (auth_NewService U K T) raw)
     (\<lambda>uid a a'. \<exists>k. active_key (HashAPIKey raw) a k \<and> ak_UserID k = uid
        \<and> (a' = a \<or> (\<exists>now. a' = put_key (k\<lparr>ak_LastUsedAt := Some now\<rparr>) a)))
     (\<lambda>e a. e = ErrInvalidAPIKey \<and> \<not> (\<exists>k. active_key (HashAPIKey raw) a k))"
  unfolding AuthenticateAPIKey_def
proof (rule promises_read)
  show "promises I \<alpha> (ks_GetAPIKeyByHash (as_apiKeys (auth_NewService U K T)) (HashAPIKey raw))
      (\<lambda>k a a'. a' = a \<and> active_key (HashAPIKey raw) a k) (\<lambda>e a. e = ErrAPIKeyNotFound \<and> \<not> (\<exists>k. active_key (HashAPIKey raw) a k))"
    using key_by_hash by (simp add: auth_NewService_def)
qed (auto simp: auth_NewService_def active_key_def stored_key_def intro!: promises_conv [OF touch_rule])

lemma Register_spec:
  "promises I \<alpha> (auth_Register L (auth_NewService U K T) em pw)
     (\<lambda>u a a'. usr_Email u = em \<and> (\<exists>w0 w1. HashPassword (al_IDKey L) (al_rand L) pw w0 = (Inr (usr_PasswordHash u), w1))
        \<and> aa_users a (usr_ID u) = None \<and> \<not> (\<exists>c. user_email em a c) \<and> a' = put_user u a)
     (\<lambda>e a. e = ErrEmailTaken \<and> (\<exists>i c. aa_users a i = Some c \<and> (usr_Email c = em \<or> (\<exists>w0. i = fst (al_new L w0)))))"
  (is "promises I \<alpha> ?m ?E ?F")
proof (rule promisesI)
  let ?s = "auth_NewService U K T"
  fix w r w' assume w: "I w" and c: "auth_Register L ?s em pw w = (r, w')"
  obtain r1 w1 where h: "HashPassword (al_IDKey L) (al_rand L) pw w = (r1, w1)" by (cases "HashPassword (al_IDKey L) (al_rand L) pw w")
  have w1: "I w1 \<and> outcome (\<lambda>h a a'. a' = a) (\<lambda>_ _. False) r1 (\<alpha> w) (\<alpha> w1)"
    using promisesD [OF HashPassword_promises [OF rand_inv] w h] .
  show "I w' \<and> outcome ?E ?F r (\<alpha> w) (\<alpha> w')"
  proof (cases r1)
    case (Inl e)
    then show ?thesis using c h w1 by (cases e) (auto simp: auth_Register_def)
  next
    case (Inr hash)
    obtain i w2 where n: "al_new L w1 = (i, w2)" by (cases "al_new L w1")
    have w2: "I w2" "\<alpha> w2 = \<alpha> w" using new_inv [OF _ n] w1 Inr by auto
    let ?call = "check (us_CreateUser U i em hash)
      (\<lambda>err. if errors_Is err ErrEmailTaken then ErrEmailTaken else Errorf ''auth: register'' err) ret"
    have "?call w2 = (r, w')"
      using c h Inr n by (simp add: auth_Register_def with_new_def auth_NewService_def)
    from promisesD [OF promises_wrap [OF create_user] w2(1) this]
    show ?thesis
    proof (rule conj_mono [OF imp_refl, rule_format, rotated])
      assume "outcome (\<lambda>u a a'. (\<exists>now. u = \<lparr>usr_ID = i, usr_Email = em, usr_PasswordHash = hash, usr_CreatedAt = now\<rparr>)
          \<and> aa_users a i = None \<and> \<not> (\<exists>c. user_email em a c) \<and> a' = put_user u a)
        (\<lambda>e a. e = ErrEmailTaken \<and> (aa_users a i \<noteq> None \<or> (\<exists>c. user_email em a c))) r (\<alpha> w2) (\<alpha> w')"
      then show "outcome ?E ?F r (\<alpha> w) (\<alpha> w')"
        unfolding w2(2)
      proof (rule outcome_mono)
        have i: "i = fst (al_new L w1)" using n by simp
        fix e assume "e = ErrEmailTaken \<and> (aa_users (\<alpha> w) i \<noteq> None \<or> (\<exists>c. user_email em (\<alpha> w) c))"
        then show "?F e (\<alpha> w)" using i by (auto simp: user_email_def)
      qed (use h Inr in \<open>auto intro: exI [of _ w1] exI [of _ w]\<close>)
    qed
  qed
qed

end

end
