(* ===== verification/Auth_Store.thy ===== *)
theory Auth_Store
  imports Auth_Service Job_Correct
begin

text \<open>
  The Postgres stores of the authentication service (\<open>src/api/internal/store/userstore.go\<close>,
  \<open>src/api/internal/store/apikeystore.go\<close>), that they meet the contract \<open>auth_backend\<close>, and what the
  service promises when it runs on them in every world.
\<close>

section \<open>The stores\<close>

definition uniqueViolation :: string where
  "uniqueViolation = ''23505''"

definition fromDBUser :: "db_User \<Rightarrow> User" where
  "fromDBUser u = \<lparr>usr_ID = u_ID u, usr_Email = u_Email u, usr_PasswordHash = u_PasswordHash u, usr_CreatedAt = u_CreatedAt u\<rparr>"

definition fromDBAPIKey :: "db_ApiKey \<Rightarrow> APIKey" where
  "fromDBAPIKey k = \<lparr>ak_ID = k_ID k, ak_UserID = k_UserID k, ak_Name = k_Name k, ak_KeyHash = k_KeyHash k,
     ak_LastUsedAt = k_LastUsedAt k, ak_CreatedAt = k_CreatedAt k, ak_RevokedAt = k_RevokedAt k\<rparr>"

definition UserStore_CreateUser :: "uuid \<Rightarrow> string \<Rightarrow> string \<Rightarrow> (world, User) go" where
  "UserStore_CreateUser i email passwordHash =
    check (pg (q_CreateUser i email passwordHash))
      (\<lambda>err. if errors_As_PgError err = Some uniqueViolation then ErrEmailTaken else Errorf ''userstore: create'' err)
      (\<lambda>row. ret (fromDBUser row))"

definition UserStore_GetUserByEmail :: "string \<Rightarrow> (world, User) go" where
  "UserStore_GetUserByEmail email =
    check (pg (q_GetUserByEmail email))
      (\<lambda>err. if errors_Is err ErrNoRows then ErrUserNotFound else Errorf ''userstore: get by email'' err)
      (\<lambda>row. ret (fromDBUser row))"

definition UserStore_GetUserByID :: "uuid \<Rightarrow> (world, User) go" where
  "UserStore_GetUserByID i =
    check (pg (q_GetUserByID i))
      (\<lambda>err. if errors_Is err ErrNoRows then ErrUserNotFound else Errorf ''userstore: get by id'' err)
      (\<lambda>row. ret (fromDBUser row))"

definition APIKeyStore_CreateAPIKey :: "uuid \<Rightarrow> uuid \<Rightarrow> string \<Rightarrow> string \<Rightarrow> (world, APIKey) go" where
  "APIKeyStore_CreateAPIKey i userID name keyHash =
    check (pg (q_CreateAPIKey i userID name keyHash)) (Errorf ''apikeystore: create'') (\<lambda>row. ret (fromDBAPIKey row))"

definition APIKeyStore_ListAPIKeysByUser :: "uuid \<Rightarrow> (world, APIKey list) go" where
  "APIKeyStore_ListAPIKeysByUser userID =
    check (pg (q_ListAPIKeysByUser userID)) (Errorf ''apikeystore: list'') (\<lambda>rows. ret (map fromDBAPIKey rows))"

definition APIKeyStore_GetAPIKeyByHash :: "string \<Rightarrow> (world, APIKey) go" where
  "APIKeyStore_GetAPIKeyByHash keyHash =
    check (pg (q_GetAPIKeyByHash keyHash))
      (\<lambda>err. if errors_Is err ErrNoRows then ErrAPIKeyNotFound else Errorf ''apikeystore: get by hash'' err)
      (\<lambda>row. ret (fromDBAPIKey row))"

definition APIKeyStore_RevokeAPIKey :: "uuid \<Rightarrow> uuid \<Rightarrow> (world, unit) go" where
  "APIKeyStore_RevokeAPIKey i userID =
    check (pg (q_RevokeAPIKey i userID)) (Errorf ''apikeystore: revoke'') (\<lambda>affected.
      if affected = 0 then fail ErrAPIKeyNotFound else ret ())"

definition APIKeyStore_TouchAPIKeyLastUsed :: "uuid \<Rightarrow> (world, unit) go" where
  "APIKeyStore_TouchAPIKeyLastUsed i =
    check (pg (q_TouchAPIKeyLastUsed i)) (Errorf ''apikeystore: touch last used'') (\<lambda>_. ret ())"

definition NewUserStore :: "world UserStore" where
  "NewUserStore = \<lparr>us_CreateUser = UserStore_CreateUser, us_GetUserByEmail = UserStore_GetUserByEmail,
     us_GetUserByID = UserStore_GetUserByID\<rparr>"

definition NewAPIKeyStore :: "world APIKeyStore" where
  "NewAPIKeyStore = \<lparr>ks_CreateAPIKey = APIKeyStore_CreateAPIKey, ks_ListAPIKeysByUser = APIKeyStore_ListAPIKeysByUser,
     ks_GetAPIKeyByHash = APIKeyStore_GetAPIKeyByHash, ks_RevokeAPIKey = APIKeyStore_RevokeAPIKey,
     ks_TouchAPIKeyLastUsed = APIKeyStore_TouchAPIKeyLastUsed\<rparr>"

definition go_lib :: "idkey \<Rightarrow> jwt_lib \<Rightarrow> world auth_lib" where
  "go_lib A J = \<lparr>al_new = uuid_New, al_rand = rand_Read, al_now = time_Now, al_IDKey = A, al_jwt = J\<rparr>"

text \<open>The service as \<open>cmd/api/main.go\<close> assembles it.\<close>

definition authSvc :: "TokenIssuer \<Rightarrow> world auth_Service" where
  "authSvc tokens = auth_NewService NewUserStore NewAPIKeyStore tokens"

section \<open>The tables as maps\<close>

definition user_of :: "database \<Rightarrow> uuid \<Rightarrow> db_User option" where
  "user_of d i = find (\<lambda>u. u_ID u = i) (tbl_users d)"

definition key_of :: "database \<Rightarrow> uuid \<Rightarrow> db_ApiKey option" where
  "key_of d i = find (\<lambda>k. k_ID k = i) (tbl_api_keys d)"

definition abs_auth_db :: "database \<Rightarrow> auth_abs" where
  "abs_auth_db d = \<lparr>aa_users = (\<lambda>i. map_option fromDBUser (user_of d i)), aa_keys = (\<lambda>i. map_option fromDBAPIKey (key_of d i))\<rparr>"

definition abs_auth :: "world \<Rightarrow> auth_abs" where
  "abs_auth w = abs_auth_db (w_db w)"

lemma user_of_iff: "users_ok d \<Longrightarrow> user_of d i = Some u \<longleftrightarrow> u \<in> set (tbl_users d) \<and> u_ID u = i"
  unfolding user_of_def users_ok_def
  by (auto dest: find_eq_Some_mem intro: find_distinct_key [of u_ID])

lemma key_of_iff: "api_keys_ok d \<Longrightarrow> key_of d i = Some k \<longleftrightarrow> k \<in> set (tbl_api_keys d) \<and> k_ID k = i"
  unfolding key_of_def api_keys_ok_def
  by (auto dest: find_eq_Some_mem intro: find_distinct_key [of k_ID])

lemma user_of_None: "user_of d i = None \<longleftrightarrow> (\<forall>u \<in> set (tbl_users d). u_ID u \<noteq> i)"
  by (simp add: user_of_def find_None_mem)

lemma key_of_None: "key_of d i = None \<longleftrightarrow> (\<forall>k \<in> set (tbl_api_keys d). k_ID k \<noteq> i)"
  by (simp add: key_of_def find_None_mem)

lemma fromDB_fields [simp]:
  "usr_ID (fromDBUser u) = u_ID u" "usr_Email (fromDBUser u) = u_Email u" "usr_PasswordHash (fromDBUser u) = u_PasswordHash u"
  "ak_ID (fromDBAPIKey k) = k_ID k" "ak_UserID (fromDBAPIKey k) = k_UserID k" "ak_KeyHash (fromDBAPIKey k) = k_KeyHash k"
  "ak_RevokedAt (fromDBAPIKey k) = k_RevokedAt k" "ak_CreatedAt (fromDBAPIKey k) = k_CreatedAt k"
  by (simp_all add: fromDBUser_def fromDBAPIKey_def)

lemma abs_auth_sel [simp]:
  "aa_users (abs_auth_db d) i = map_option fromDBUser (user_of d i)" "aa_keys (abs_auth_db d) i = map_option fromDBAPIKey (key_of d i)"
  by (simp_all add: abs_auth_db_def)

lemma abs_auth_db_frame [simp]:
  "abs_auth_db (d\<lparr>tbl_jobs := js\<rparr>) = abs_auth_db d"
  by (simp add: abs_auth_db_def user_of_def key_of_def)

text \<open>The keys and users of a database with the constraints, seen through the maps.\<close>

lemma user_email_db:
  "users_ok d \<Longrightarrow> user_email em (abs_auth_db d) u \<longleftrightarrow> (\<exists>r \<in> set (tbl_users d). u = fromDBUser r \<and> u_Email r = em)"
  by (auto simp: user_email_def user_of_iff)

lemma stored_key_db:
  "api_keys_ok d \<Longrightarrow> stored_key (abs_auth_db d) k \<longleftrightarrow> k \<in> fromDBAPIKey ` set (tbl_api_keys d)"
  by (auto simp: stored_key_def key_of_iff)

lemma fromDBAPIKey_inj: "fromDBAPIKey k = fromDBAPIKey k' \<longleftrightarrow> k = k'"
  by (cases k; cases k') (simp add: fromDBAPIKey_def)

section \<open>The stores meet the contract\<close>

text \<open>The one lemma behind every operation: it is enough to look at the statement on a database that
  satisfies the constraints; a lost request or reply gives an opaque error.\<close>

lemma pg_promises:
  assumes S: "\<And>d now. schema_ok d \<Longrightarrow> schema_ok (snd (stmt now d))"
    and O: "\<And>d now. schema_ok d \<Longrightarrow> outcome E F (fst (check (stmt now) f k d)) (abs_auth_db d) (abs_auth_db (snd (stmt now d)))"
    and k: "\<And>x d w. \<exists>r. k x d = (r, d) \<and> kw x w = (r, w)"
    and f: "auth_opaque (f (ErrIO ''connection''))"
  shows "promises inv_world abs_auth (check (pg stmt) f kw) E F"
proof (rule promisesI)
  fix w r w' assume I: "inv_world w" and c: "check (pg stmt) f kw w = (r, w')"
  let ?st = "stmt (time_of w) (w_db w)"
  have ok: "schema_ok (w_db w)" using I by (simp add: inv_world_def)
  note o = O [OF ok, of "time_of w"]
  show "inv_world w' \<and> outcome E F r (abs_auth w) (abs_auth w')"
  proof (cases rule: pg_cases [of stmt w])
    case answered
    obtain r1 d1 where st: "?st = (r1, d1)" by (cases ?st)
    have "w' = after w d1 \<and> r = fst (check (stmt (time_of w)) f k (w_db w))"
    proof (cases r1)
      case (Inl e)
      then show ?thesis using c answered st by (auto simp: check_def)
    next
      case (Inr x)
      obtain r2 where "k x d1 = (r2, d1)" "kw x (after w d1) = (r2, after w d1)" using k by blast
      then show ?thesis using c answered st Inr by (auto simp: check_def)
    qed
    then show ?thesis using o S [OF ok, of "time_of w"] st by (simp add: inv_world_def abs_auth_def)
  next
    case (lost d)
    then have r: "r = Inl (f (ErrIO ''connection''))" "w' = after w d" using c by (auto simp: check_def)
    have "abs_auth_db (snd ?st) = abs_auth_db (w_db w) \<or> (\<exists>x. E x (abs_auth_db (w_db w)) (abs_auth_db (snd ?st)))"
      using o by (cases "fst (check (stmt (time_of w)) f k (w_db w))") auto
    then have "schema_ok d" and "abs_auth_db d = abs_auth_db (w_db w) \<or> (\<exists>x. E x (abs_auth_db (w_db w)) (abs_auth_db d))"
      using lost(2) ok S [OF ok, of "time_of w"] by auto
    then show ?thesis using r f by (auto simp: inv_world_def abs_auth_def)
  qed
qed

lemmas pg_promises_ret = pg_promises [where kw = "\<lambda>x. ret (g x)" and k = "\<lambda>x. ret (g x)" for g]

lemma schema_ok_parts: "schema_ok d \<Longrightarrow> users_ok d" "schema_ok d \<Longrightarrow> api_keys_ok d"
  by (simp_all add: schema_ok_def)

lemma find_append: "find p (xs @ ys) = (case find p xs of None \<Rightarrow> find p ys | Some x \<Rightarrow> Some x)"
  by (induction xs) auto

lemma abs_insert_user:
  "user_of d (u_ID u) = None \<Longrightarrow> abs_auth_db (d\<lparr>tbl_users := tbl_users d @ [u]\<rparr>) = put_user (fromDBUser u) (abs_auth_db d)"
  by (auto simp: abs_auth_db_def put_user_def user_of_def key_of_def find_append fun_eq_iff split: option.splits)

lemma abs_insert_key:
  "key_of d (k_ID k) = None \<Longrightarrow> abs_auth_db (d\<lparr>tbl_api_keys := tbl_api_keys d @ [k]\<rparr>) = put_key (fromDBAPIKey k) (abs_auth_db d)"
  by (auto simp: abs_auth_db_def put_key_def user_of_def key_of_def find_append fun_eq_iff split: option.splits)

lemma key_of_ID: "key_of d i = Some k \<Longrightarrow> k_ID k = i"
  by (auto simp: key_of_def dest: find_eq_Some_mem)

lemma user_of_ID: "user_of d i = Some u \<Longrightarrow> u_ID u = i"
  by (auto simp: user_of_def dest: find_eq_Some_mem)

text \<open>An update of the keys with one primary key is a point update.\<close>

lemma abs_update_key:
  assumes "\<And>k. k_ID (f k) = k_ID k" and "\<And>k. p k \<Longrightarrow> k_ID k = i"
  shows "abs_auth_db (d\<lparr>tbl_api_keys := update_where p f (tbl_api_keys d)\<rparr>) =
    (case key_of d i of Some k \<Rightarrow> if p k then put_key (fromDBAPIKey (f k)) (abs_auth_db d) else abs_auth_db d | None \<Rightarrow> abs_auth_db d)"
proof -
  have "key_of (d\<lparr>tbl_api_keys := update_where p f (tbl_api_keys d)\<rparr>) j = map_option (\<lambda>k. if p k then f k else k) (key_of d j)" for j
    by (simp add: key_of_def find_update_where [of k_ID, OF assms(1)])
  moreover have "map_option (\<lambda>k. if p k then f k else k) (key_of d j) =
      (case key_of d i of Some k \<Rightarrow> if p k then (key_of d)(i := Some (f k)) else key_of d | None \<Rightarrow> key_of d) j" for j
  proof (cases "key_of d j")
    case (Some k)
    then have "p k \<longrightarrow> j = i" using key_of_ID [OF Some] assms(2) by auto
    with Some show ?thesis by (cases "j = i") (auto split: option.split)
  qed (auto split: option.split)
  ultimately have k: "key_of (d\<lparr>tbl_api_keys := update_where p f (tbl_api_keys d)\<rparr>) =
      (case key_of d i of Some k \<Rightarrow> if p k then (key_of d)(i := Some (f k)) else key_of d | None \<Rightarrow> key_of d)" by auto
  show ?thesis
    unfolding abs_auth_db_def k
    by (auto simp: put_key_def fun_eq_iff user_of_def assms(1) key_of_ID split: option.splits)
qed

lemma UserStore_CreateUser_ok:
  "promises inv_world abs_auth (UserStore_CreateUser i em h)
     (\<lambda>u a a'. (\<exists>now. u = \<lparr>usr_ID = i, usr_Email = em, usr_PasswordHash = h, usr_CreatedAt = now\<rparr>)
        \<and> aa_users a i = None \<and> \<not> (\<exists>c. user_email em a c) \<and> a' = put_user u a)
     (\<lambda>e a. e = ErrEmailTaken \<and> (aa_users a i \<noteq> None \<or> (\<exists>c. user_email em a c)))"
  unfolding UserStore_CreateUser_def
proof (rule pg_promises_ret)
  fix d now assume d: "schema_ok d"
  then show "schema_ok (snd (q_CreateUser i em h now d))" by (rule schema_ok_CreateUser)
  let ?row = "\<lparr>u_ID = i, u_Email = em, u_PasswordHash = h, u_CreatedAt = now\<rparr>"
  show "outcome (\<lambda>u a a'. (\<exists>now. u = \<lparr>usr_ID = i, usr_Email = em, usr_PasswordHash = h, usr_CreatedAt = now\<rparr>)
        \<and> aa_users a i = None \<and> \<not> (\<exists>c. user_email em a c) \<and> a' = put_user u a)
      (\<lambda>e a. e = ErrEmailTaken \<and> (aa_users a i \<noteq> None \<or> (\<exists>c. user_email em a c)))
      (fst (check (q_CreateUser i em h now) (\<lambda>err. if errors_As_PgError err = Some uniqueViolation then ErrEmailTaken
         else Errorf ''userstore: create'' err) (\<lambda>row. ret (fromDBUser row)) d))
      (abs_auth_db d) (abs_auth_db (snd (q_CreateUser i em h now d)))"
  proof (cases "\<exists>u \<in> set (tbl_users d). u_ID u = i \<or> u_Email u = em")
    case True
    then have "user_of d i \<noteq> None \<or> (\<exists>c. user_email em (abs_auth_db d) c)"
      using user_of_None [of d i] user_email_db [OF schema_ok_parts(1) [OF d]] by blast
    with True show ?thesis by (simp add: q_CreateUser_def check_def uniqueViolation_def)
  next
    case False
    then have "user_of d i = None" by (auto simp: user_of_None)
    then show ?thesis
      using False abs_insert_user [of d ?row]
      by (auto simp: q_CreateUser_def check_def Let_def user_email_db [OF schema_ok_parts(1) [OF d]] fromDBUser_def)
  qed
qed (auto simp: uniqueViolation_def)

lemma UserStore_GetUserByEmail_ok:
  "promises inv_world abs_auth (UserStore_GetUserByEmail em) (\<lambda>u a a'. a' = a \<and> user_email em a u)
     (\<lambda>e a. e = ErrUserNotFound \<and> \<not> (\<exists>u. user_email em a u))"
  unfolding UserStore_GetUserByEmail_def
  by (rule pg_promises_ret)
     (auto simp: q_GetUserByEmail_def check_def user_email_db schema_ok_parts filter_empty_conv
       split: list.split dest!: filter_eq_ConsD)

lemma UserStore_GetUserByID_ok:
  "promises inv_world abs_auth (UserStore_GetUserByID i) (\<lambda>u a a'. a' = a \<and> aa_users a i = Some u)
     (\<lambda>e a. e = ErrUserNotFound \<and> aa_users a i = None)"
  unfolding UserStore_GetUserByID_def
  by (rule pg_promises_ret)
     (auto simp: q_GetUserByID_def check_def user_of_None user_of_iff schema_ok_parts filter_empty_conv
       split: list.split dest!: filter_eq_ConsD)

lemma APIKeyStore_CreateAPIKey_ok:
  "promises inv_world abs_auth (APIKeyStore_CreateAPIKey i uid name h)
     (\<lambda>k a a'. (\<exists>now. k = new_key i uid name h now) \<and> aa_keys a i = None \<and> aa_users a uid \<noteq> None
        \<and> \<not> (\<exists>c. stored_key a c \<and> ak_KeyHash c = h) \<and> a' = put_key k a) (\<lambda>_ _. False)"
  unfolding APIKeyStore_CreateAPIKey_def
proof (rule pg_promises_ret)
  fix d now assume d: "schema_ok d"
  then show "schema_ok (snd (q_CreateAPIKey i uid name h now d))" by (rule schema_ok_CreateAPIKey)
  let ?row = "\<lparr>k_ID = i, k_UserID = uid, k_Name = name, k_KeyHash = h, k_LastUsedAt = None, k_CreatedAt = now, k_RevokedAt = None\<rparr>"
  show "outcome (\<lambda>k a a'. (\<exists>now. k = new_key i uid name h now) \<and> aa_keys a i = None \<and> aa_users a uid \<noteq> None
        \<and> \<not> (\<exists>c. stored_key a c \<and> ak_KeyHash c = h) \<and> a' = put_key k a) (\<lambda>_ _. False)
      (fst (check (q_CreateAPIKey i uid name h now) (Errorf ''apikeystore: create'') (\<lambda>row. ret (fromDBAPIKey row)) d))
      (abs_auth_db d) (abs_auth_db (snd (q_CreateAPIKey i uid name h now d)))"
  proof (cases "(\<exists>k \<in> set (tbl_api_keys d). k_ID k = i \<or> k_KeyHash k = h) \<or> \<not> (\<exists>u \<in> set (tbl_users d). u_ID u = uid)")
    case True
    then show ?thesis by (auto simp: q_CreateAPIKey_def check_def)
  next
    case False
    then have k: "key_of d i = None" and u: "user_of d uid \<noteq> None" by (auto simp: user_of_None key_of_None)
    have n: "\<not> (\<exists>c. stored_key (abs_auth_db d) c \<and> ak_KeyHash c = h)"
      using False by (auto simp: stored_key_db [OF schema_ok_parts(2) [OF d]])
    have q: "q_CreateAPIKey i uid name h now d = (Inr ?row, d\<lparr>tbl_api_keys := tbl_api_keys d @ [?row]\<rparr>)"
      using False by (auto simp: q_CreateAPIKey_def Let_def)
    have r: "fromDBAPIKey ?row = new_key i uid name h now" by (simp add: fromDBAPIKey_def new_key_def)
    have "abs_auth_db (d\<lparr>tbl_api_keys := tbl_api_keys d @ [?row]\<rparr>) = put_key (new_key i uid name h now) (abs_auth_db d)"
      using abs_insert_key [of d ?row] k unfolding r by simp
    then show ?thesis using k u n unfolding check_def q by (auto simp: r)
  qed
qed auto

lemma APIKeyStore_GetAPIKeyByHash_ok:
  "promises inv_world abs_auth (APIKeyStore_GetAPIKeyByHash h) (\<lambda>k a a'. a' = a \<and> active_key h a k)
     (\<lambda>e a. e = ErrAPIKeyNotFound \<and> \<not> (\<exists>k. active_key h a k))"
  unfolding APIKeyStore_GetAPIKeyByHash_def
  by (rule pg_promises_ret)
     (auto simp: q_GetAPIKeyByHash_def check_def active_key_def stored_key_db schema_ok_parts filter_empty_conv
       split: list.split dest!: filter_eq_ConsD)

lemma APIKeyStore_ListAPIKeysByUser_ok:
  "promises inv_world abs_auth (APIKeyStore_ListAPIKeysByUser uid)
     (\<lambda>ks a a'. a' = a \<and> distinct ks \<and> sorted_wrt (\<lambda>k k'. ak_CreatedAt k' \<le> ak_CreatedAt k) ks
        \<and> set ks = {k. stored_key a k \<and> ak_UserID k = uid \<and> ak_RevokedAt k = None}) (\<lambda>_ _. False)"
  unfolding APIKeyStore_ListAPIKeysByUser_def
proof (rule pg_promises_ret)
  fix d now assume d: "schema_ok d"
  let ?rows = "sort_key (\<lambda>k. - k_CreatedAt k) (filter (\<lambda>k. k_UserID k = uid \<and> k_RevokedAt k = None) (tbl_api_keys d))"
  have "distinct (tbl_api_keys d)" using schema_ok_parts(2) [OF d] by (simp add: api_keys_ok_def distinct_map)
  then have "distinct (map fromDBAPIKey ?rows)" by (simp add: distinct_map inj_on_def fromDBAPIKey_inj)
  moreover have "sorted_wrt (\<lambda>k k'. ak_CreatedAt k' \<le> ak_CreatedAt k) (map fromDBAPIKey ?rows)"
    using sorted_sort_key [of "\<lambda>k. - k_CreatedAt k" "filter (\<lambda>k. k_UserID k = uid \<and> k_RevokedAt k = None) (tbl_api_keys d)"]
    by (simp add: sorted_map sorted_wrt_map)
  ultimately show "outcome (\<lambda>ks a a'. a' = a \<and> distinct ks \<and> sorted_wrt (\<lambda>k k'. ak_CreatedAt k' \<le> ak_CreatedAt k) ks
        \<and> set ks = {k. stored_key a k \<and> ak_UserID k = uid \<and> ak_RevokedAt k = None}) (\<lambda>_ _. False)
      (fst (check (q_ListAPIKeysByUser uid now) (Errorf ''apikeystore: list'') (\<lambda>rows. ret (map fromDBAPIKey rows)) d))
      (abs_auth_db d) (abs_auth_db (snd (q_ListAPIKeysByUser uid now d)))"
    by (auto simp: q_ListAPIKeysByUser_def check_def stored_key_db [OF schema_ok_parts(2) [OF d]])
qed (auto simp: q_ListAPIKeysByUser_def)

lemma APIKeyStore_TouchAPIKeyLastUsed_ok:
  "promises inv_world abs_auth (APIKeyStore_TouchAPIKeyLastUsed i)
     (\<lambda>_ a a'. \<exists>now. a' = (case aa_keys a i of None \<Rightarrow> a | Some k \<Rightarrow> put_key (k\<lparr>ak_LastUsedAt := Some now\<rparr>) a)) (\<lambda>_ _. False)"
  unfolding APIKeyStore_TouchAPIKeyLastUsed_def
proof (rule pg_promises_ret)
  fix d now assume d: "schema_ok d"
  then show "schema_ok (snd (q_TouchAPIKeyLastUsed i now d))" by (simp add: q_TouchAPIKeyLastUsed_def schema_ok_update_keys)
  have "key_of d i = Some k \<Longrightarrow> k_ID k = i" for k by (auto simp: key_of_def dest: find_eq_Some_mem)
  then show "outcome (\<lambda>_ a a'. \<exists>now. a' = (case aa_keys a i of None \<Rightarrow> a | Some k \<Rightarrow> put_key (k\<lparr>ak_LastUsedAt := Some now\<rparr>) a)) (\<lambda>_ _. False)
      (fst (check (q_TouchAPIKeyLastUsed i now) (Errorf ''apikeystore: touch last used'') (\<lambda>_. ret ()) d))
      (abs_auth_db d) (abs_auth_db (snd (q_TouchAPIKeyLastUsed i now d)))"
    using abs_update_key [of "\<lambda>k. k\<lparr>k_LastUsedAt := Some now\<rparr>" "\<lambda>k. k_ID k = i" i d]
    by (auto simp: q_TouchAPIKeyLastUsed_def check_def fromDBAPIKey_def split: option.splits intro!: exI [of _ now])
qed auto

lemma APIKeyStore_RevokeAPIKey_ok:
  "promises inv_world abs_auth (APIKeyStore_RevokeAPIKey i uid)
     (\<lambda>_ a a'. \<exists>k now. revocable i uid a k \<and> a' = put_key (k\<lparr>ak_RevokedAt := Some now\<rparr>) a)
     (\<lambda>e a. e = ErrAPIKeyNotFound \<and> \<not> (\<exists>k. revocable i uid a k))"
  unfolding APIKeyStore_RevokeAPIKey_def
proof (rule pg_promises [where k = "\<lambda>affected. if affected = 0 then fail ErrAPIKeyNotFound else ret ()"])
  fix d now assume d: "schema_ok d"
  then show "schema_ok (snd (q_RevokeAPIKey i uid now d))" by (simp add: q_RevokeAPIKey_def Let_def schema_ok_update_keys)
  let ?p = "\<lambda>k. k_ID k = i \<and> k_UserID k = uid \<and> k_RevokedAt k = None"
  have upd: "abs_auth_db (snd (q_RevokeAPIKey i uid now d)) = (case key_of d i of
      Some k \<Rightarrow> if ?p k then put_key (fromDBAPIKey (k\<lparr>k_RevokedAt := Some now\<rparr>)) (abs_auth_db d) else abs_auth_db d | None \<Rightarrow> abs_auth_db d)"
    using abs_update_key [of "\<lambda>k. k\<lparr>k_RevokedAt := Some now\<rparr>" ?p i d] by (simp add: q_RevokeAPIKey_def Let_def)
  show "outcome (\<lambda>_ a a'. \<exists>k now. revocable i uid a k \<and> a' = put_key (k\<lparr>ak_RevokedAt := Some now\<rparr>) a)
      (\<lambda>e a. e = ErrAPIKeyNotFound \<and> \<not> (\<exists>k. revocable i uid a k))
      (fst (check (q_RevokeAPIKey i uid now) (Errorf ''apikeystore: revoke'') (\<lambda>affected. if affected = 0 then fail ErrAPIKeyNotFound else ret ()) d))
      (abs_auth_db d) (abs_auth_db (snd (q_RevokeAPIKey i uid now d)))"
  proof (cases "\<exists>k \<in> set (tbl_api_keys d). ?p k")
    case True
    then obtain k where k: "key_of d i = Some k" "?p k" using key_of_iff [OF schema_ok_parts(2) [OF d]] by blast
    then have "filter ?p (tbl_api_keys d) \<noteq> []" using True by (auto simp: filter_empty_conv)
    then show ?thesis using k upd
      by (auto simp: q_RevokeAPIKey_def check_def Let_def revocable_def fromDBAPIKey_def)
  next
    case False
    then have "filter ?p (tbl_api_keys d) = []" and "\<And>k. key_of d i = Some k \<Longrightarrow> \<not> ?p k"
      using key_of_iff [OF schema_ok_parts(2) [OF d]] by (auto simp: filter_empty_conv)
    then show ?thesis using upd
      by (auto simp: q_RevokeAPIKey_def check_def Let_def revocable_def dest: key_of_ID split: option.splits)
  qed
qed auto

lemma rand_Read_ok: "promises inv_world abs_auth (rand_Read n) (\<lambda>_ a a'. a' = a) (\<lambda>_ _. False)"
  by (auto simp: promises_def rand_Read_def inv_world_def abs_auth_def split: option.split)

lemmas store_ok = UserStore_CreateUser_ok UserStore_GetUserByEmail_ok UserStore_GetUserByID_ok APIKeyStore_CreateAPIKey_ok
  APIKeyStore_ListAPIKeysByUser_ok APIKeyStore_GetAPIKeyByHash_ok APIKeyStore_RevokeAPIKey_ok
  APIKeyStore_TouchAPIKeyLastUsed_ok rand_Read_ok

lemma store_sels [simp]:
  "us_CreateUser NewUserStore = UserStore_CreateUser" "us_GetUserByEmail NewUserStore = UserStore_GetUserByEmail"
  "us_GetUserByID NewUserStore = UserStore_GetUserByID" "ks_CreateAPIKey NewAPIKeyStore = APIKeyStore_CreateAPIKey"
  "ks_ListAPIKeysByUser NewAPIKeyStore = APIKeyStore_ListAPIKeysByUser"
  "ks_GetAPIKeyByHash NewAPIKeyStore = APIKeyStore_GetAPIKeyByHash" "ks_RevokeAPIKey NewAPIKeyStore = APIKeyStore_RevokeAPIKey"
  "ks_TouchAPIKeyLastUsed NewAPIKeyStore = APIKeyStore_TouchAPIKeyLastUsed"
  "al_new (go_lib A J) = uuid_New" "al_rand (go_lib A J) = rand_Read" "al_now (go_lib A J) = time_Now"
  "al_IDKey (go_lib A J) = A" "al_jwt (go_lib A J) = J"
  by (simp_all add: NewUserStore_def NewAPIKeyStore_def go_lib_def)

interpretation pgauth: auth_backend NewUserStore NewAPIKeyStore "go_lib A J" inv_world abs_auth
proof
  show "\<lbrakk>inv_world w; aa_users (abs_auth w) i = Some u\<rbrakk> \<Longrightarrow> usr_ID u = i" for w i u
    by (auto simp: abs_auth_def user_of_ID)
  show "\<lbrakk>inv_world w; aa_keys (abs_auth w) i = Some k\<rbrakk> \<Longrightarrow> ak_ID k = i" for w i k
    by (auto simp: abs_auth_def key_of_ID)
  show "u = u'" if "inv_world w" "user_email em (abs_auth w) u" "user_email em (abs_auth w) u'" for w em u u'
  proof -
    have o: "users_ok (w_db w)" using that(1) by (simp add: inv_world_def schema_ok_parts)
    then have "distinct (map u_Email (tbl_users (w_db w)))" by (simp add: users_ok_def)
    then show ?thesis using that(2,3) o by (auto simp: abs_auth_def user_email_db dest: distinct_map_eq)
  qed
  show "k = k'" if "inv_world w" "stored_key (abs_auth w) k" "stored_key (abs_auth w) k'" "ak_KeyHash k = ak_KeyHash k'" for w k k'
  proof -
    have o: "api_keys_ok (w_db w)" using that(1) by (simp add: inv_world_def schema_ok_parts)
    then have "distinct (map k_KeyHash (tbl_api_keys (w_db w)))" by (simp add: api_keys_ok_def)
    then show ?thesis using that(2-) o by (auto simp: abs_auth_def stored_key_db dest: distinct_map_eq)
  qed
qed (simp_all only: store_sels store_ok, auto simp: uuid_New_def time_Now_def inv_world_def abs_auth_def)

end
