(* ===== verification/Auth_Correct.thy ===== *)
theory Auth_Correct
  imports Auth_Store
begin

text \<open>
  What the authentication service promises on Postgres, in every world: who can log in, how long an API
  key is good for, and what a revocation does, also against everything the API does to the database
  between the calls.
\<close>

section \<open>How keys and users evolve\<close>

definition key_evolves :: "db_ApiKey \<Rightarrow> db_ApiKey \<Rightarrow> bool" where
  "key_evolves k k' \<longleftrightarrow> k_UserID k' = k_UserID k \<and> k_KeyHash k' = k_KeyHash k \<and> k_Name k' = k_Name k
     \<and> (k_RevokedAt k \<noteq> None \<longrightarrow> k_RevokedAt k' = k_RevokedAt k)"

lemma key_evolves_refl [simp]: "key_evolves k k"
  by (simp add: key_evolves_def)

lemma key_evolves_trans: "key_evolves k k' \<Longrightarrow> key_evolves k' k'' \<Longrightarrow> key_evolves k k''"
  by (simp add: key_evolves_def)

lemma key_of_update:
  "(\<And>k. k_ID (f k) = k_ID k) \<Longrightarrow>
    key_of (d\<lparr>tbl_api_keys := update_where p f (tbl_api_keys d)\<rparr>) i = map_option (\<lambda>k. if p k then f k else k) (key_of d i)"
  by (simp add: key_of_def find_update_where [of k_ID])

lemma keys_frame: "tbl_api_keys d' = tbl_api_keys d \<Longrightarrow> key_of d' i = key_of d i"
  by (simp add: key_of_def)

lemma api_stmt_keys:
  assumes "api_stmt d d'" and "key_of d i = Some k"
  shows "\<exists>k'. key_of d' i = Some k' \<and> key_evolves k k'"
  using assms
proof (induction rule: api_stmt.induct)
  case (create_api_key d j u n h now)
  then show ?case by (auto simp: q_CreateAPIKey_def Let_def key_of_def find_append)
next
  case (revoke_api_key d j u now)
  then show ?case by (auto simp: q_RevokeAPIKey_def Let_def key_of_update key_evolves_def)
next
  case (touch_api_key d j now)
  then show ?case by (auto simp: q_TouchAPIKeyLastUsed_def key_of_update key_evolves_def)
qed (auto simp: q_CreateJob_def q_UpdateJobStatus_def q_RetryJob_def q_CancelJob_def q_RequeueExpiredJob_def
    q_FailExpiredJob_def q_SoftDeleteJob_def q_CreateJobEvent_def q_CreateUser_def Let_def update_jobs_returning_def
    keys_frame [of "_\<lparr>tbl_jobs := _\<rparr>"] keys_frame [of "_\<lparr>tbl_users := _\<rparr>"] keys_frame [of "_\<lparr>tbl_job_events := _, notify_queue := _\<rparr>"])

lemma api_stmts_keys:
  assumes "api_stmt\<^sup>*\<^sup>* d d'" and "key_of d i = Some k"
  shows "\<exists>k'. key_of d' i = Some k' \<and> key_evolves k k'"
  using assms
proof (induction rule: rtranclp_induct)
  case (step e f)
  then show ?case by (meson api_stmt_keys key_evolves_trans)
qed auto

lemma api_stmts_users:
  "api_stmt\<^sup>*\<^sup>* d d' \<Longrightarrow> u \<in> set (tbl_users d) \<Longrightarrow> u \<in> set (tbl_users d')"
  using api_stmts_evolves set_mono_prefix by (fastforce simp: evolves_def)

section \<open>Logging in\<close>

text \<open>Selecting by a unique column.\<close>

lemma filter_unique:
  "distinct (map k xs) \<Longrightarrow> r \<in> set xs \<Longrightarrow> filter (\<lambda>x. k x = k r \<and> p x) xs = (if p r then [r] else [])"
proof (induction xs)
  case (Cons x xs)
  show ?case
  proof (cases "x = r")
    case True
    then have "k y \<noteq> k r" if "y \<in> set xs" for y using Cons.prems(1) that by (auto simp: image_iff)
    then have "filter (\<lambda>x. k x = k r \<and> p x) xs = []" by (auto simp: filter_empty_conv)
    with True show ?thesis by simp
  next
    case False
    then have "k x \<noteq> k r" using Cons.prems by (auto simp: image_iff)
    with False Cons show ?thesis by simp
  qed
qed simp

lemma user_by_email_answered:
  assumes "inv_world w" and "answered w" and "r \<in> set (tbl_users (w_db w))" and "u_Email r = em"
  shows "UserStore_GetUserByEmail em w = (Inr (fromDBUser r), after w (w_db w))"
proof -
  have d: "distinct (map u_Email (tbl_users (w_db w)))"
    using assms(1) by (simp add: inv_world_def schema_ok_def users_ok_def)
  have "q_GetUserByEmail em now (w_db w) = (Inr r, w_db w)" for now
    using filter_unique [OF d assms(3), of "\<lambda>_. True"] assms(4) by (simp add: q_GetUserByEmail_def)
  then show ?thesis by (simp add: UserStore_GetUserByEmail_def check_def pg_answered [OF assms(2)])
qed

lemma issue_signs:
  assumes "\<forall>k c. \<exists>tok. jwt_SignedString J k c = Inr tok"
  shows "\<exists>tok. IssueAccessToken J T now u = Inr tok" "\<exists>tok. IssueRefreshToken J T now u = Inr tok"
  using assms by (auto simp: IssueAccessToken_def IssueRefreshToken_def issue_def split: sum.split, metis Inr_not_Inl)+

text \<open>The trouble a login can have that is not the caller's: the query was lost; the stored hash is malformed or makes the hash function
  panic; or the password matches and the tokens could not be signed.\<close>

definition login_trouble :: "idkey \<Rightarrow> jwt_lib \<Rightarrow> string \<Rightarrow> string \<Rightarrow> world \<Rightarrow> bool" where
  "login_trouble A J em pw w \<longleftrightarrow> \<not> answered w
   \<or> (\<exists>u \<in> set (tbl_users (w_db w)). u_Email u = em \<and>
       (case VerifyPassword A (u_PasswordHash u) pw of Some (Inr ok) \<Rightarrow> ok \<and> (\<exists>k c e. jwt_SignedString J k c = Inl e) | _ \<Rightarrow> True))"

lemma no_user_answered:
  assumes "answered w" and "\<forall>r \<in> set (tbl_users (w_db w)). u_Email r \<noteq> em"
  shows "UserStore_GetUserByEmail em w = (Inl ErrUserNotFound, after w (w_db w))"
proof -
  have "filter (\<lambda>u. u_Email u = em) (tbl_users (w_db w)) = []" using assms(2) by (simp add: filter_empty_conv)
  then show ?thesis by (simp add: UserStore_GetUserByEmail_def q_GetUserByEmail_def check_def pg_answered [OF assms(1)])
qed

lemma issue_fails:
  "IssueAccessToken J T now u = Inl e \<Longrightarrow> \<exists>k c e. jwt_SignedString J k c = Inl e"
  "IssueRefreshToken J T now u = Inl e \<Longrightarrow> \<exists>k c e. jwt_SignedString J k c = Inl e"
  by (auto simp: IssueAccessToken_def IssueRefreshToken_def issue_def split: sum.splits)

lemma login_error_trouble:
  assumes "inv_world w" and "Login (go_lib A J) (authSvc T) em pw w = (Inl e, w')" and "e \<noteq> ErrInvalidCredentials"
  shows "login_trouble A J em pw w"
proof (rule ccontr)
  assume n: "\<not> login_trouble A J em pw w"
  then have ans: "answered w" by (simp add: login_trouble_def)
  show False
  proof (cases "\<exists>r \<in> set (tbl_users (w_db w)). u_Email r = em")
    case False
    then show False using no_user_answered [OF ans, of em] assms(2,3)
      by (auto simp: Login_def authSvc_def auth_NewService_def check_def)
  next
    case True
    then obtain r where r: "r \<in> set (tbl_users (w_db w))" "u_Email r = em" by blast
    with n have v: "\<not> (case VerifyPassword A (u_PasswordHash r) pw of
        Some (Inr ok) \<Rightarrow> ok \<and> (\<exists>k c e. jwt_SignedString J k c = Inl e) | _ \<Rightarrow> True)" unfolding login_trouble_def by blast
    then obtain ok where ok: "VerifyPassword A (u_PasswordHash r) pw = Some (Inr ok)" "ok \<Longrightarrow> \<not> (\<exists>k c e. jwt_SignedString J k c = Inl e)"
      by (auto split: option.splits sum.splits)
    then show False using user_by_email_answered [OF assms(1) ans r] ok assms(2,3) issue_fails
      by (fastforce simp: Login_def authSvc_def auth_NewService_def issueTokenPair_def with_now_def check_def split: if_splits sum.splits prod.splits)
  qed
qed

text \<open>C27. A login changes nothing and succeeds only for a stored user with that email whose stored hash the
  password matches; the two tokens are then tokens for that user. It answers \<open>ErrInvalidCredentials\<close> only
  when no stored user has that email and a matching password, whichever of the two is missing. Every
  other error comes from outside the service, and only when the query was lost, the stored hash of that user is malformed, or the password was
  right and the tokens could not be signed: so an unknown email and a wrong password get the same error.\<close>

theorem login_outcome:
  assumes "inv_world w" and "Login (go_lib A J) (authSvc T) em pw w = (r, w')"
  shows "inv_world w' \<and> abs_auth w' = abs_auth w \<and> (case r of
      Inr pair \<Rightarrow> \<exists>u \<in> set (tbl_users (w_db w)). u_Email u = em \<and> VerifyPassword A (u_PasswordHash u) pw = Some (Inr True)
        \<and> pair_for J T (u_ID u) pair
    | Inl e \<Rightarrow> e = ErrInvalidCredentials
        \<and> (\<forall>u \<in> set (tbl_users (w_db w)). u_Email u = em \<longrightarrow> VerifyPassword A (u_PasswordHash u) pw = Some (Inr False))
      \<or> auth_opaque e \<and> login_trouble A J em pw w)"
proof -
  have U: "users_ok (w_db w)" using assms(1) by (simp add: inv_world_def schema_ok_parts)
  have "auth_opaque e \<Longrightarrow> r = Inl e \<Longrightarrow> login_trouble A J em pw w" for e
    using login_error_trouble [OF assms(1), of A J T em pw e w'] assms(2) by (cases "e = ErrInvalidCredentials") auto
  with promisesD [OF pgauth.Login_spec assms(1) assms(2) [unfolded authSvc_def]] show ?thesis
    by (cases r) (auto simp: abs_auth_def user_email_db [OF U])
qed

text \<open>C28. Whoever registered can log in: after a registration that returned, and after anything the API
  does to the database in between, a login with the same email and password succeeds when no call
  fails, and its access token is accepted, for the new user, until its lifetime is over.\<close>

theorem register_login:
  assumes "idkey_ok A" and "jwt_honest J" and sign: "\<forall>k c. \<exists>tok. jwt_SignedString J k c = Inr tok"
    and "inv_world w" and reg: "auth_Register (go_lib A J) (authSvc T) em pw w = (Inr u, w1)"
    and later: "api_stmt\<^sup>*\<^sup>* (w_db w1) (w_db w2)" and "fault_free w2"
  shows "\<exists>pair w3. Login (go_lib A J) (authSvc T) em pw w2 = (Inr pair, w3) \<and>
    (\<forall>now. let t = clock (w_env w2) (Suc (w_calls w2)) in Verify J T now (AccessToken pair) TokenTypeAccess =
      (if now < numeric_date (t + ti_accessTokenTTL T) then Inr (issued_claims (usr_ID u) TokenTypeAccess (ti_accessTokenTTL T) t)
       else Inl ErrInvalidToken))"
proof -
  note d = promisesD [OF pgauth.Register_spec assms(4) reg [unfolded authSvc_def], simplified]
  have w1: "inv_world w1" using d by blast
  then have w2: "inv_world w2" using later api_stmts_schema_ok by (auto simp: inv_world_def)
  have "aa_users (abs_auth w1) (usr_ID u) = Some u" using d by (auto simp: put_user_def)
  then obtain r where r: "user_of (w_db w1) (usr_ID u) = Some r" "fromDBUser r = u" by (auto simp: abs_auth_def)
  then have "r \<in> set (tbl_users (w_db w1))" by (auto simp: user_of_def dest: find_eq_Some_mem)
  then have r2: "r \<in> set (tbl_users (w_db w2))" using later api_stmts_users by blast
  have em: "u_Email r = em" using r(2) d by auto
  have get: "UserStore_GetUserByEmail em w2 = (Inr u, after w2 (w_db w2))"
    using user_by_email_answered [OF w2 _ r2 em] assms(7) r(2) by simp
  have v: "VerifyPassword A (usr_PasswordHash u) pw = Some (Inr True)"
  proof -
    obtain w0 w0' where "HashPassword A rand_Read pw w0 = (Inr (usr_PasswordHash u), w0')" using d by blast
    from Verify_hashed [OF assms(1) this] show ?thesis by auto
  qed
  let ?t = "clock (w_env w2) (Suc (w_calls w2))"
  let ?t' = "clock (w_env w2) (Suc (Suc (w_calls w2)))"
  obtain a f where a: "IssueAccessToken J T ?t (usr_ID u) = Inr a" and f: "IssueRefreshToken J T ?t' (usr_ID u) = Inr f"
    using issue_signs [OF sign] by metis
  have "\<exists>w3. Login (go_lib A J) (authSvc T) em pw w2 = (Inr \<lparr>AccessToken = a, RefreshToken = f\<rparr>, w3)"
    using a f by (simp add: Login_def authSvc_def auth_NewService_def get v issueTokenPair_def with_now_def check_def time_Now_def)
  moreover have "Verify J T now a TokenTypeAccess = (if now < numeric_date (?t + ti_accessTokenTTL T)
      then Inr (issued_claims (usr_ID u) TokenTypeAccess (ti_accessTokenTTL T) ?t) else Inl ErrInvalidToken)" for now
    using Verify_issued [OF assms(2) _ a [unfolded IssueAccessToken_def]] by simp
  ultimately show ?thesis by (auto simp: Let_def)
qed

section \<open>API keys\<close>

lemma key_by_hash_answered:
  assumes "inv_world w" and "answered w" and r: "key_of (w_db w) i = Some r"
    and that: "HashAPIKey raw = k_KeyHash r"
  shows "fst (AuthenticateAPIKey (authSvc T) raw w) = (if k_RevokedAt r = None then Inr (k_UserID r) else Inl ErrInvalidAPIKey)"
proof -
  have k: "api_keys_ok (w_db w)" using assms(1) by (simp add: inv_world_def schema_ok_parts)
  then have d: "distinct (map k_KeyHash (tbl_api_keys (w_db w)))" by (simp add: api_keys_ok_def)
  have m: "r \<in> set (tbl_api_keys (w_db w))" using r key_of_iff [OF k] by blast
  have "q_GetAPIKeyByHash (k_KeyHash r) now (w_db w) = (if k_RevokedAt r = None then Inr r else Inl ErrNoRows, w_db w)" for now
    using filter_unique [OF d m, of "\<lambda>k. k_RevokedAt k = None"] by (simp add: q_GetAPIKeyByHash_def)
  then show ?thesis
    by (simp add: AuthenticateAPIKey_def authSvc_def auth_NewService_def that APIKeyStore_GetAPIKeyByHash_def check_def
        pg_answered [OF assms(2)])
qed

text \<open>C29. An API key is good for its owner until it is revoked: after a creation that returned, and after
  anything the API does to the database in between, presenting the key gives the identity of the user
  it was created for while the stored key is not revoked, and \<open>ErrInvalidAPIKey\<close> from then on.\<close>

theorem api_key_lifecycle:
  assumes "inv_world w" and create: "CreateAPIKey (go_lib A J) (authSvc T) uid name w = (Inr (raw, k), w1)"
    and later: "api_stmt\<^sup>*\<^sup>* (w_db w1) (w_db w2)" and "answered w2"
  shows "\<exists>r. key_of (w_db w2) (ak_ID k) = Some r \<and> k_UserID r = uid \<and> k_KeyHash r = HashAPIKey raw
    \<and> fst (AuthenticateAPIKey (authSvc T) raw w2) = (if k_RevokedAt r = None then Inr uid else Inl ErrInvalidAPIKey)"
proof -
  note d = promisesD [OF pgauth.CreateAPIKey_spec assms(1) create [unfolded authSvc_def], simplified]
  have w2: "inv_world w2" using d later api_stmts_schema_ok by (auto simp: inv_world_def)
  have "aa_keys (abs_auth w1) (ak_ID k) = Some k" using d by (auto simp: put_key_def)
  then obtain r where r: "key_of (w_db w1) (ak_ID k) = Some r" "fromDBAPIKey r = k" by (auto simp: abs_auth_def)
  have "k_UserID r = ak_UserID k" "k_KeyHash r = ak_KeyHash k" using r(2) by auto
  then have "k_UserID r = uid" "k_KeyHash r = HashAPIKey raw" using d by (auto simp: new_key_def)
  moreover obtain r' where r': "key_of (w_db w2) (ak_ID k) = Some r'" "key_evolves r r'"
    using api_stmts_keys [OF later r(1)] by blast
  ultimately have "k_UserID r' = uid" "k_KeyHash r' = HashAPIKey raw" by (simp_all add: key_evolves_def)
  then show ?thesis using key_by_hash_answered [OF w2 assms(4) r'(1)] r'(1) by auto
qed

text \<open>C30. Revocation is for the owner and for good. If the call returns, the key named was the caller's and
  active, no other key changed, and whatever the API does to the database afterwards, a raw key with
  that hash never authenticates again. \<open>ErrAPIKeyNotFound\<close> is returned only when the caller has no
  active key with that identifier, and nothing changed.\<close>

theorem revoke_outcome:
  assumes "inv_world w" and "RevokeAPIKey (authSvc T) uid keyID w = (res, w1)"
  shows "case res of
      Inr _ \<Rightarrow> (\<exists>k. key_of (w_db w) keyID = Some k \<and> k_UserID k = uid \<and> k_RevokedAt k = None
        \<and> (\<forall>i. i \<noteq> keyID \<longrightarrow> key_of (w_db w1) i = key_of (w_db w) i)
        \<and> (\<forall>raw w2 v. HashAPIKey raw = k_KeyHash k \<and> api_stmt\<^sup>*\<^sup>* (w_db w1) (w_db w2)
            \<longrightarrow> fst (AuthenticateAPIKey (authSvc T) raw w2) \<noteq> Inr v))
    | Inl e \<Rightarrow> e = ErrAPIKeyNotFound \<and> abs_auth w1 = abs_auth w
        \<and> (\<forall>k. key_of (w_db w) keyID = Some k \<longrightarrow> \<not> (k_UserID k = uid \<and> k_RevokedAt k = None))
      \<or> auth_opaque e"
proof -
  note d = promisesD [OF pgauth.Revoke_spec assms(1) assms(2) [unfolded authSvc_def]]
  show ?thesis
  proof (cases res)
    case (Inr x)
    obtain k now where k: "key_of (w_db w) keyID = Some k" "k_UserID k = uid" "k_RevokedAt k = None"
      and a: "abs_auth w1 = put_key ((fromDBAPIKey k)\<lparr>ak_RevokedAt := Some now\<rparr>) (abs_auth w)"
      using d Inr by (auto simp: revocable_def abs_auth_def)
    have id: "k_ID k = keyID" using key_of_ID [OF k(1)] .
    have other: "key_of (w_db w1) i = key_of (w_db w) i" if "i \<noteq> keyID" for i
    proof -
      have "map_option fromDBAPIKey (key_of (w_db w1) i) = map_option fromDBAPIKey (key_of (w_db w) i)"
        using arg_cong [OF a, of "\<lambda>x. aa_keys x i"] that id by (simp add: abs_auth_def put_key_def)
      then show ?thesis by (metis (no_types, lifting) fromDBAPIKey_inj option.inj_map_strong)
    qed
    have "map_option fromDBAPIKey (key_of (w_db w1) keyID) = Some ((fromDBAPIKey k)\<lparr>ak_RevokedAt := Some now\<rparr>)"
      using arg_cong [OF a, of "\<lambda>x. aa_keys x keyID"] id by (simp add: abs_auth_def put_key_def)
    then obtain k1 where k1: "key_of (w_db w1) keyID = Some k1" "k_RevokedAt k1 \<noteq> None" "k_KeyHash k1 = k_KeyHash k"
      by (auto simp: fromDBAPIKey_def)
    have "fst (AuthenticateAPIKey (authSvc T) raw w2) \<noteq> Inr v"
      if h: "HashAPIKey raw = k_KeyHash k" and l: "api_stmt\<^sup>*\<^sup>* (w_db w1) (w_db w2)" for raw w2 v
    proof
      assume "fst (AuthenticateAPIKey (authSvc T) raw w2) = Inr v"
      then obtain w3 where au: "AuthenticateAPIKey (authSvc T) raw w2 = (Inr v, w3)" by (metis prod.collapse)
      have w2: "inv_world w2" using d l api_stmts_schema_ok by (auto simp: inv_world_def)
      have K: "api_keys_ok (w_db w2)" using w2 by (simp add: inv_world_def schema_ok_parts)
      from promisesD [OF pgauth.Authenticate_spec w2 au [unfolded authSvc_def]]
      obtain c where c: "active_key (k_KeyHash k) (abs_auth w2) c" using h by auto
      then obtain rc where rc: "rc \<in> set (tbl_api_keys (w_db w2))" "k_KeyHash rc = k_KeyHash k" "k_RevokedAt rc = None"
        by (auto simp: active_key_def abs_auth_def stored_key_db [OF K])
      obtain k2 where k2: "key_of (w_db w2) keyID = Some k2" "key_evolves k1 k2" using api_stmts_keys [OF l k1(1)] by blast
      then have "k2 \<in> set (tbl_api_keys (w_db w2))" "k_KeyHash k2 = k_KeyHash k" "k_RevokedAt k2 \<noteq> None"
        using k1 key_of_iff [OF K] by (auto simp: key_evolves_def)
      moreover have "distinct (map k_KeyHash (tbl_api_keys (w_db w2)))" using K by (simp add: api_keys_ok_def)
      ultimately show False using rc distinct_map_eq by metis
    qed
    with k other Inr show ?thesis by auto
  next
    case (Inl e)
    then show ?thesis using d by (auto simp: revocable_def abs_auth_def)
  qed
qed

section \<open>Witnesses\<close>

definition auth_user :: db_User where
  "auth_user = \<lparr>u_ID = 1, u_Email = ''a@b.c'',
     u_PasswordHash = encode_hash (replicate 16 (CHR ''r'')) (''hunter2'' @ replicate 25 (CHR ''x'')), u_CreatedAt = 0\<rparr>"

definition auth_key :: db_ApiKey where
  "auth_key = \<lparr>k_ID = 9, k_UserID = 1, k_Name = ''ci'', k_KeyHash = HashAPIKey ''asrk_1'', k_LastUsedAt = None,
     k_CreatedAt = 0, k_RevokedAt = None\<rparr>"

definition auth_db :: database where
  "auth_db = \<lparr>tbl_users = [auth_user], tbl_api_keys = [auth_key], tbl_jobs = [], tbl_transcripts = [], tbl_segments = [],
     tbl_job_events = [], notify_queue = []\<rparr>"

definition auth_world :: world where
  "auth_world = \<lparr>w_env = sample_env, w_calls = 0, w_uuids = 0, w_rands = 0, w_db = auth_db, w_redis = (\<lambda>_. []), w_bucket = {}\<rparr>"

lemma auth_world_inv: "inv_world auth_world"
  by (simp add: inv_world_def auth_world_def auth_db_def schema_defs auth_user_def auth_key_def idem_keys_def List.map_filter_def)

lemma auth_world_ff: "fault_free auth_world"
  by (simp add: fault_free_def auth_world_def sample_env_def)

lemma auth_user_verifies: "VerifyPassword toy_IDKey (u_PasswordHash auth_user) ''hunter2'' = Some (Inr True)"
  by (simp add: auth_user_def VerifyPassword_encode toy_IDKey_def argon_defs)

abbreviation toy_lib :: "world auth_lib" where
  "toy_lib \<equiv> go_lib toy_IDKey toy_jwt"

theorem login_outcome_witness:
  "case Login toy_lib (authSvc sample_issuer) ''a@b.c'' ''hunter2'' auth_world of
     (Inr pair, w') \<Rightarrow> pair_for toy_jwt sample_issuer 1 pair \<and> abs_auth w' = abs_auth auth_world | (Inl e, w') \<Rightarrow> False"
proof -
  have "UserStore_GetUserByEmail ''a@b.c'' auth_world = (Inr (fromDBUser auth_user), after auth_world (w_db auth_world))"
    using auth_world_inv auth_world_ff
    by (intro user_by_email_answered) (simp_all add: auth_world_def auth_db_def auth_user_def)
  then obtain pair w' where l: "Login toy_lib (authSvc sample_issuer) ''a@b.c'' ''hunter2'' auth_world = (Inr pair, w')"
    using auth_user_verifies
    by (simp add: Login_def authSvc_def auth_NewService_def issueTokenPair_def with_now_def check_def time_Now_def
        IssueAccessToken_def IssueRefreshToken_def issue_def toy_jwt_def)
  from login_outcome [OF auth_world_inv l] l show ?thesis
    by (simp add: auth_world_def auth_db_def auth_user_def)
qed

theorem register_login_witness:
  "\<exists>pair w3. Login toy_lib (authSvc sample_issuer) ''new@b.c'' ''pw''
       (snd (auth_Register toy_lib (authSvc sample_issuer) ''new@b.c'' ''pw'' auth_world)) = (Inr pair, w3)"
proof -
  obtain u w1 where r: "auth_Register toy_lib (authSvc sample_issuer) ''new@b.c'' ''pw'' auth_world = (Inr u, w1)"
    and ff: "fault_free w1"
    by (simp add: auth_Register_def HashPassword_def rand_Read_def check_def with_new_def uuid_New_def authSvc_def auth_NewService_def
        UserStore_CreateUser_def pg_eq q_CreateUser_def Let_def auth_world_def sample_env_def auth_db_def auth_user_def toy_IDKey_def argon_defs
        fault_free_def)
  have "\<forall>k c. \<exists>tok. jwt_SignedString toy_jwt k c = Inr tok" by (simp add: toy_jwt_def)
  from register_login [OF toy_IDKey_ok toy_laws(1) this auth_world_inv r rtranclp.rtrancl_refl ff]
  show ?thesis using r by auto
qed

theorem api_key_lifecycle_witness:
  "\<exists>raw k w1. CreateAPIKey toy_lib (authSvc sample_issuer) 1 ''new'' (sample_world StatusQueued) = (Inr (raw, k), w1)
     \<and> fst (AuthenticateAPIKey (authSvc sample_issuer) raw w1) = Inr 1"
proof -
  have i: "inv_world (sample_world StatusQueued)" by (rule sample_inv) simp
  obtain raw k w1 where c: "CreateAPIKey toy_lib (authSvc sample_issuer) 1 ''new'' (sample_world StatusQueued) = (Inr (raw, k), w1)"
    and ff: "answered w1" and n: "key_of (w_db w1) (ak_ID k) \<noteq> None \<and> k_RevokedAt (the (key_of (w_db w1) (ak_ID k))) = None"
    by (simp add: CreateAPIKey_def GenerateAPIKey_def rand_Read_def check_def with_new_def uuid_New_def authSvc_def auth_NewService_def
        APIKeyStore_CreateAPIKey_def pg_eq q_CreateAPIKey_def Let_def sample_defs answered_def key_of_def fromDBAPIKey_def)
  from api_key_lifecycle [OF i c rtranclp.rtrancl_refl ff] n
  have "fst (AuthenticateAPIKey (authSvc sample_issuer) raw w1) = Inr 1" by auto
  with c show ?thesis by blast
qed

theorem revoke_outcome_witness:
  "case RevokeAPIKey (authSvc sample_issuer) 1 9 auth_world of
     (Inr _, w1) \<Rightarrow> fst (AuthenticateAPIKey (authSvc sample_issuer) ''asrk_1'' w1) \<noteq> Inr 1 | (Inl e, w1) \<Rightarrow> False"
proof -
  obtain w1 where r: "RevokeAPIKey (authSvc sample_issuer) 1 9 auth_world = (Inr (), w1)"
    by (simp add: RevokeAPIKey_def authSvc_def auth_NewService_def APIKeyStore_RevokeAPIKey_def check_def pg_eq
        q_RevokeAPIKey_def Let_def auth_world_def sample_env_def auth_db_def auth_key_def)
  obtain k where "key_of (w_db auth_world) 9 = Some k"
    "\<forall>raw w2 v. HashAPIKey raw = k_KeyHash k \<and> api_stmt\<^sup>*\<^sup>* (w_db w1) (w_db w2) \<longrightarrow> fst (AuthenticateAPIKey (authSvc sample_issuer) raw w2) \<noteq> Inr v"
    using revoke_outcome [OF auth_world_inv r] by auto
  moreover from this(1) have "k = auth_key" by (simp add: auth_world_def auth_db_def key_of_def auth_key_def)
  ultimately have "fst (AuthenticateAPIKey (authSvc sample_issuer) ''asrk_1'' w1) \<noteq> Inr 1" by (simp add: auth_key_def)
  with r show ?thesis by simp
qed

end
