(* ===== verification/Go_Time.thy ===== *)
theory Go_Time
  imports Go_Strings
begin

text \<open>
  The parts of Go's \<open>time\<close> package the pagination cursors use: civil dates in the proleptic Gregorian
  calendar, \<open>Format\<close> with the layout \<open>time.RFC3339Nano\<close>, and \<open>Parse\<close> with the same layout. The location of a
  \<open>time.Time\<close> is its offset from UTC in seconds.

  \<open>Parse\<close> is modelled on every string, with what it accepts beyond the format: an hour of one digit,
  a comma before the fraction, more than nine digits of fraction, offsets up to 24 hours and 60
  minutes. The round trip \<open>parse_format\<close> is exact to the nanosecond.
\<close>

section \<open>Dates\<close>

text \<open>Days since 0000-01-01. \<open>year_start y\<close> is the number of days before the year \<open>y\<close>.\<close>

definition leap :: "nat \<Rightarrow> bool" where
  "leap y \<longleftrightarrow> y mod 4 = 0 \<and> (y mod 100 \<noteq> 0 \<or> y mod 400 = 0)"

fun year_start :: "nat \<Rightarrow> nat" where
  "year_start 0 = 0"
| "year_start (Suc y) = year_start y + (if leap y then 366 else 365)"

definition days_in :: "nat \<Rightarrow> nat \<Rightarrow> nat" where
  "days_in m y = (if m = 2 then (if leap y then 29 else 28) else if m \<in> {4, 6, 9, 11} then 30 else 31)"

text \<open>Taking whole months off a number of days, and the days before a month.\<close>

fun find_month :: "nat \<Rightarrow> nat \<Rightarrow> nat list \<Rightarrow> nat \<times> nat" where
  "find_month y n [] = (0, n)"
| "find_month y n (m # ms) = (if n < days_in m y then (m, n) else find_month y (n - days_in m y) ms)"

definition month_start :: "nat \<Rightarrow> nat \<Rightarrow> nat" where
  "month_start y m = sum_list (map (\<lambda>k. days_in k y) [1 ..< m])"

text \<open>The same for years, from year \<open>y\<close> on.\<close>

function find_year :: "nat \<Rightarrow> nat \<Rightarrow> nat \<times> nat" where
  "find_year y n = (let l = (if leap y then 366 else 365) in if n < l then (y, n) else find_year (Suc y) (n - l))"
  by pat_completeness auto
termination by (relation "measure snd") (auto split: if_splits)

declare find_year.simps [simp del]

definition civil :: "nat \<Rightarrow> nat \<times> nat \<times> nat" where
  "civil n = (let (y, k) = find_year 0 n; (m, d) = find_month y k [1 ..< 13] in (y, m, d + 1))"

definition day_number :: "nat \<Rightarrow> nat \<Rightarrow> nat \<Rightarrow> nat" where
  "day_number y m d = year_start y + month_start y m + (d - 1)"

lemma find_year_spec:
  "find_year y n = (y', k) \<Longrightarrow> year_start y + n = year_start y' + k \<and> k < (if leap y' then 366 else 365)"
proof (induction y n rule: find_year.induct)
  case (1 y n)
  let ?l = "if leap y then 366 else 365 :: nat"
  show ?case
  proof (cases "n < ?l")
    case True
    then show ?thesis using "1.prems" by (simp add: find_year.simps [of y n] Let_def)
  next
    case False
    then have "find_year (Suc y) (n - ?l) = (y', k)" using "1.prems" by (simp add: find_year.simps [of y n] Let_def)
    from "1.IH" [OF refl False this] False show ?thesis by auto
  qed
qed

lemma find_month_spec:
  "n < sum_list (map (\<lambda>k. days_in k y) [a ..< b]) \<Longrightarrow> find_month y n [a ..< b] = (m, k) \<Longrightarrow>
    a \<le> m \<and> m < b \<and> k < days_in m y \<and> n = sum_list (map (\<lambda>k. days_in k y) [a ..< m]) + k"
proof (induction "b - a" arbitrary: a n)
  case (Suc j)
  then have ab: "a < b" by simp
  then have c: "[a ..< b] = a # [Suc a ..< b]" by (rule upt_conv_Cons)
  show ?case
  proof (cases "n < days_in a y")
    case True
    then show ?thesis using Suc.prems(2) ab by (simp add: c)
  next
    case False
    have "n - days_in a y < sum_list (map (\<lambda>k. days_in k y) [Suc a ..< b])" using Suc.prems(1) False by (simp add: c)
    moreover have "find_month y (n - days_in a y) [Suc a ..< b] = (m, k)" using Suc.prems(2) False by (simp add: c)
    ultimately have "Suc a \<le> m \<and> m < b \<and> k < days_in m y
        \<and> n - days_in a y = sum_list (map (\<lambda>k. days_in k y) [Suc a ..< m]) + k"
      using Suc.hyps(1) [of "Suc a" "n - days_in a y"] Suc.hyps(2) by simp
    moreover have "sum_list (map (\<lambda>k. days_in k y) [a ..< m]) = days_in a y + sum_list (map (\<lambda>k. days_in k y) [Suc a ..< m])"
      if "Suc a \<le> m" using that by (simp add: upt_conv_Cons)
    ultimately show ?thesis using False by auto
  qed
qed simp

lemma year_length: "sum_list (map (\<lambda>k. days_in k y) [1 ..< 13]) = (if leap y then 366 else 365)"
  by (simp add: days_in_def upt_rec numeral_eq_Suc)

lemma civil_spec:
  assumes "civil n = (y, m, d)"
  shows "day_number y m d = n" "1 \<le> m" "m \<le> 12" "1 \<le> d" "d \<le> days_in m y"
proof -
  obtain y' k where y: "find_year 0 n = (y', k)" by (cases "find_year 0 n")
  obtain m' j where m: "find_month y' k [1 ..< 13] = (m', j)" by (cases "find_month y' k [1 ..< 13]")
  have eq: "y = y'" "m = m'" "d = j + 1" using assms y m by (simp_all add: civil_def)
  have n: "n = year_start y' + k" "k < (if leap y' then 366 else 365)" using find_year_spec [OF y] by simp_all
  have "k < sum_list (map (\<lambda>k. days_in k y') [1 ..< 13])" using n(2) by (simp only: year_length)
  from find_month_spec [OF this m] have "1 \<le> m'" "m' < 13" "j < days_in m' y'" "k = month_start y' m' + j"
    by (simp_all add: month_start_def)
  then show "day_number y m d = n" "1 \<le> m" "m \<le> 12" "1 \<le> d" "d \<le> days_in m y"
    using n(1) by (simp_all add: eq day_number_def)
qed

lemma div_up: "0 < k \<Longrightarrow> (Suc y + (k - 1)) div k = (y + (k - 1)) div k + (if y mod k = 0 then 1 else 0)"
proof -
  assume k: "0 < k"
  then have "Suc (y + (k - 1)) = y + k" by simp
  then have "Suc (y + (k - 1)) mod k = y mod k" by simp
  then show ?thesis by (simp add: div_Suc)
qed

lemma year_step:
  fixes ys a b c :: nat
  assumes "ys + c = 365 * y + a + b" "a' = a + (if p then 1 else 0)" "c' = c + (if q then 1 else 0)" "b' = b + (if r then 1 else 0)"
    and "q \<Longrightarrow> p" "r \<Longrightarrow> q"
  shows "ys + (if p \<and> (\<not> q \<or> r) then 366 else 365) + c' = 365 * Suc y + a' + b'"
  using assms by (auto split: if_splits)

lemma year_start_closed: "year_start y + (y + 99) div 100 = 365 * y + (y + 3) div 4 + (y + 399) div 400"
proof (induction y)
  case (Suc y)
  have "year_start y + (if y mod 4 = 0 \<and> (\<not> y mod 100 = 0 \<or> y mod 400 = 0) then 366 else 365) + (Suc y + (100 - 1)) div 100
      = 365 * Suc y + (Suc y + (4 - 1)) div 4 + (Suc y + (400 - 1)) div 400"
  proof (rule year_step)
    show "year_start y + (y + (100 - 1)) div 100 = 365 * y + (y + (4 - 1)) div 4 + (y + (400 - 1)) div 400"
      using Suc by simp
    show "y mod 100 = 0 \<Longrightarrow> y mod 4 = 0" "y mod 400 = 0 \<Longrightarrow> y mod 100 = 0"
      using mod_mod_cancel [of 4 100 y] mod_mod_cancel [of 100 400 y] by simp_all
  qed (rule div_up, simp)+
  then show ?case by (simp only: year_start.simps leap_def) simp
qed simp

text \<open>1970-01-01.\<close>

definition epoch_day :: nat where
  "epoch_day = 719528"

lemma epoch_day_ok: "day_number 1970 1 1 = epoch_day"
  using year_start_closed [of 1970] by (simp add: day_number_def month_start_def epoch_day_def)

section \<open>Formatting\<close>

definition trim_zeros :: "string \<Rightarrow> string" where
  "trim_zeros s = rev (dropWhile (\<lambda>c. c = digit_char 0) (rev s))"

definition fmt_nano :: "int \<Rightarrow> string" where
  "fmt_nano ns = (if ns = 0 then [] else CHR ''.'' # trim_zeros (fmt_0d 9 ns))"

definition fmt_zone :: "int \<Rightarrow> string" where
  "fmt_zone off = (if off = 0 then ''Z'' else
     (if off < 0 then ''-'' else ''+'') @ fmt_0d 2 (\<bar>off\<bar> div 60 div 60) @ '':'' @ fmt_0d 2 (\<bar>off\<bar> div 60 mod 60))"

definition time_Format :: "int \<Rightarrow> instant \<Rightarrow> string" where
  "time_Format off t =
    (let secs = t div 10 ^ 9 + off; (y, m, d) = civil (nat (secs div 86400 + int epoch_day)); sod = secs mod 86400
     in fmt_0d 4 (int y) @ ''-'' @ fmt_0d 2 (int m) @ ''-'' @ fmt_0d 2 (int d) @ ''T''
       @ fmt_0d 2 (sod div 3600) @ '':'' @ fmt_0d 2 (sod div 60 mod 60) @ '':'' @ fmt_0d 2 (sod mod 60)
       @ fmt_nano (t mod 10 ^ 9) @ fmt_zone off)"

section \<open>Parsing\<close>

definition get_digits :: "nat \<Rightarrow> string \<Rightarrow> (nat \<times> string) option" where
  "get_digits k s = (if length s < k then None else map_option (\<lambda>n. (n, drop k s)) (read_nat (take k s)))"

text \<open>\<open>getnum(s, false)\<close>: one digit or two.\<close>

definition get_num :: "string \<Rightarrow> (nat \<times> string) option" where
  "get_num s = (case s of
     c # d # _ \<Rightarrow> if is_digit c \<and> is_digit d then get_digits 2 s else get_digits 1 s
   | _ \<Rightarrow> get_digits 1 s)"

definition get_frac :: "string \<Rightarrow> nat \<times> string" where
  "get_frac s = (case s of
     c # d # r \<Rightarrow> if (c = CHR ''.'' \<or> c = CHR '','') \<and> is_digit d
       then let ds = take 9 (takeWhile is_digit (d # r)) in (the (read_nat ds) * 10 ^ (9 - length ds), dropWhile is_digit (d # r))
       else (0, s)
   | _ \<Rightarrow> (0, s))"

definition get_zone :: "string \<Rightarrow> (int \<times> string) option" where
  "get_zone s = (case s of
     [] \<Rightarrow> None
   | c # r \<Rightarrow> if c = CHR ''Z'' then Some (0, r)
       else Option.bind (get_digits 2 r) (\<lambda>(hr, r). Option.bind (CutPrefix r '':'') (\<lambda>r. Option.bind (get_digits 2 r) (\<lambda>(mm, r).
         if hr > 24 \<or> mm > 60 then None
         else if c = CHR ''+'' then Some ((int hr * 60 + int mm) * 60, r)
         else if c = CHR ''-'' then Some (- ((int hr * 60 + int mm) * 60), r) else None))))"

definition time_of_fields :: "nat \<Rightarrow> nat \<Rightarrow> nat \<Rightarrow> nat \<Rightarrow> nat \<Rightarrow> nat \<Rightarrow> nat \<Rightarrow> int \<Rightarrow> instant" where
  "time_of_fields y m d hh mi ss ns off =
    (((int (day_number y m d) - int epoch_day) * 86400 + int ((hh * 60 + mi) * 60 + ss)) - off) * 10 ^ 9 + int ns"

definition time_Parse :: "string \<Rightarrow> instant option" where
  "time_Parse s =
    Option.bind (get_digits 4 s) (\<lambda>(y, s). Option.bind (CutPrefix s ''-'') (\<lambda>s.
    Option.bind (get_digits 2 s) (\<lambda>(m, s). Option.bind (CutPrefix s ''-'') (\<lambda>s.
    Option.bind (get_digits 2 s) (\<lambda>(d, s). Option.bind (CutPrefix s ''T'') (\<lambda>s.
    Option.bind (get_num s) (\<lambda>(hh, s). Option.bind (CutPrefix s '':'') (\<lambda>s.
    Option.bind (get_digits 2 s) (\<lambda>(mi, s). Option.bind (CutPrefix s '':'') (\<lambda>s.
    Option.bind (get_digits 2 s) (\<lambda>(sc, s). let (ns, s) = get_frac s in
    Option.bind (get_zone s) (\<lambda>(off, s).
      if s \<noteq> [] \<or> m < 1 \<or> 12 < m \<or> 24 \<le> hh \<or> 60 \<le> mi \<or> 60 \<le> sc \<or> d < 1 \<or> days_in m y < d then None
      else Some (time_of_fields y m d hh mi sc ns off)))))))))))))"

section \<open>The round trip\<close>

lemma fmt_0d_is_digit: "0 \<le> x \<Longrightarrow> c \<in> set (fmt_0d w x) \<Longrightarrow> is_digit c"
  using fmt_0d_chars by (simp add: is_digit_def)

lemma get_digits_fmt:
  assumes "0 \<le> x" "x < 10 ^ k" "0 < k"
  shows "get_digits k (fmt_0d k x @ r) = Some (nat x, r)"
  using fmt_0d_length [OF assms] assms(1) by (simp add: get_digits_def)

lemma get_num_fmt:
  assumes "0 \<le> x" "x < 100"
  shows "get_num (fmt_0d 2 x @ r) = Some (nat x, r)"
proof -
  have l: "length (fmt_0d 2 x) = 2" using fmt_0d_length [of x 2] assms by simp
  then obtain c d where cd: "fmt_0d 2 x = [c, d]" by (auto simp: length_Suc_conv numeral_eq_Suc)
  then have "is_digit c" "is_digit d" using fmt_0d_is_digit [OF assms(1), of _ 2] by auto
  then show ?thesis using get_digits_fmt [of x 2 r] assms by (simp add: get_num_def cd)
qed

lemma read_digits_zeros_right: "read_digits a s = Some n \<Longrightarrow> read_digits a (s @ replicate j (digit_char 0)) = Some (n * 10 ^ j)"
proof (induction j arbitrary: s n)
  case (Suc j)
  then have "read_digits a (s @ [digit_char 0]) = Some (10 * n)" by (simp add: read_digits_append)
  from Suc.IH [OF this] show ?case by simp
qed simp

lemma trim_zeros_split: "\<exists>j. s = trim_zeros s @ replicate j (digit_char 0)"
proof -
  have "rev s = takeWhile (\<lambda>c. c = digit_char 0) (rev s) @ dropWhile (\<lambda>c. c = digit_char 0) (rev s)" by simp
  moreover have "takeWhile (\<lambda>c. c = digit_char 0) (rev s) = replicate (length (takeWhile (\<lambda>c. c = digit_char 0) (rev s))) (digit_char 0)"
    by (metis (mono_tags, lifting) replicate_eqI set_takeWhileD)
  ultimately have "rev (rev s) = rev (dropWhile (\<lambda>c. c = digit_char 0) (rev s)) @ rev (replicate (length (takeWhile (\<lambda>c. c = digit_char 0) (rev s))) (digit_char 0))"
    by (metis rev_append)
  then show ?thesis by (auto simp: trim_zeros_def)
qed

lemma get_frac_fmt:
  assumes ns: "0 \<le> ns" "ns < 10 ^ 9" and r: "r = [] \<or> \<not> is_digit (hd r) \<and> hd r \<noteq> CHR ''.'' \<and> hd r \<noteq> CHR '',''"
  shows "get_frac (fmt_nano ns @ r) = (nat ns, r)"
proof (cases "ns = 0")
  case True
  then show ?thesis using r by (auto simp: fmt_nano_def get_frac_def split: list.split)
next
  case False
  let ?t = "trim_zeros (fmt_0d 9 ns)"
  have l: "length (fmt_0d 9 ns) = 9" using fmt_0d_length [of ns 9] ns by simp
  obtain j where j: "fmt_0d 9 ns = ?t @ replicate j (digit_char 0)" using trim_zeros_split by blast
  have n: "read_nat (fmt_0d 9 ns) = Some (nat ns)" using ns by simp
  have t: "?t \<noteq> []"
  proof
    assume "?t = []"
    then have "read_nat (replicate j (digit_char 0)) = Some (nat ns)" using n j by (metis append_Nil)
    then show False using read_digits_zeros_right [of 0 "[]" 0 j] False ns by (auto simp: read_nat_def split: if_splits)
  qed
  have dig: "\<forall>c \<in> set ?t. is_digit c" using fmt_0d_is_digit [OF ns(1)] j by (metis Un_iff set_append)
  have "read_digits 0 (fmt_0d 9 ns) = Some (nat ns)" using n l by (auto simp: read_nat_def split: if_splits)
  then have "read_digits 0 (?t @ replicate j (digit_char 0)) = Some (nat ns)" using j by metis
  then obtain m where m: "read_digits 0 ?t = Some m" by (auto simp: read_digits_append split: option.splits)
  have "nat ns = m * 10 ^ j"
    using n read_digits_zeros_right [OF m, of j] j l by (auto simp: read_nat_def split: if_splits)
  moreover have "j = 9 - length ?t" using l j by (metis add_diff_cancel_left' length_append length_replicate)
  moreover obtain c cs where c: "?t = c # cs" using t by (cases ?t) auto
  moreover have "takeWhile is_digit (?t @ r) = ?t" "dropWhile is_digit (?t @ r) = r"
    using dig r by (cases r; simp add: takeWhile_append2 dropWhile_append2)+
  moreover have "take 9 ?t = ?t" using l j by (metis le_add1 length_append take_all)
  moreover have "read_nat ?t = Some m" using m t by (simp add: read_nat_def)
  ultimately show ?thesis using False dig
    by (simp add: fmt_nano_def get_frac_def Let_def)
qed

lemma get_zone_text:
  assumes "h < 24" "m < 60"
  shows "get_zone (c # fmt_0d 2 (int h) @ '':'' @ fmt_0d 2 (int m)) =
    (if c = CHR ''Z'' then Some (0, fmt_0d 2 (int h) @ '':'' @ fmt_0d 2 (int m))
     else if c = CHR ''+'' then Some ((int h * 60 + int m) * 60, [])
     else if c = CHR ''-'' then Some (- ((int h * 60 + int m) * 60), []) else None)"
proof -
  have m0: "get_digits 2 (fmt_0d 2 (int m)) = Some (m, [])" using get_digits_fmt [of "int m" 2 "[]"] assms by simp
  have h0: "get_digits 2 (fmt_0d 2 (int h) @ CHR '':'' # r) = Some (h, CHR '':'' # r)" for r
    using get_digits_fmt [of "int h" 2] assms by simp
  show ?thesis using assms by (simp add: get_zone_def h0 m0)
qed

lemma get_zone_fmt:
  assumes "off mod 60 = 0" "\<bar>off\<bar> < 86400"
  shows "get_zone (fmt_zone off) = Some (off, [])"
proof (cases "off = 0")
  case False
  define h where "h = nat (\<bar>off\<bar> div 60 div 60)"
  define m where "m = nat (\<bar>off\<bar> div 60 mod 60)"
  have h: "int h = \<bar>off\<bar> div 60 div 60" "h < 24" using assms(2) by (simp_all add: h_def nat_less_iff div_less_iff_less_mult)
  have m: "int m = \<bar>off\<bar> div 60 mod 60" "m < 60" by (simp_all add: m_def nat_less_iff)
  have "int h * 60 + int m = \<bar>off\<bar> div 60" unfolding h(1) m(1) by (rule div_mult_mod_eq)
  moreover have "\<bar>off\<bar> div 60 * 60 = \<bar>off\<bar>" using assms(1) by (simp add: dvd_eq_mod_eq_0 [symmetric])
  ultimately have e: "(int h * 60 + int m) * 60 = \<bar>off\<bar>" by simp
  have "fmt_zone off = (if off < 0 then CHR ''-'' else CHR ''+'') # fmt_0d 2 (int h) @ '':'' @ fmt_0d 2 (int m)"
    using False unfolding fmt_zone_def h(1) m(1) by simp
  then show ?thesis using get_zone_text [OF h(2) m(2)] e by simp
qed (simp add: fmt_zone_def get_zone_def)

lemma fmt_zone_hd: "fmt_zone off = [] \<or> \<not> is_digit (hd (fmt_zone off)) \<and> hd (fmt_zone off) \<noteq> CHR ''.'' \<and> hd (fmt_zone off) \<noteq> CHR '',''"
proof -
  have "\<not> is_digit (CHR ''Z'')" "\<not> is_digit (CHR ''+'')" "\<not> is_digit (CHR ''-'')" by code_simp+
  then show ?thesis by (auto simp: fmt_zone_def)
qed

text \<open>A local time in the years 0 to 9999, at an offset of whole minutes below a day.\<close>

definition time_printable :: "int \<Rightarrow> instant \<Rightarrow> bool" where
  "time_printable off t \<longleftrightarrow> off mod 60 = 0 \<and> \<bar>off\<bar> < 86400
     \<and> 0 \<le> (t div 10 ^ 9 + off) div 86400 + int epoch_day \<and> (t div 10 ^ 9 + off) div 86400 + int epoch_day < 3652425"

lemma year_range: "year_start y \<le> n \<Longrightarrow> n < 3652425 \<Longrightarrow> y < 10000"
proof (rule ccontr)
  assume a: "year_start y \<le> n" "n < 3652425" "\<not> y < 10000"
  have "year_start k \<le> year_start (Suc k)" for k by simp
  then have "year_start 10000 \<le> year_start y" by (rule lift_Suc_mono_le) (use a(3) in simp)
  moreover have "year_start 10000 = 3652425" using year_start_closed [of 10000] by simp
  ultimately show False using a by simp
qed

lemma parse_text:
  assumes "y < 10000" "1 \<le> m" "m \<le> 12" "1 \<le> d" "d \<le> days_in m y" "hh < 24" "mi < 60" "sc < 60" "ns < 10 ^ 9"
    and "off mod 60 = 0" "\<bar>off\<bar> < 86400"
  shows "time_Parse (fmt_0d 4 (int y) @ ''-'' @ fmt_0d 2 (int m) @ ''-'' @ fmt_0d 2 (int d) @ ''T'' @ fmt_0d 2 (int hh) @ '':''
      @ fmt_0d 2 (int mi) @ '':'' @ fmt_0d 2 (int sc) @ fmt_nano (int ns) @ fmt_zone off)
    = Some (time_of_fields y m d hh mi sc ns off)"
proof -
  have d: "d < 100" using assms(5) by (simp add: days_in_def split: if_splits)
  have frac: "get_frac (fmt_nano (int ns) @ fmt_zone off) = (ns, fmt_zone off)"
    using get_frac_fmt [of "int ns" "fmt_zone off"] fmt_zone_hd assms(9) by simp
  have zone: "get_zone (fmt_zone off) = Some (off, [])" using assms by (simp add: get_zone_fmt)
  have g4: "get_digits 4 (fmt_0d 4 (int y) @ r) = Some (y, r)" for r using get_digits_fmt [of "int y" 4] assms(1) by simp
  have g2: "get_digits 2 (fmt_0d 2 (int x) @ r) = Some (x, r)" if "x < 100" for x r using get_digits_fmt [of "int x" 2] that by simp
  have gn: "get_num (fmt_0d 2 (int hh) @ r) = Some (hh, r)" for r using get_num_fmt [of "int hh"] assms(6) by simp
  show ?thesis
    using assms d by (simp add: time_Parse_def g4 g2 gn frac zone)
qed

lemma parse_format:
  assumes "time_printable off t"
  shows "time_Parse (time_Format off t) = Some t"
proof -
  define secs where "secs = t div 10 ^ 9 + off"
  define sod where "sod = secs mod 86400"
  define n where "n = nat (secs div 86400 + int epoch_day)"
  obtain y m d where c: "civil n = (y, m, d)" by (cases "civil n") auto
  note cs = civil_spec [OF c]
  have n: "int n = secs div 86400 + int epoch_day" "n < 3652425" using assms by (simp_all add: n_def secs_def time_printable_def nat_less_iff)
  have "year_start y \<le> n" using cs(1) by (simp add: day_number_def)
  then have y: "y < 10000" using n(2) by (rule year_range)
  have sod: "0 \<le> sod" "sod < 86400" by (simp_all add: sod_def)
  define hh where "hh = nat (sod div 3600)"
  define mi where "mi = nat (sod div 60 mod 60)"
  define sc where "sc = nat (sod mod 60)"
  define ns where "ns = nat (t mod 10 ^ 9)"
  have hh: "int hh = sod div 3600" "hh < 24" using sod by (simp_all add: hh_def nat_less_iff div_less_iff_less_mult pos_imp_zdiv_nonneg_iff)
  have mi: "int mi = sod div 60 mod 60" "mi < 60" by (simp_all add: mi_def nat_less_iff)
  have sc: "int sc = sod mod 60" "sc < 60" by (simp_all add: sc_def nat_less_iff)
  have ns: "int ns = t mod 10 ^ 9" "ns < 10 ^ 9" by (simp_all add: ns_def nat_less_iff)
  have "sod div 3600 = sod div 60 div 60" by (simp add: zdiv_zmult2_eq [symmetric])
  then have "int hh * 60 + int mi = sod div 60" unfolding hh(1) mi(1) by simp
  then have recomb: "(int hh * 60 + int mi) * 60 + int sc = sod" unfolding sc(1) by simp
  have "time_Parse (time_Format off t) = Some (time_of_fields y m d hh mi sc ns off)"
    using parse_text [OF y cs(2-5) hh(2) mi(2) sc(2) ns(2)] assms
    unfolding time_Format_def Let_def secs_def [symmetric] sod_def [symmetric] n_def [symmetric] c hh(1) [symmetric] mi(1) [symmetric]
      sc(1) [symmetric] ns(1) [symmetric] by (simp add: time_printable_def)
  also have "time_of_fields y m d hh mi sc ns off = t"
  proof -
    have "int ((hh * 60 + mi) * 60 + sc) = sod" using recomb by simp
    moreover have "int (day_number y m d) - int epoch_day = secs div 86400" using cs(1) n(1) by simp
    moreover have "secs div 86400 * 86400 + sod = secs" by (simp add: sod_def)
    ultimately have "time_of_fields y m d hh mi sc ns off = (secs - off) * 10 ^ 9 + t mod 10 ^ 9"
      unfolding time_of_fields_def ns(1) by simp
    also have "\<dots> = t div 10 ^ 9 * 10 ^ 9 + t mod 10 ^ 9" by (simp add: secs_def)
    also have "\<dots> = t" by (rule div_mult_mod_eq)
    finally show ?thesis .
  qed
  finally show ?thesis .
qed

end
