(* ===== verification/Transcript_Formats.thy ===== *)
theory Transcript_Formats
  imports Go_Strings Job_Model "HOL-Library.Signed_Division"
begin

text \<open>
  The transcript formats of \<open>src/api/internal/http/transcript_handlers.go\<close>: SubRip, WebVTT and
  the JSON response.

  Go's integer division truncates towards zero (\<open>sdiv\<close>, \<open>smod\<close>). Correctness is a round trip: a
  reader of SubRip gets back the cue numbers, the times to the millisecond and
  the texts. Theory \<open>Webvtt\<close> does the same for WebVTT.
\<close>

section \<open>Writing\<close>

definition formatTimestamp :: "int \<Rightarrow> string \<Rightarrow> string" where
  "formatTimestamp ms fracSep =
    (let total = ms;
         hours = total sdiv 3600000;
         total = total smod 3600000;
         minutes = total sdiv 60000;
         total = total smod 60000;
         seconds = total sdiv 1000;
         millis = total smod 1000
     in fmt_0d 2 hours @ '':'' @ fmt_0d 2 minutes @ '':'' @ fmt_0d 2 seconds @ fracSep @ fmt_0d 3 millis)"

definition srtTimestamp :: "int \<Rightarrow> string" where
  "srtTimestamp ms = formatTimestamp ms '',''"

definition vttTimestamp :: "int \<Rightarrow> string" where
  "vttTimestamp ms = formatTimestamp ms ''.''"

definition newline :: char where
  "newline = CHR 0x0A"

definition arrow :: string where
  "arrow = '' --> ''"

fun srt_loop :: "nat \<Rightarrow> Segment list \<Rightarrow> string" where
  "srt_loop i [] = []"
| "srt_loop i (s # segments) =
    fmt_d (int i + 1) @ [newline] @ srtTimestamp (seg_StartMs s) @ arrow @ srtTimestamp (seg_EndMs s) @ [newline]
    @ seg_Text s @ [newline] @ [newline] @ srt_loop (i + 1) segments"

definition toSRT :: "Segment list \<Rightarrow> string" where
  "toSRT segments = srt_loop 0 segments"

fun vtt_loop :: "Segment list \<Rightarrow> string" where
  "vtt_loop [] = []"
| "vtt_loop (s # segments) =
    vttTimestamp (seg_StartMs s) @ arrow @ vttTimestamp (seg_EndMs s) @ [newline]
    @ seg_Text s @ [newline] @ [newline] @ vtt_loop segments"

definition toVTT :: "Segment list \<Rightarrow> string" where
  "toVTT segments = ''WEBVTT'' @ [newline] @ [newline] @ vtt_loop segments"

definition englishConfidenceThreshold :: real where
  "englishConfidenceThreshold = 1 / 2"

record SegmentResponse =
  sr_Idx :: int
  sr_StartMs :: int
  sr_EndMs :: int
  sr_Text :: string
  sr_AvgLogprob :: "real option"

record TranscriptResponse =
  tp_AudioURL :: string
  tp_Text :: string
  tp_LanguageDetected :: string
  tp_LanguageProbability :: real
  tp_LanguageWarning :: bool
  tp_Model :: string
  tp_ProcessingSeconds :: real
  tp_RealTimeFactor :: real
  tp_CreatedAt :: instant
  tp_Segments :: "SegmentResponse list"

definition toTranscriptResponse :: "Transcript \<Rightarrow> Segment list \<Rightarrow> TranscriptResponse" where
  "toTranscriptResponse t segments =
    \<lparr>tp_AudioURL = [], tp_Text = tr_Text t, tp_LanguageDetected = tr_LanguageDetected t,
     tp_LanguageProbability = tr_LanguageProbability t,
     tp_LanguageWarning = (tr_LanguageProbability t < englishConfidenceThreshold),
     tp_Model = tr_Model t, tp_ProcessingSeconds = tr_ProcessingSeconds t,
     tp_RealTimeFactor = tr_RealTimeFactor t, tp_CreatedAt = tr_CreatedAt t,
     tp_Segments = map (\<lambda>s. \<lparr>sr_Idx = seg_Idx s, sr_StartMs = seg_StartMs s, sr_EndMs = seg_EndMs s,
       sr_Text = seg_Text s, sr_AvgLogprob = seg_AvgLogprob s\<rparr>) segments\<rparr>"

section \<open>Reading SubRip\<close>

text \<open>\<open>HH:MM:SS\<close>, the separator, and three digits of milliseconds. Minutes and seconds are below 60.\<close>

definition read_timestamp :: "char \<Rightarrow> string \<Rightarrow> int option" where
  "read_timestamp sep s =
    (case split_on CHR '':'' s of
       [h, m, rest] \<Rightarrow>
         (case split_on sep rest of
            [sec, fr] \<Rightarrow>
              (case (read_nat h, read_nat m, read_nat sec, read_nat fr) of
                 (Some h, Some m, Some sec, Some ms) \<Rightarrow>
                   if m < 60 \<and> sec < 60 \<and> length fr = 3
                   then Some (int (((h * 60 + m) * 60 + sec) * 1000 + ms)) else None
               | _ \<Rightarrow> None)
          | _ \<Rightarrow> None)
     | _ \<Rightarrow> None)"

text \<open>A cue's time line: two timestamps with an arrow between them.\<close>

fun split_arrow :: "string \<Rightarrow> (string \<times> string) option" where
  "split_arrow [] = None"
| "split_arrow (c # cs) =
    (case CutPrefix (c # cs) arrow of
       Some rest \<Rightarrow> Some ([], rest)
     | None \<Rightarrow> map_option (\<lambda>(a, b). (c # a, b)) (split_arrow cs))"

definition read_times :: "char \<Rightarrow> string \<Rightarrow> (int \<times> int) option" where
  "read_times sep line =
    (case split_arrow line of
       Some (a, b) \<Rightarrow> (case (read_timestamp sep a, read_timestamp sep b) of
          (Some x, Some y) \<Rightarrow> Some (x, y) | _ \<Rightarrow> None)
     | None \<Rightarrow> None)"

text \<open>A SubRip document, by lines: number, times, text, empty line, and so on.\<close>

fun read_srt_lines :: "string list \<Rightarrow> (nat \<times> int \<times> int \<times> string) list option" where
  "read_srt_lines (n # t # txt # [] # rest) =
    (case (read_nat n, read_times CHR '','' t, read_srt_lines rest) of
       (Some k, Some (x, y), Some cues) \<Rightarrow> Some ((k, x, y, txt) # cues) | _ \<Rightarrow> None)"
| "read_srt_lines ls = (if ls = [[]] then Some [] else None)"

definition read_srt :: "string \<Rightarrow> (nat \<times> int \<times> int \<times> string) list option" where
  "read_srt s = read_srt_lines (split_on newline s)"

section \<open>Round trips\<close>

lemma sdiv_nonneg: "0 \<le> x \<Longrightarrow> 0 < k \<Longrightarrow> x sdiv k = x div (k::int)"
  by (simp add: signed_divide_int_def sgn_if)

lemma smod_nonneg: "0 \<le> x \<Longrightarrow> 0 < k \<Longrightarrow> x smod k = x mod (k::int)"
  by (cases "x = 0") (simp_all add: signed_modulo_int_def sgn_if)

text \<open>The fields of a non-negative time, and that they determine it.\<close>

lemma formatTimestamp_nonneg:
  assumes "0 \<le> ms"
  shows "formatTimestamp ms sep = fmt_0d 2 (ms div 3600000) @ '':'' @ fmt_0d 2 (ms mod 3600000 div 60000) @ '':''
    @ fmt_0d 2 (ms mod 60000 div 1000) @ sep @ fmt_0d 3 (ms mod 1000)"
proof -
  have "ms mod 3600000 mod 60000 = ms mod 60000" "ms mod 3600000 mod 60000 mod 1000 = ms mod 1000"
    by (simp_all add: mod_mod_cancel)
  with assms show ?thesis by (simp add: formatTimestamp_def Let_def sdiv_nonneg smod_nonneg)
qed

lemma fields_sum:
  fixes ms :: int
  assumes "0 \<le> ms"
  shows "((ms div 3600000 * 60 + ms mod 3600000 div 60000) * 60 + ms mod 60000 div 1000) * 1000 + ms mod 1000 = ms"
    and "ms mod 3600000 div 60000 < 60" and "ms mod 60000 div 1000 < 60"
proof -
  define h a where "h = ms div 3600000" and "a = ms mod 3600000"
  define m b where "m = a div 60000" and "b = a mod 60000"
  have b: "ms mod 60000 = b" by (simp add: a_def b_def mod_mod_cancel)
  then have fr: "ms mod 1000 = b mod 1000" using mod_mod_cancel [of 1000 60000 ms] by simp
  define t f where "t = b div 1000" and "f = b mod 1000"
  have "ms = h * 3600000 + a" "a = m * 60000 + b" "b = t * 1000 + f"
    unfolding h_def a_def m_def b_def t_def f_def by simp_all
  then show "((ms div 3600000 * 60 + ms mod 3600000 div 60000) * 60 + ms mod 60000 div 1000) * 1000 + ms mod 1000 = ms"
    unfolding b fr a_def [symmetric] h_def [symmetric] m_def [symmetric] t_def [symmetric] f_def [symmetric]
    by (simp add: algebra_simps)
  have "ms mod 3600000 < 3600000" "ms mod 60000 < 60000" by simp_all
  then show "ms mod 3600000 div 60000 < 60" "ms mod 60000 div 1000 < 60" by linarith+
qed

lemma read_timestamp_parts:
  assumes "CHR '':'' \<notin> set h" "CHR '':'' \<notin> set m" "CHR '':'' \<notin> set (s @ sep # f)"
    and "sep \<notin> set s" "sep \<notin> set f"
    and "read_nat h = Some H" "read_nat m = Some M" "read_nat s = Some S" "read_nat f = Some F"
    and "M < 60" "S < 60" "length f = 3"
  shows "read_timestamp sep (h @ '':'' @ m @ '':'' @ s @ [sep] @ f) = Some (int (((H * 60 + M) * 60 + S) * 1000 + F))"
proof -
  have c: "split_on CHR '':'' (h @ '':'' @ m @ '':'' @ s @ [sep] @ f) = [h, m, s @ sep # f]"
    using assms(1-3) by (simp add: split_on_append split_on_id)
  have d: "split_on sep (s @ sep # f) = [s, f]"
    using assms(4,5) by (simp add: split_on_append split_on_id)
  show ?thesis using assms(6-) unfolding read_timestamp_def c list.case d by simp
qed

lemma fmt_0d_no_char: "0 \<le> x \<Longrightarrow> char_digit c = None \<Longrightarrow> c \<notin> set (fmt_0d w x)"
  using fmt_0d_chars by blast

lemma sep_not_digit [simp]:
  "char_digit CHR '':'' = None" "char_digit CHR '','' = None" "char_digit CHR ''.'' = None"
  "char_digit CHR '' '' = None" "char_digit newline = None"
  by (simp_all add: char_digit_def newline_def)

lemma read_timestamp_fields:
  assumes "0 \<le> h" "0 \<le> m" "m < 60" "0 \<le> s" "s < 60" "0 \<le> f" "f < 1000" and sep: "sep \<in> {CHR '','', CHR ''.''}"
  shows "read_timestamp sep (fmt_0d 2 h @ '':'' @ fmt_0d 2 m @ '':'' @ fmt_0d 2 s @ [sep] @ fmt_0d 3 f)
    = Some (((h * 60 + m) * 60 + s) * 1000 + f)"
proof -
  have nc: "char_digit sep = None" "sep \<noteq> CHR '':''" using sep by auto
  have len: "length (fmt_0d 3 f) = 3" using assms(6,7) by (intro fmt_0d_length) simp_all
  have "read_timestamp sep (fmt_0d 2 h @ '':'' @ fmt_0d 2 m @ '':'' @ fmt_0d 2 s @ [sep] @ fmt_0d 3 f)
      = Some (int (((nat h * 60 + nat m) * 60 + nat s) * 1000 + nat f))"
    using assms(1-6) nc by (intro read_timestamp_parts len) (simp_all add: fmt_0d_no_char nat_less_iff)
  also have "int (((nat h * 60 + nat m) * 60 + nat s) * 1000 + nat f) = ((h * 60 + m) * 60 + s) * 1000 + f"
    using assms(1-6) by simp
  finally show ?thesis .
qed

lemma read_timestamp_format:
  assumes "0 \<le> ms" and sep: "sep \<in> {CHR '','', CHR ''.''}"
  shows "read_timestamp sep (formatTimestamp ms [sep]) = Some ms"
proof -
  have "0 \<le> ms div 3600000" "0 \<le> ms mod 3600000 div 60000" "0 \<le> ms mod 60000 div 1000" "0 \<le> ms mod 1000"
    using assms(1) by (simp_all add: pos_imp_zdiv_nonneg_iff)
  from read_timestamp_fields [OF this(1,2) fields_sum(2) [OF assms(1)] this(3) fields_sum(3) [OF assms(1)] this(4) _ sep]
  show ?thesis unfolding formatTimestamp_nonneg [OF assms(1)] fields_sum(1) [OF assms(1)] by simp
qed

text \<open>A timestamp reads back as the time it was made from, to the millisecond, in both formats.\<close>

lemma timestamps_read_back:
  "0 \<le> ms \<Longrightarrow> read_timestamp CHR '','' (srtTimestamp ms) = Some ms \<and> read_timestamp CHR ''.'' (vttTimestamp ms) = Some ms"
  using read_timestamp_format by (simp add: srtTimestamp_def vttTimestamp_def)

section \<open>Documents\<close>

lemma split_arrow_append: "CHR '' '' \<notin> set s \<Longrightarrow> split_arrow (s @ arrow @ t) = Some (s, t)"
proof (induction s)
  case Nil
  show ?case by (simp add: arrow_def)
next
  case (Cons c s)
  then show ?case by (auto simp: arrow_def)
qed

lemma formatTimestamp_chars:
  assumes "0 \<le> ms" and "char_digit c = None" and "c \<noteq> CHR '':''" and "c \<notin> set sep"
  shows "c \<notin> set (formatTimestamp ms sep)"
proof -
  have "0 \<le> ms div 3600000" "0 \<le> ms mod 3600000 div 60000" "0 \<le> ms mod 60000 div 1000" "0 \<le> ms mod 1000"
    using assms(1) by (simp_all add: pos_imp_zdiv_nonneg_iff)
  with assms show ?thesis by (simp add: formatTimestamp_nonneg fmt_0d_no_char)
qed

lemma read_times_line:
  assumes "0 \<le> x" "0 \<le> y" and sep: "sep \<in> {CHR '','', CHR ''.''}"
  shows "read_times sep (formatTimestamp x [sep] @ arrow @ formatTimestamp y [sep]) = Some (x, y)"
proof -
  have "CHR '' '' \<notin> set (formatTimestamp x [sep])"
    using assms by (intro formatTimestamp_chars) auto
  then show ?thesis
    using assms by (simp add: read_times_def split_arrow_append read_timestamp_format)
qed

lemma newline_not_in_times:
  assumes "0 \<le> x" "0 \<le> y" and "sep \<in> {CHR '','', CHR ''.''}"
  shows "newline \<notin> set (formatTimestamp x [sep] @ arrow @ formatTimestamp y [sep])"
proof -
  have "newline \<notin> set (formatTimestamp z [sep])" if "0 \<le> z" for z
    using assms(3) that by (intro formatTimestamp_chars) (auto simp: newline_def char_digit_def)
  with assms show ?thesis by (simp add: arrow_def newline_def)
qed

definition printable :: "Segment \<Rightarrow> bool" where
  "printable s \<longleftrightarrow> 0 \<le> seg_StartMs s \<and> 0 \<le> seg_EndMs s \<and> newline \<notin> set (seg_Text s)"

lemma split_srt_loop:
  assumes "printable s"
  shows "split_on newline (srt_loop i (s # segs)) = digits (i + 1)
    # (srtTimestamp (seg_StartMs s) @ arrow @ srtTimestamp (seg_EndMs s)) # seg_Text s # []
    # split_on newline (srt_loop (i + 1) segs)"
proof -
  have n: "newline \<notin> set (digits (i + 1))" using char_digit_digits by fastforce
  have t: "newline \<notin> set (srtTimestamp (seg_StartMs s) @ arrow @ srtTimestamp (seg_EndMs s))"
    unfolding srtTimestamp_def using assms by (intro newline_not_in_times) (auto simp: printable_def)
  have x: "newline \<notin> set (seg_Text s)" using assms by (simp add: printable_def)
  have d: "fmt_d (int i + 1) = digits (i + 1)" by (simp add: fmt_d_def nat_add_distrib)
  have e: "split_on newline (newline # rest) = [] # split_on newline rest" for rest by simp
  show ?thesis
    using split_on_append [OF n] split_on_append [OF t] split_on_append [OF x] e
    by (simp only: srt_loop.simps d append.simps append_assoc)
qed

lemma read_srt_loop:
  assumes "\<forall>s \<in> set segs. printable s"
  shows "read_srt_lines (split_on newline (srt_loop i segs))
    = Some (map (\<lambda>(k, s). (k, seg_StartMs s, seg_EndMs s, seg_Text s)) (zip [i + 1 ..< i + 1 + length segs] segs))"
  using assms
proof (induction segs arbitrary: i)
  case (Cons s segs)
  then have p: "printable s" by simp
  have t: "read_times CHR '','' (srtTimestamp (seg_StartMs s) @ arrow @ srtTimestamp (seg_EndMs s))
      = Some (seg_StartMs s, seg_EndMs s)"
    unfolding srtTimestamp_def using p by (intro read_times_line) (auto simp: printable_def)
  have u: "[i + 1 ..< i + 1 + length (s # segs)] = (i + 1) # [i + 1 + 1 ..< i + 1 + 1 + length segs]"
    by (subst upt_conv_Cons) simp_all
  show ?case
    unfolding split_srt_loop [OF p] read_srt_lines.simps read_nat_digits t u
    using Cons.IH [of "i + 1"] Cons.prems by simp
qed simp

text \<open>C19. A SubRip download reads back as the stored segments: numbered from 1, with their times to the
  millisecond and their texts, when times are not negative and texts have no line break.\<close>

theorem srt_roundtrip:
  assumes "\<forall>s \<in> set segs. printable s"
  shows "read_srt (toSRT segs) = Some (map (\<lambda>(k, s). (k, seg_StartMs s, seg_EndMs s, seg_Text s))
    (zip [1 ..< 1 + length segs] segs))"
  using read_srt_loop [OF assms, of 0] by (simp add: read_srt_def toSRT_def)

definition sample_segment :: Segment where
  "sample_segment = \<lparr>seg_ID = 1, seg_TranscriptID = 2, seg_Idx = 0, seg_StartMs = 1500, seg_EndMs = 61002,
     seg_Text = ''hello'', seg_AvgLogprob = None\<rparr>"

theorem srt_roundtrip_witness: "read_srt (toSRT [sample_segment]) = Some [(1, 1500, 61002, ''hello'')]"
  using srt_roundtrip [of "[sample_segment]"] by (simp add: printable_def sample_segment_def newline_def)

end
