(* ===== verification/Http_Core.thy ===== *)
theory Http_Core
  imports Auth_Correct Go_Time Transcript_Formats
begin

text \<open>
  What every HTTP handler uses: requests, responses, \<open>src/api/internal/http/response.go\<close>, \<open>params.go\<close>, the
  shapes of \<open>dto/\<close>, and the authentication middleware \<open>middleware/auth.go\<close>.

  A request body is what \<open>encoding/json\<close> reads as its first value, \<open>None\<close> when that is not JSON; decoding it
  into a struct follows the library: exact field name before case-insensitive match, the last of repeated
  keys wins, \<open>null\<close> leaves a field alone, unknown fields and wrong types are errors. A response body is
  the value given to the encoder; of the response headers the model keeps \<open>Content-Type\<close> and \<open>X-Request-Id\<close>. A handler returns its response, or the error \<open>Panic\<close>.

  Outside the repository and parameters here: \<open>uuid.Parse\<close>, \<open>UUID.String\<close>, the presigning of \<open>minio-go\<close>, the
  offset of the process's time zone, and the routing of \<open>chi\<close>.
\<close>

section \<open>Requests and responses\<close>

datatype json = JNull | JBool bool | JNum string | JStr string | JArr "json list" | JObj "(string \<times> json) list"

record request =
  rq_Method :: string
  rq_Path :: string
  rq_Header :: "string \<Rightarrow> string"
  rq_Query :: "string \<Rightarrow> string"
  rq_Param :: "string \<Rightarrow> string"
  rq_Body :: "json option"
  rq_UserID :: "uuid option"
  rq_RequestID :: string

record errorDetail =
  ed_Code :: string
  ed_Message :: string
  ed_RequestID :: string

record JobResponse =
  jr_ID :: uuid
  jr_Status :: string
  jr_ObjectKey :: string
  jr_OriginalFilename :: string
  jr_SizeBytes :: int
  jr_DurationSeconds :: "float64 option"
  jr_Model :: string
  jr_Attempts :: int
  jr_MaxAttempts :: int
  jr_ErrorCode :: "string option"
  jr_ErrorMessage :: "string option"
  jr_CreatedAt :: instant
  jr_StartedAt :: "instant option"
  jr_FinishedAt :: "instant option"

record JobEventResponse =
  er_EventType :: string
  er_Payload :: bytes
  er_CreatedAt :: instant

record JobDetailResponse =
  jd_Job :: JobResponse
  jd_Events :: "JobEventResponse list"

record JobListResponse =
  jl_Jobs :: "JobResponse list"
  jl_NextCursor :: "string option"

record UserResponse =
  ur_ID :: uuid
  ur_Email :: string
  ur_CreatedAt :: instant

record CreateAPIKeyResponse =
  kc_ID :: uuid
  kc_Name :: string
  kc_Key :: string
  kc_CreatedAt :: instant

record APIKeyResponse =
  kr_ID :: uuid
  kr_Name :: string
  kr_LastUsedAt :: "instant option"
  kr_CreatedAt :: instant

record CreateUploadResponse =
  ul_UploadURL :: string
  ul_ObjectKey :: string

datatype resp_body =
    NoBody
  | ErrorBody errorDetail
  | TokenResponse string string
  | UserBody UserResponse
  | APIKeyCreated CreateAPIKeyResponse
  | APIKeyList "APIKeyResponse list"
  | WSTicketResponse string
  | UploadBody CreateUploadResponse
  | JobBody JobResponse
  | JobDetailBody JobDetailResponse
  | JobListBody JobListResponse
  | TranscriptBody TranscriptResponse
  | TextBody string
  | HealthBody string
  | ReadyBody "(string \<times> error option) list"

record response =
  rs_Status :: nat
  rs_ContentType :: string
  rs_RequestID :: string
  rs_Body :: resp_body

type_synonym handler = "request \<Rightarrow> (world, response) go"

definition WriteJSON :: "nat \<Rightarrow> resp_body \<Rightarrow> response" where
  "WriteJSON status v = \<lparr>rs_Status = status, rs_ContentType = ''application/json'', rs_RequestID = [], rs_Body = v\<rparr>"

definition WriteError :: "request \<Rightarrow> nat \<Rightarrow> string \<Rightarrow> string \<Rightarrow> response" where
  "WriteError r status code message =
    WriteJSON status (ErrorBody \<lparr>ed_Code = code, ed_Message = message, ed_RequestID = rq_RequestID r\<rparr>)"

definition no_content :: response where
  "no_content = \<lparr>rs_Status = 204, rs_ContentType = [], rs_RequestID = [], rs_Body = NoBody\<rparr>"

text \<open>\<open>x, err := m; if err != nil { write f(err); return }; k(x)\<close>, with a panic passing through.\<close>

definition respond :: "('w, 'a) go \<Rightarrow> (error \<Rightarrow> response) \<Rightarrow> ('a \<Rightarrow> ('w, response) go) \<Rightarrow> ('w, response) go" where
  "respond m f k = (\<lambda>w. case m w of
     (Inl (Panic p), w1) \<Rightarrow> (Inl (Panic p), w1)
   | (Inl err, w1) \<Rightarrow> (Inr (f err), w1)
   | (Inr x, w1) \<Rightarrow> k x w1)"

lemma status_JSON [simp]: "rs_Status (WriteJSON n b) = n" "rs_Status no_content = 204" "rs_Status (WriteError r n c m) = n"
  by (simp_all add: WriteJSON_def no_content_def WriteError_def)

lemma respond_Inr: "m w = (Inr x, w1) \<Longrightarrow> respond m f k w = k x w1"
  by (simp add: respond_def)

lemma respond_Inl: "m w = (Inl e, w1) \<Longrightarrow> (\<And>p. e \<noteq> Panic p) \<Longrightarrow> respond m f k w = (Inr (f e), w1)"
  by (cases e) (auto simp: respond_def)

section \<open>Decoding\<close>

definition upper :: "char \<Rightarrow> char" where
  "upper c = (let n = (of_char c :: nat) in if 97 \<le> n \<and> n \<le> 122 then char_of (n - 32) else c)"

text \<open>Simple case folding, with the two letters outside ASCII that fold to ASCII ones.\<close>

function fold_name :: "string \<Rightarrow> string" where
  "fold_name s = (case CutPrefix s [CHR 0xC5, CHR 0xBF] of Some t \<Rightarrow> CHR ''S'' # fold_name t | None \<Rightarrow>
     (case CutPrefix s [CHR 0xE2, CHR 0x84, CHR 0xAA] of Some t \<Rightarrow> CHR ''K'' # fold_name t | None \<Rightarrow>
     (case s of [] \<Rightarrow> [] | c # t \<Rightarrow> upper c # fold_name t)))"
  by pat_completeness auto
termination by (relation "measure length") (auto simp: CutPrefix_iff)

declare fold_name.simps [simp del]

type_synonym 'r field = "string \<times> (json \<Rightarrow> 'r \<Rightarrow> 'r option)"

definition field_for :: "'r field list \<Rightarrow> string \<Rightarrow> 'r field option" where
  "field_for fs key = (case find (\<lambda>f. fst f = key) fs of Some f \<Rightarrow> Some f
     | None \<Rightarrow> find (\<lambda>f. fold_name (fst f) = fold_name key) fs)"

fun decode_fields :: "'r field list \<Rightarrow> (string \<times> json) list \<Rightarrow> 'r \<Rightarrow> 'r option" where
  "decode_fields fs [] r = Some r"
| "decode_fields fs ((key, v) # kvs) r = (case field_for fs key of None \<Rightarrow> None
     | Some f \<Rightarrow> (case snd f v r of None \<Rightarrow> None | Some r' \<Rightarrow> decode_fields fs kvs r'))"

definition DecodeJSON :: "'r field list \<Rightarrow> 'r \<Rightarrow> request \<Rightarrow> 'r option" where
  "DecodeJSON fs zero r = (case rq_Body r of
     Some (JObj kvs) \<Rightarrow> decode_fields fs kvs zero
   | Some JNull \<Rightarrow> Some zero
   | _ \<Rightarrow> None)"

definition str_field :: "string \<Rightarrow> (string \<Rightarrow> 'r \<Rightarrow> 'r) \<Rightarrow> 'r field" where
  "str_field name upd = (name, \<lambda>v r. case v of JStr s \<Rightarrow> Some (upd s r) | JNull \<Rightarrow> Some r | _ \<Rightarrow> None)"

definition int64_field :: "string \<Rightarrow> (int \<Rightarrow> 'r \<Rightarrow> 'r) \<Rightarrow> 'r field" where
  "int64_field name upd = (name, \<lambda>v r. case v of
     JNum lit \<Rightarrow> (case read_int lit of Some n \<Rightarrow> if in_int64 n then Some (upd n r) else None | None \<Rightarrow> None)
   | JNull \<Rightarrow> Some r | _ \<Rightarrow> None)"

section \<open>What the handlers take from outside\<close>

record http_lib =
  hl_uuid_Parse :: "string \<Rightarrow> uuid option"
  hl_uuid_String :: "uuid \<Rightarrow> string"
  hl_offset :: "instant \<Rightarrow> int"
  hl_PresignedPutObject :: "string \<Rightarrow> string \<Rightarrow> int \<Rightarrow> (world, string) go"
  hl_PresignedGetObject :: "string \<Rightarrow> string \<Rightarrow> int \<Rightarrow> (world, string) go"
  hl_bucket :: string
  hl_auth :: "world auth_lib"

definition parseUUIDParam :: "http_lib \<Rightarrow> request \<Rightarrow> string \<Rightarrow> error + uuid" where
  "parseUUIDParam H r name = (case hl_uuid_Parse H (rq_Param r name) of
     None \<Rightarrow> Inl (Errorf (''invalid '' @ name) (ErrMsg ''uuid'')) | Some i \<Rightarrow> Inr i)"

definition presignTTL :: int where
  "presignTTL = 15 * 60 * 10 ^ 9"

definition PresignPutURL :: "http_lib \<Rightarrow> string \<Rightarrow> (world, string) go" where
  "PresignPutURL H objectKey =
    check (hl_PresignedPutObject H (hl_bucket H) objectKey presignTTL) (Errorf ''objectstore: presign put'') ret"

definition PresignGetURL :: "http_lib \<Rightarrow> string \<Rightarrow> (world, string) go" where
  "PresignGetURL H objectKey =
    check (hl_PresignedGetObject H (hl_bucket H) objectKey presignTTL) (Errorf ''objectstore: presign get'') ret"

section \<open>Authentication of a request\<close>

text \<open>\<open>middleware.UserID\<close>: the identity the middleware put into the context.\<close>

definition with_user :: "request \<Rightarrow> (uuid \<Rightarrow> (world, response) go) \<Rightarrow> (world, response) go" where
  "with_user r k = (case rq_UserID r of
     None \<Rightarrow> ret (WriteError r 401 ''unauthorized'' ''not authenticated'') | Some userID \<Rightarrow> k userID)"

definition with_param :: "http_lib \<Rightarrow> request \<Rightarrow> string \<Rightarrow> (uuid \<Rightarrow> (world, response) go) \<Rightarrow> (world, response) go" where
  "with_param H r message k = (case parseUUIDParam H r ''id'' of
     Inl err \<Rightarrow> ret (WriteError r 400 ''invalid_request'' message) | Inr i \<Rightarrow> k i)"

definition RequireAuth :: "http_lib \<Rightarrow> TokenIssuer \<Rightarrow> world auth_Service \<Rightarrow> handler \<Rightarrow> handler" where
  "RequireAuth H tokens svc next r =
    (let apiKey = rq_Header r ''X-API-Key'' in
     if apiKey \<noteq> [] then
       respond (AuthenticateAPIKey svc apiKey) (\<lambda>_. WriteError r 401 ''unauthorized'' ''invalid api key'')
         (\<lambda>userID. next (r\<lparr>rq_UserID := Some userID\<rparr>))
     else case CutPrefix (rq_Header r ''Authorization'') ''Bearer '' of
         None \<Rightarrow> ret (WriteError r 401 ''unauthorized'' ''missing bearer token or api key'')
       | Some token \<Rightarrow>
           if token = [] then ret (WriteError r 401 ''unauthorized'' ''missing bearer token or api key'')
           else respond (with_now (hl_auth H) (\<lambda>now. Verify (al_jwt (hl_auth H)) tokens now token TokenTypeAccess))
             (\<lambda>_. WriteError r 401 ''unauthorized'' ''invalid or expired access token'')
             (\<lambda>claims. next (r\<lparr>rq_UserID := Some (c_UserID claims)\<rparr>)))"

end
