(* ===== verification/Audio.thy ===== *)
theory Audio
  imports Worker Http_Core
begin

text \<open>
  From an uploaded object to a transcript: \<open>src/worker/worker/audio.py\<close>, \<open>transcribe.py\<close>, \<open>errors.py\<close>, and the part of
  \<open>_transcribe_and_store\<close> in \<open>main.py\<close> that calls them.

  The object store, \<open>ffprobe\<close>, \<open>ffmpeg\<close>, \<open>faster-whisper\<close>, the reading of numbers and the arithmetic of floating-point numbers are
  parameters, collected in the record \<open>tools\<close>. A Python float is a \<^typ>\<open>float64\<close>; comparisons with \<open>NaN\<close> are false, so a duration that is
  not a number passes both tests of \<open>probe\<close>.
\<close>

section \<open>Python values and exceptions\<close>

text \<open>What comes of a \<open>subprocess.run\<close>: it could not run or timed out, its output was no text, or it ended.\<close>

datatype run_result = CouldNotRun string | NotText | Ran int string string

datatype model_result = Raised_MemoryError | Raised_Exception string | Model_ok "(real \<times> real \<times> string \<times> real) list" string real

record tools =
  tl_fget_object :: "string \<Rightarrow> string \<Rightarrow> string + bytes"
  tl_ffprobe :: "bytes \<Rightarrow> run_result"
  tl_ffmpeg :: "bytes \<Rightarrow> run_result \<times> bytes"
  tl_json_loads :: "string \<Rightarrow> string + json"
  tl_float_of_str :: "string \<Rightarrow> string + float64"
  tl_float_of_num :: "string \<Rightarrow> float64 option"
  tl_format_0f :: "float64 \<Rightarrow> string"
  tl_model :: "bytes \<Rightarrow> model_result"
  tl_elapsed :: real
  tl_times_1000 :: "real \<Rightarrow> float64"
  tl_divide :: "real \<Rightarrow> float64 \<Rightarrow> real"

text \<open>The subclasses of \<open>TranscriptionError\<close>, and every other exception.\<close>

datatype exc = UnsupportedMediaError string | DecodeError string | ModelCrashError string | OutOfMemoryError string | DownloadError string
  | OtherException

fun error_code :: "exc \<Rightarrow> string" where
  "error_code (UnsupportedMediaError m) = ''unsupported_media''"
| "error_code (DecodeError m) = ''decode_error''"
| "error_code (ModelCrashError m) = ''model_crash''"
| "error_code (OutOfMemoryError m) = ''oom''"
| "error_code (DownloadError m) = ''download_error''"
| "error_code OtherException = ''internal_error''"

fun exc_message :: "exc \<Rightarrow> string" where
  "exc_message (UnsupportedMediaError m) = m"
| "exc_message (DecodeError m) = m"
| "exc_message (ModelCrashError m) = m"
| "exc_message (OutOfMemoryError m) = m"
| "exc_message (DownloadError m) = m"
| "exc_message OtherException = []"

definition bind_exc :: "'e + 'a \<Rightarrow> ('a \<Rightarrow> 'e + 'b) \<Rightarrow> 'e + 'b" where
  "bind_exc m k = (case m of Inl e \<Rightarrow> Inl e | Inr x \<Rightarrow> k x)"

lemma bind_exc_simps [simp]: "bind_exc (Inl e) k = Inl e" "bind_exc (Inr x) k = k x"
  by (simp_all add: bind_exc_def)

lemma bind_exc_Inr: "bind_exc m k = Inr y \<longleftrightarrow> (\<exists>x. m = Inr x \<and> k x = Inr y)"
  by (cases m) auto

text \<open>\<open>str.strip()\<close> on code points below 256.\<close>

definition py_space :: "char \<Rightarrow> bool" where
  "py_space c = (let n = (of_char c :: nat) in 9 \<le> n \<and> n \<le> 13 \<or> 28 \<le> n \<and> n \<le> 32 \<or> n = 133 \<or> n = 160)"

definition strip :: "string \<Rightarrow> string" where
  "strip s = rev (dropWhile py_space (rev (dropWhile py_space s)))"

text \<open>\<open>json.loads\<close> gives a dictionary for an object: the last of repeated keys counts. A method call on another value raises
  \<open>AttributeError\<close>. \<open>get\<close> with a default.\<close>

definition dict_get :: "json \<Rightarrow> string \<Rightarrow> json \<Rightarrow> exc + json" where
  "dict_get j k dflt = (case j of JObj kvs \<Rightarrow> Inr (case map_of (rev kvs) k of None \<Rightarrow> dflt | Some v \<Rightarrow> v) | _ \<Rightarrow> Inl OtherException)"

fun truthy :: "tools \<Rightarrow> json \<Rightarrow> bool" where
  "truthy T JNull = False"
| "truthy T (JBool b) = b"
| "truthy T (JNum n) = (tl_float_of_num T n \<noteq> Some (Fin 0))"
| "truthy T (JStr s) = (s \<noteq> [])"
| "truthy T (JArr xs) = (xs \<noteq> [])"
| "truthy T (JObj kvs) = (kvs \<noteq> [])"

text \<open>The comparisons \<open>x <= y\<close> and \<open>x > y\<close> of a float with a finite number.\<close>

fun float_le :: "float64 \<Rightarrow> real \<Rightarrow> bool" where
  "float_le (Fin x) y = (x \<le> y)"
| "float_le NegInf y = True"
| "float_le _ y = False"

fun float_gt :: "float64 \<Rightarrow> real \<Rightarrow> bool" where
  "float_gt (Fin x) y = (x > y)"
| "float_gt PosInf y = True"
| "float_gt _ y = False"

section \<open>Probing and normalising\<close>

definition MAX_DURATION_SECONDS :: real where
  "MAX_DURATION_SECONDS = 2 * 60 * 60"

definition bad_output :: "string \<Rightarrow> exc" where
  "bad_output m = UnsupportedMediaError (''could not parse ffprobe output: '' @ m)"

text \<open>\<open>float(x)\<close>: a text that is no number is a \<open>ValueError\<close>, which \<open>probe\<close> catches; a list, an object or an integer beyond the
  range are a \<open>TypeError\<close> or an \<open>OverflowError\<close>, which it does not.\<close>

fun py_float :: "tools \<Rightarrow> json \<Rightarrow> exc + float64" where
  "py_float T (JStr s) = (case tl_float_of_str T s of Inl m \<Rightarrow> Inl (bad_output m) | Inr x \<Rightarrow> Inr x)"
| "py_float T (JNum n) = (case tl_float_of_num T n of None \<Rightarrow> Inl OtherException | Some x \<Rightarrow> Inr x)"
| "py_float T (JBool b) = Inr (Fin (if b then 1 else 0))"
| "py_float T _ = Inl OtherException"

text \<open>\<open>streams[0]\<close> of a value that is not empty: of a dictionary whose keys are texts it is a \<open>KeyError\<close>; a text gives its first
  character, which has no \<open>get\<close>, and a number or \<open>True\<close> cannot be indexed.\<close>

fun first_stream :: "json \<Rightarrow> exc + json" where
  "first_stream (JArr (s # ss)) = Inr s"
| "first_stream (JObj kvs) = Inl (bad_output ''0'')"
| "first_stream (JStr (c # cs)) = Inr (JStr [c])"
| "first_stream _ = Inl OtherException"

definition read_duration :: "tools \<Rightarrow> json \<Rightarrow> exc + float64" where
  "read_duration T info =
    bind_exc (dict_get info ''streams'' (JArr [])) (\<lambda>streams.
    if \<not> truthy T streams then Inl (UnsupportedMediaError ''no audio stream found'')
    else bind_exc (first_stream streams) (\<lambda>stream.
    bind_exc (dict_get info ''format'' (JObj [])) (\<lambda>fmt.
    bind_exc (dict_get fmt ''duration'' JNull) (\<lambda>d1.
    bind_exc (if truthy T d1 then Inr d1 else dict_get stream ''duration'' JNull) (\<lambda>d2.
    bind_exc (if truthy T d2 then py_float T d2 else Inr (Fin 0)) (\<lambda>duration.
    bind_exc (dict_get stream ''codec_name'' (JStr ''unknown'')) (\<lambda>codec. Inr duration)))))))"

definition probe :: "tools \<Rightarrow> bytes \<Rightarrow> exc + float64" where
  "probe T src = (case tl_ffprobe T src of
     CouldNotRun m \<Rightarrow> Inl (UnsupportedMediaError (''ffprobe could not run: '' @ m))
   | NotText \<Rightarrow> Inl OtherException
   | Ran returncode stdout stderr \<Rightarrow>
       if returncode \<noteq> 0 then Inl (UnsupportedMediaError (''ffprobe rejected the file: '' @ strip stderr))
       else case tl_json_loads T stdout of Inl m \<Rightarrow> Inl (bad_output m)
       | Inr info \<Rightarrow> bind_exc (read_duration T info) (\<lambda>duration.
           let zero = UnsupportedMediaError ''audio stream has zero or unknown duration'';
               long = UnsupportedMediaError (''audio duration '' @ tl_format_0f T duration @ ''s exceeds the 7200s limit'')
           in if float_le duration 0 then Inl zero else if float_gt duration MAX_DURATION_SECONDS then Inl long else Inr duration))"

text \<open>The last 500 characters of a text.\<close>

definition last_500 :: "string \<Rightarrow> string" where
  "last_500 s = drop (length s - 500) s"

definition normalize :: "tools \<Rightarrow> bytes \<Rightarrow> exc + bytes" where
  "normalize T src = (case tl_ffmpeg T src of
     (CouldNotRun m, wav) \<Rightarrow> Inl (DecodeError (''ffmpeg could not run: '' @ m))
   | (NotText, wav) \<Rightarrow> Inl OtherException
   | (Ran returncode stdout stderr, wav) \<Rightarrow>
       if returncode \<noteq> 0 then Inl (DecodeError (''ffmpeg failed to normalize audio: '' @ last_500 (strip stderr))) else Inr wav)"

section \<open>Transcribing\<close>

definition ENGLISH_CONFIDENCE_THRESHOLD :: real where
  "ENGLISH_CONFIDENCE_THRESHOLD = 1 / 2"

text \<open>\<open>int(x)\<close> rounds towards zero; of an infinity it raises.\<close>

definition py_int :: "float64 \<Rightarrow> int option" where
  "py_int x = (case x of Fin r \<Rightarrow> Some (if r \<ge> 0 then \<lfloor>r\<rfloor> else \<lceil>r\<rceil>) | _ \<Rightarrow> None)"

fun segment_results :: "tools \<Rightarrow> int \<Rightarrow> (real \<times> real \<times> string \<times> real) list \<Rightarrow> segment_result list option" where
  "segment_results T i [] = Some []"
| "segment_results T i ((start, end, text, avg) # segs) =
    (case (py_int (tl_times_1000 T start), py_int (tl_times_1000 T end), segment_results T (i + 1) segs) of
       (Some s, Some e, Some rest) \<Rightarrow> Some ((i, s, e, strip text, Some avg) # rest) | _ \<Rightarrow> None)"

fun join :: "string \<Rightarrow> string list \<Rightarrow> string" where
  "join sep [] = []"
| "join sep [x] = x"
| "join sep (x # y # xs) = x @ sep @ join sep (y # xs)"

abbreviation segment_text :: "segment_result \<Rightarrow> string" where
  "segment_text s \<equiv> fst (snd (snd (snd s)))"

definition transcribe :: "tools \<Rightarrow> string \<Rightarrow> bytes \<Rightarrow> float64 \<Rightarrow> exc + result" where
  "transcribe T model_name wav duration =
    (let crash = (\<lambda>m. ModelCrashError (''model crashed transcribing with '' @ model_name @ '': '' @ m)) in
     case tl_model T wav of
       Raised_MemoryError \<Rightarrow> Inl (OutOfMemoryError (''out of memory transcribing with '' @ model_name))
     | Raised_Exception m \<Rightarrow> Inl (crash m)
     | Model_ok segs language probability \<Rightarrow>
         (case segment_results T 0 segs of
            None \<Rightarrow> Inl (crash ''cannot convert float infinity to integer'')
          | Some rs \<Rightarrow> Inr \<lparr>re_duration = duration, re_text = strip (join '' '' (map segment_text rs)),
              re_language_detected = language, re_language_probability = probability,
              re_language_warning = (probability < ENGLISH_CONFIDENCE_THRESHOLD), re_processing_seconds = tl_elapsed T,
              re_real_time_factor = (if float_gt duration 0 then tl_divide T (tl_elapsed T) duration else 0), re_segments = rs\<rparr>))"

section \<open>The pipeline\<close>

definition download_object :: "tools \<Rightarrow> string \<Rightarrow> string \<Rightarrow> exc + bytes" where
  "download_object T bucket object_key = (case tl_fget_object T bucket object_key of
     Inl m \<Rightarrow> Inl (DownloadError (''could not download '' @ object_key @ '' from '' @ bucket @ '': '' @ m)) | Inr b \<Rightarrow> Inr b)"

definition pipeline :: "tools \<Rightarrow> string \<Rightarrow> string \<Rightarrow> string \<Rightarrow> exc + result" where
  "pipeline T model_name bucket object_key =
    bind_exc (download_object T bucket object_key) (\<lambda>src.
    bind_exc (probe T src) (\<lambda>duration.
    bind_exc (normalize T src) (\<lambda>wav.
    transcribe T model_name wav duration)))"

text \<open>What \<open>_transcribe_and_store\<close> sees of it.\<close>

definition outcome_of :: "exc + result \<Rightarrow> outcome" where
  "outcome_of r = (case r of Inr res \<Rightarrow> Transcribed res | Inl OtherException \<Rightarrow> Raised_other
     | Inl e \<Rightarrow> Raised_TranscriptionError (error_code e) (exc_message e))"

section \<open>What comes out\<close>

definition worker_codes :: "string set" where
  "worker_codes = {''unsupported_media'', ''decode_error'', ''model_crash'', ''oom'', ''download_error''}"

lemma outcome_code: "outcome_of r = Raised_TranscriptionError c m \<Longrightarrow> c \<in> worker_codes"
  by (auto simp: outcome_of_def worker_codes_def split: sum.splits exc.splits)

definition duration_in_bounds :: "float64 \<Rightarrow> bool" where
  "duration_in_bounds x \<longleftrightarrow> (\<exists>d. x = Fin d \<and> 0 < d \<and> d \<le> 7200)"

lemma probe_bounds:
  assumes "probe T src = Inr x"
  obtains "duration_in_bounds x" | out err info where "x = NaN" "tl_ffprobe T src = Ran 0 out err" "tl_json_loads T out = Inr info" "read_duration T info = Inr NaN"
proof -
  obtain out err info where r: "tl_ffprobe T src = Ran 0 out err" "tl_json_loads T out = Inr info" "read_duration T info = Inr x"
      "\<not> float_le x 0" "\<not> float_gt x 7200"
    using assms by (auto simp: probe_def bind_exc_def Let_def MAX_DURATION_SECONDS_def split: run_result.split_asm sum.split_asm if_split_asm)
  then show thesis using that by (cases x) (auto simp: duration_in_bounds_def)
qed

lemma probe_accepts_NaN:
  "tl_ffprobe T src = Ran 0 out err \<Longrightarrow> tl_json_loads T out = Inr info \<Longrightarrow> read_duration T info = Inr NaN \<Longrightarrow> probe T src = Inr NaN"
  by (simp add: probe_def)

text \<open>A stripped text neither starts nor ends with white space.\<close>

definition stripped :: "string \<Rightarrow> bool" where
  "stripped s \<longleftrightarrow> s = [] \<or> \<not> py_space (hd s) \<and> \<not> py_space (last s)"

lemma rev_dropWhile_prefix: "\<exists>zs. xs = rev (dropWhile P (rev xs)) @ zs"
  by (metis rev_append rev_rev_ident takeWhile_dropWhile_id)

lemma strip_stripped: "stripped (strip s)"
proof (cases "strip s = []")
  case False
  define a where "a = dropWhile py_space s"
  have s: "strip s = rev (dropWhile py_space (rev a))" by (simp only: strip_def a_def)
  obtain zs where zs: "a = strip s @ zs" using rev_dropWhile_prefix [of a py_space] unfolding s by blast
  have "\<not> py_space (hd a)" using hd_dropWhile [of py_space s] zs False unfolding a_def [symmetric] by auto
  then have "\<not> py_space (hd (strip s))" using zs False by (metis hd_append2)
  moreover have "\<not> py_space (last (strip s))"
  proof -
    have "dropWhile py_space (rev a) \<noteq> []" using False unfolding s by (simp only: rev_is_Nil_conv not_False_eq_True)
    then have "\<not> py_space (hd (dropWhile py_space (rev a)))" by (rule hd_dropWhile)
    then show ?thesis unfolding s last_rev .
  qed
  ultimately show ?thesis unfolding stripped_def by blast
qed (simp add: stripped_def)

lemma segment_results_shape:
  "segment_results T i segs = Some rs \<Longrightarrow> map fst rs = [i .. i + int (length segs) - 1] \<and> length rs = length segs
     \<and> list_all (\<lambda>s. stripped (segment_text s)) rs"
proof (induction T i segs arbitrary: rs rule: segment_results.induct)
  case (2 T i st en tx avg segs)
  then obtain s e rest where r: "segment_results T (i + 1) segs = Some rest" "rs = (i, s, e, strip tx, Some avg) # rest"
    by (auto split: option.splits)
  have "[i .. i + int (length ((st, en, tx, avg) # segs)) - 1] = i # [i + 1 .. i + 1 + int (length segs) - 1]"
    by (simp add: upto_rec1)
  then show ?case using "2.IH" [OF r(1)] r(2) by (simp add: strip_stripped)
qed simp

lemma pipeline_Inr:
  assumes "pipeline T model_name bucket key = Inr res"
  shows "duration_in_bounds (re_duration res) \<or> re_duration res = NaN \<and> (\<exists>src out err info. tl_fget_object T bucket key = Inr src
       \<and> tl_ffprobe T src = Ran 0 out err \<and> tl_json_loads T out = Inr info \<and> read_duration T info = Inr NaN)" and "map fst (re_segments res) = [0 .. int (length (re_segments res)) - 1]"
    and "list_all (\<lambda>s. stripped (segment_text s)) (re_segments res)" and "stripped (re_text res)"
proof -
  obtain src d wav where g: "tl_fget_object T bucket key = Inr src" and p: "probe T src = Inr d" and t: "transcribe T model_name wav d = Inr res"
    using assms by (auto simp: pipeline_def bind_exc_Inr download_object_def split: sum.split_asm)
  from t obtain segs where s: "segment_results T 0 segs = Some (re_segments res)" "re_duration res = d"
      "re_text res = strip (join '' '' (map segment_text (re_segments res)))"
    by (auto simp: transcribe_def Let_def split: model_result.split_asm option.split_asm)
  show "duration_in_bounds (re_duration res) \<or> re_duration res = NaN \<and> (\<exists>src out err info. tl_fget_object T bucket key = Inr src
       \<and> tl_ffprobe T src = Ran 0 out err \<and> tl_json_loads T out = Inr info \<and> read_duration T info = Inr NaN)"
    using probe_bounds [OF p] g s(2) by metis
  show "map fst (re_segments res) = [0 .. int (length (re_segments res)) - 1]" "list_all (\<lambda>s. stripped (segment_text s)) (re_segments res)"
    using segment_results_shape [OF s(1)] by simp_all
  show "stripped (re_text res)" using s(3) by (simp add: strip_stripped)
qed

text \<open>C17. What the audio pipeline makes of an upload, whatever the object store, the tools and the model do. A failure it foresees has one
  of five error codes. A transcript exists only for audio of more than 0 and at most 7200 seconds, or for one whose duration the report of
  \<open>ffprobe\<close> gives as a text that reads as \<open>NaN\<close>, the one value the two tests of \<open>probe\<close> let through; its segments are
  numbered 0, 1, 2, \<dots> and their texts and the whole text neither start nor end with white space. Another exception comes only from
  output of \<open>ffprobe\<close> or \<open>ffmpeg\<close> that is no text, or from a report of \<open>ffprobe\<close> that is not shaped as documented.\<close>

theorem pipeline_outcome:
  "case outcome_of (pipeline T model_name bucket key) of
     Raised_TranscriptionError c m \<Rightarrow> c \<in> {''unsupported_media'', ''decode_error'', ''model_crash'', ''oom'', ''download_error''}
   | Transcribed res \<Rightarrow> (duration_in_bounds (re_duration res) \<or> re_duration res = NaN \<and> (\<exists>src out err info. tl_fget_object T bucket key = Inr src
         \<and> tl_ffprobe T src = Ran 0 out err \<and> tl_json_loads T out = Inr info \<and> read_duration T info = Inr NaN))
       \<and> map fst (re_segments res) = [0 .. int (length (re_segments res)) - 1]
       \<and> list_all (\<lambda>s. stripped (segment_text s)) (re_segments res) \<and> stripped (re_text res)
   | Raised_other \<Rightarrow> \<exists>src. tl_fget_object T bucket key = Inr src
       \<and> (tl_ffprobe T src = NotText \<or> fst (tl_ffmpeg T src) = NotText
          \<or> (\<exists>out err info. tl_ffprobe T src = Ran 0 out err \<and> tl_json_loads T out = Inr info \<and> read_duration T info = Inl OtherException))"
proof (cases "pipeline T model_name bucket key")
  case (Inr res)
  then show ?thesis using pipeline_Inr [OF Inr] by (simp add: outcome_of_def)
next
  case (Inl e)
  show ?thesis
  proof (cases "e = OtherException")
    case False
    then show ?thesis using Inl by (cases e) (auto simp: outcome_of_def)
  next
    case True
    have "transcribe T m wav d \<noteq> Inl OtherException" for m wav d
      by (auto simp: transcribe_def Let_def split: model_result.splits option.splits)
    then show ?thesis using Inl True
      by (auto simp: outcome_of_def pipeline_def download_object_def probe_def normalize_def bad_output_def bind_exc_def Let_def
          split: sum.splits run_result.splits prod.splits if_splits)
  qed
qed

end
