(* ===== verification/Error_Codes.thy ===== *)
theory Error_Codes
  imports Consumer Audio Platform
begin

text \<open>
  Two invariants of the whole system, as interpretations of \<open>kept_by_statements\<close>: the constraints of the schema, and that a failed
  job says why with a code of the taxonomy of \<open>src/worker/worker/errors.py\<close> or with the reaper's code.
\<close>

interpretation schema_kept: kept_by_statements schema_ok UNIV
  by unfold_locales (auto intro: schema_ok_CreateJob schema_ok_UpdateJobStatus schema_ok_RetryJob schema_ok_CancelJob schema_ok_SoftDeleteJob
      schema_ok_CreateJobEvent schema_ok_RequeueExpiredJob schema_ok_FailExpiredJob schema_ok_worker schema_ok_inserts)

definition known_codes :: "string set" where
  "known_codes = {''unsupported_media'', ''decode_error'', ''model_crash'', ''oom'', ''download_error'', ''lease_expired''}"

definition explained :: "'a Job_scheme \<Rightarrow> bool" where
  "explained r \<longleftrightarrow> (case job_ErrorCode r of None \<Rightarrow> job_Status r \<noteq> StatusFailed | Some c \<Rightarrow> c \<in> known_codes)"

definition failures_explained :: "database \<Rightarrow> bool" where
  "failures_explained d \<longleftrightarrow> (\<forall>r \<in> set (tbl_jobs d). explained r)"

lemma explained_update:
  assumes "failures_explained d" and "\<And>r. explained r \<Longrightarrow> explained (f r)"
  shows "failures_explained (d\<lparr>tbl_jobs := update_where p f (tbl_jobs d)\<rparr>)"
  using assms by (auto simp: failures_explained_def set_update_where)

lemma explained_returning:
  "failures_explained d \<Longrightarrow> (\<And>r. explained r \<Longrightarrow> explained (f r)) \<Longrightarrow> failures_explained (snd (update_jobs_returning p f d))"
  by (simp add: update_jobs_returning_def explained_update)

lemma explained_rows:
  "explained r \<Longrightarrow> explained (set_status StatusQueued now r)" "explained (reset_for_retry r)" "explained r \<Longrightarrow> explained (set_cancelled now r)"
  "explained r \<Longrightarrow> explained (set_requeued r)" "explained (set_expired_failed leaseExpiredErrorCode m now r)"
  "explained r \<Longrightarrow> explained (set_claimed wid now r)" "explained r \<Longrightarrow> explained (set_succeeded x now r)"
  "c \<in> worker_codes \<Longrightarrow> explained (set_worker_failed a c m now r)" "c \<in> worker_codes \<Longrightarrow> explained (set_worker_requeued a c m r)"
  by (auto simp: explained_def set_status_def reset_for_retry_def set_cancelled_def set_requeued_def set_expired_failed_def set_claimed_def
      set_succeeded_def set_worker_failed_def set_worker_requeued_def known_codes_def worker_codes_def leaseExpiredErrorCode_def
      split: option.splits)

lemma explained_deleted [simp]: "explained (r\<lparr>job_DeletedAt := x\<rparr>) = explained r" for r :: db_Job
  by (simp add: explained_def split: option.split)

interpretation codes_kept: kept_by_statements failures_explained worker_codes
proof unfold_locales
  fix d i u now x wid a c m
  assume d: "failures_explained d"
  note intros = d explained_returning explained_update explained_rows
  show "failures_explained (snd (q_UpdateJobStatus i StatusQueued now d))" unfolding q_UpdateJobStatus_def Let_def by (auto intro: intros)
  show "failures_explained (snd (q_RetryJob i u now d))" unfolding q_RetryJob_def by (auto intro: intros)
  show "failures_explained (snd (q_CancelJob i u now d))" unfolding q_CancelJob_def by (auto intro: intros)
  show "failures_explained (snd (q_SoftDeleteJob i u now d))"
    unfolding q_SoftDeleteJob_def Let_def by (auto intro: intros)
  show "failures_explained (snd (q_RequeueExpiredJob i now d))" unfolding q_RequeueExpiredJob_def Let_def by (auto intro: intros)
  show "failures_explained (snd (q_FailExpiredJob i leaseExpiredErrorCode m now d))"
    unfolding q_FailExpiredJob_def Let_def by (auto intro: intros)
  show "failures_explained (snd (sql_claim i wid now d))" unfolding sql_claim_def by (auto intro: intros)
  show "failures_explained (snd (sql_renew_lease i now d))"
    unfolding sql_renew_lease_def update_jobs_def by (auto intro!: intros simp: explained_def split: option.splits)
  show "failures_explained (snd (sql_complete i x now d))" unfolding sql_complete_def update_jobs_def by (auto intro: intros)
  show "c \<in> worker_codes \<Longrightarrow> failures_explained (snd (sql_fail i a c m now d))"
    "c \<in> worker_codes \<Longrightarrow> failures_explained (snd (sql_requeue i a c m now d))"
    unfolding sql_fail_def sql_requeue_def write_attempts_def update_jobs_def by (auto intro: intros)
qed (auto simp: failures_explained_def q_CreateJob_def new_job_row_def explained_def q_CreateJobEvent_def sql_insert_transcript_def
    sql_insert_segment_def Let_def)

lemma codes_in_outcome: "codes_in worker_codes (outcome_of r)"
  using outcome_code [of r] by (auto simp: codes_in_def split: outcome.split)

text \<open>C16. Every failure is explained. If every failed job has an error code of the taxonomy, or the reaper's \<open>lease_expired\<close>, then so it
  is after any method of the service, any pass of the reaper and any run of a worker's loop, whatever fails and whatever the
  audio tools and the model do; and the constraints of the schema survive too.\<close>

theorem failures_stay_explained:
  assumes "failures_explained (w_db w)" and "schema_ok (w_db w)"
    and "w' \<in> {snd (Create uuid_New jobSvc p w), snd (Cancel jobSvc u i w), snd (Retry jobSvc u i w), snd (Delete jobSvc u i w),
      snd (ReapOnce reaper w), fst (snd (worker_run wid rs (w, acked)))}"
    and "list_all (\<lambda>x. list_all (\<lambda>en. \<exists>T m b. en_outcome en = (\<lambda>k. outcome_of (pipeline T m b k))) (handed x)) rs"
  shows "failures_explained (w_db w') \<and> schema_ok (w_db w')"
proof -
  have codes: "list_all (\<lambda>x. list_all (\<lambda>en. \<forall>k. codes_in worker_codes (en_outcome en k)) (handed x)) rs"
    using assms(4) by (fastforce simp: list_all_iff codes_in_outcome)
  then have all: "list_all (\<lambda>x. list_all (\<lambda>en. \<forall>k. codes_in UNIV (en_outcome en k)) (handed x)) rs"
    by (simp add: list_all_iff codes_in_def split: outcome.split)
  have "db_rel failures_explained w w'"
    using assms(3) codes_kept.Create [of p] codes_kept.methods [of u i] codes_kept.ReapOnce [of w]
      codes_kept.worker_run [OF codes, of w wid acked] by (auto simp: keeps_def)
  moreover have "db_rel schema_ok w w'"
    using assms(3) schema_kept.Create [of p] schema_kept.methods [of u i] schema_kept.ReapOnce [of w]
      schema_kept.worker_run [OF all, of w wid acked] by (auto simp: keeps_def)
  ultimately show ?thesis using assms(1,2) by (simp add: inv_rel_def)
qed

text \<open>A worker that cannot download the object.\<close>

definition toy_tools :: "(real \<times> real \<times> string \<times> real) list \<Rightarrow> bool \<Rightarrow> tools" where
  "toy_tools segs up = \<lparr>tl_fget_object = (\<lambda>_ _. if up then Inr ''audio'' else Inl ''no route''), tl_ffprobe = (\<lambda>_. Ran 0 ''report'' []),
     tl_ffmpeg = (\<lambda>b. (Ran 0 [] [], b)),
     tl_json_loads = (\<lambda>_. Inr (JObj [(''streams'', JArr [JObj []]), (''format'', JObj [(''duration'', JStr ''60'')])])),
     tl_float_of_str = (\<lambda>_. Inr (Fin 60)), tl_float_of_num = (\<lambda>_. None), tl_format_0f = (\<lambda>_. []),
     tl_model = (\<lambda>_. Model_ok segs ''en'' 1), tl_elapsed = 30, tl_times_1000 = (\<lambda>x. Fin (x * 1000)), tl_divide = (\<lambda>x y. 0)\<rparr>"

lemma toy_download_fails:
  "outcome_of (pipeline (toy_tools [] False) ''m'' ''b'' ''k'') = Raised_TranscriptionError ''download_error'' ''could not download k from b: no route''"
  by (simp add: pipeline_def download_object_def toy_tools_def outcome_of_def)

definition failing_entry :: entry where
  "failing_entry = \<lparr>en_id = 1, en_fields = [(''job_id'', 7)], en_renewals = 2, en_outcome = (\<lambda>k. outcome_of (pipeline (toy_tools [] False) ''m'' ''b'' k))\<rparr>"

theorem failures_stay_explained_witness:
  "failures_explained (w_db (fst (snd (worker_run ''w'' [RedisError, Messages [failing_entry]] (sample_world StatusQueued, [])))))"
proof -
  have "failures_explained (w_db (sample_world StatusQueued))"
    by (simp add: failures_explained_def explained_def sample_world_def sample_db_def sample_job_def)
  moreover have "list_all (\<lambda>x. list_all (\<lambda>en. \<exists>T m b. en_outcome en = (\<lambda>k. outcome_of (pipeline T m b k))) (handed x)) [RedisError, Messages [failing_entry]]"
    by (auto simp: failing_entry_def)
  ultimately show ?thesis
    using failures_stay_explained [where w = "sample_world StatusQueued" and wid = "''w''" and rs = "[RedisError, Messages [failing_entry]]"
        and acked = "[]" and w' = "fst (snd (worker_run ''w'' [RedisError, Messages [failing_entry]] (sample_world StatusQueued, [])))"]
      sample_inv [of StatusQueued] by (simp add: inv_world_def)
qed

end
