(* ===== verification/Http_Jobs.thy ===== *)
theory Http_Jobs
  imports Http_Core
begin

text \<open>
  The job endpoints: \<open>src/api/internal/http/job_handlers.go\<close>, the handler of
  \<open>src/api/internal/http/transcript_handlers.go\<close>, and \<open>src/api/internal/http/upload_handlers.go\<close>.
\<close>

section \<open>Responses and cursors\<close>

definition writeJobError :: "request \<Rightarrow> error \<Rightarrow> response" where
  "writeJobError r err =
    (if errors_Is err ErrNotFound then WriteError r 404 ''job_not_found'' ''job not found''
     else if errors_Is err ErrNotCancellable then WriteError r 409 ''job_not_cancellable'' ''job is not in a cancellable state''
     else if errors_Is err ErrNotRetryable then WriteError r 409 ''job_not_retryable'' ''job is not in a retryable state''
     else WriteError r 500 ''internal_error'' ''an unexpected error occurred'')"

definition toJobResponse :: "Job \<Rightarrow> JobResponse" where
  "toJobResponse j = \<lparr>jr_ID = job_ID j, jr_Status = job_Status j, jr_ObjectKey = job_ObjectKey j,
     jr_OriginalFilename = job_OriginalFilename j, jr_SizeBytes = job_SizeBytes j, jr_DurationSeconds = job_DurationSeconds j,
     jr_Model = job_Model j, jr_Attempts = job_Attempts j, jr_MaxAttempts = job_MaxAttempts j, jr_ErrorCode = job_ErrorCode j,
     jr_ErrorMessage = job_ErrorMessage j, jr_CreatedAt = job_CreatedAt j, jr_StartedAt = job_StartedAt j,
     jr_FinishedAt = job_FinishedAt j\<rparr>"

definition encodeCursor :: "http_lib \<Rightarrow> instant \<Rightarrow> string" where
  "encodeCursor H t = RawURL_EncodeToString (time_Format (hl_offset H t) t)"

definition decodeCursor :: "string \<Rightarrow> instant option" where
  "decodeCursor raw = (case RawURL_DecodeString raw of None \<Rightarrow> None | Some decoded \<Rightarrow> time_Parse decoded)"

text \<open>\<open>strconv.Atoi\<close>: an optional sign and digits, in the range of a 64-bit \<open>int\<close>.\<close>

definition Atoi :: "string \<Rightarrow> int option" where
  "Atoi s = (case (case s of c # t \<Rightarrow> if c = CHR ''+'' then map_option int (read_nat t) else read_int s | [] \<Rightarrow> None) of
     None \<Rightarrow> None | Some n \<Rightarrow> if in_int64 n then Some n else None)"

section \<open>The job handlers\<close>

record CreateJobRequest =
  cr_ObjectKey :: string
  cr_OriginalFilename :: string
  cr_SizeBytes :: int
  cr_Model :: string

definition CreateJobRequest_fields :: "CreateJobRequest field list" where
  "CreateJobRequest_fields = [str_field ''object_key'' (\<lambda>s r. r\<lparr>cr_ObjectKey := s\<rparr>),
     str_field ''original_filename'' (\<lambda>s r. r\<lparr>cr_OriginalFilename := s\<rparr>),
     int64_field ''size_bytes'' (\<lambda>n r. r\<lparr>cr_SizeBytes := n\<rparr>), str_field ''model'' (\<lambda>s r. r\<lparr>cr_Model := s\<rparr>)]"

definition JobHandler_Create :: "http_lib \<Rightarrow> world Service \<Rightarrow> handler" where
  "JobHandler_Create H svc r = with_user r (\<lambda>userID.
    case DecodeJSON CreateJobRequest_fields \<lparr>cr_ObjectKey = [], cr_OriginalFilename = [], cr_SizeBytes = 0, cr_Model = []\<rparr> r of
      None \<Rightarrow> ret (WriteError r 400 ''invalid_request'' ''malformed request body'')
    | Some req \<Rightarrow>
        if cr_ObjectKey req = [] \<or> cr_OriginalFilename req = []
        then ret (WriteError r 400 ''invalid_request'' ''object_key and original_filename are required'')
        else
          let model = (if cr_Model req = [] then ''small.en'' else cr_Model req);
              key = rq_Header r ''Idempotency-Key'';
              params = \<lparr>cp_UserID = userID, cp_IdempotencyKey = (if key \<noteq> [] then Some key else None),
                cp_ObjectKey = cr_ObjectKey req, cp_OriginalFilename = cr_OriginalFilename req,
                cp_SizeBytes = cr_SizeBytes req, cp_Model = model\<rparr>
          in respond (Create (al_new (hl_auth H)) svc params) (\<lambda>_. WriteError r 500 ''internal_error'' ''could not create job'')
               (\<lambda>j. ret (WriteJSON 201 (JobBody (toJobResponse j)))))"

definition JobHandler_Get :: "http_lib \<Rightarrow> world Service \<Rightarrow> handler" where
  "JobHandler_Get H svc r = with_user r (\<lambda>userID. with_param H r ''invalid job id'' (\<lambda>jobID.
    respond (Get svc userID jobID) (writeJobError r) (\<lambda>(j, events).
      ret (WriteJSON 200 (JobDetailBody \<lparr>jd_Job = toJobResponse j,
        jd_Events = map (\<lambda>e. \<lparr>er_EventType = ev_EventType e, er_Payload = ev_Payload e, er_CreatedAt = ev_CreatedAt e\<rparr>) events\<rparr>)))))"

definition list_limit :: "request \<Rightarrow> int" where
  "list_limit r = (let raw = rq_Query r ''limit'' in
     if raw \<noteq> [] then (case Atoi raw of Some parsed \<Rightarrow> wrap32 parsed | None \<Rightarrow> 20) else 20)"

definition JobHandler_List :: "http_lib \<Rightarrow> world Service \<Rightarrow> handler" where
  "JobHandler_List H svc r = with_user r (\<lambda>userID.
    let status = (let raw = rq_Query r ''status'' in if raw \<noteq> [] then Some raw else None);
        raw = rq_Query r ''cursor'';
        limit = list_limit r
    in if raw \<noteq> [] \<and> decodeCursor raw = None then ret (WriteError r 400 ''invalid_request'' ''invalid cursor'')
       else
         let cursor = (if raw \<noteq> [] then decodeCursor raw else None) in
         respond (List_jobs svc userID status cursor limit) (\<lambda>_. WriteError r 500 ''internal_error'' ''could not list jobs'') (\<lambda>jobs.
           ret (WriteJSON 200 (JobListBody \<lparr>jl_Jobs = map toJobResponse jobs,
             jl_NextCursor = (if wrap32 (int (length jobs)) = limit \<and> length jobs > 0
               then Some (encodeCursor H (job_CreatedAt (last jobs))) else None)\<rparr>))))"

definition JobHandler_Cancel :: "http_lib \<Rightarrow> world Service \<Rightarrow> handler" where
  "JobHandler_Cancel H svc r = with_user r (\<lambda>userID. with_param H r ''invalid job id'' (\<lambda>jobID.
    respond (Cancel svc userID jobID) (writeJobError r) (\<lambda>j. ret (WriteJSON 200 (JobBody (toJobResponse j))))))"

definition JobHandler_Retry :: "http_lib \<Rightarrow> world Service \<Rightarrow> handler" where
  "JobHandler_Retry H svc r = with_user r (\<lambda>userID. with_param H r ''invalid job id'' (\<lambda>jobID.
    respond (Retry svc userID jobID) (writeJobError r) (\<lambda>j. ret (WriteJSON 200 (JobBody (toJobResponse j))))))"

definition JobHandler_Delete :: "http_lib \<Rightarrow> world Service \<Rightarrow> handler" where
  "JobHandler_Delete H svc r = with_user r (\<lambda>userID. with_param H r ''invalid job id'' (\<lambda>jobID.
    respond (Delete svc userID jobID) (writeJobError r) (\<lambda>_. ret no_content)))"

section \<open>Transcripts and uploads\<close>

definition writeText :: "string \<Rightarrow> string \<Rightarrow> response" where
  "writeText contentType body = \<lparr>rs_Status = 200, rs_ContentType = contentType, rs_RequestID = [], rs_Body = TextBody body\<rparr>"

definition JobHandler_GetTranscript :: "http_lib \<Rightarrow> world Service \<Rightarrow> handler" where
  "JobHandler_GetTranscript H svc r = with_user r (\<lambda>userID. with_param H r ''invalid job id'' (\<lambda>jobID.
    respond (GetTranscript svc userID jobID) (writeJobError r) (\<lambda>(j, transcript, segments).
      let raw = rq_Query r ''format''; format = (if raw = [] then ''json'' else raw) in
      if format = ''json'' then
        respond (PresignGetURL H (job_ObjectKey j)) (\<lambda>_. WriteError r 500 ''internal_error'' ''could not create playback url'') (\<lambda>audioURL.
          ret (WriteJSON 200 (TranscriptBody ((toTranscriptResponse transcript segments)\<lparr>tp_AudioURL := audioURL\<rparr>))))
      else if format = ''txt'' then ret (writeText ''text/plain; charset=utf-8'' (tr_Text transcript))
      else if format = ''srt'' then ret (writeText ''application/x-subrip'' (toSRT segments))
      else if format = ''vtt'' then ret (writeText ''text/vtt; charset=utf-8'' (toVTT segments))
      else ret (WriteError r 400 ''invalid_request'' ''format must be one of json, txt, srt, vtt''))))"

record CreateUploadRequest =
  up_Filename :: string
  up_SizeBytes :: int
  up_ContentType :: string

definition CreateUploadRequest_fields :: "CreateUploadRequest field list" where
  "CreateUploadRequest_fields = [str_field ''filename'' (\<lambda>s r. r\<lparr>up_Filename := s\<rparr>),
     int64_field ''size_bytes'' (\<lambda>n r. r\<lparr>up_SizeBytes := n\<rparr>), str_field ''content_type'' (\<lambda>s r. r\<lparr>up_ContentType := s\<rparr>)]"

definition maxUploadSizeBytes :: int where
  "maxUploadSizeBytes = 200 * 1024 * 1024"

definition acceptedContentTypes :: "string list" where
  "acceptedContentTypes = [''audio/wav'', ''audio/mpeg'', ''audio/mp4'', ''audio/x-m4a'', ''audio/flac'', ''audio/ogg'']"

text \<open>\<open>filepath.Ext\<close>: from the last dot on, if no slash comes after it.\<close>

definition filepath_Ext :: "string \<Rightarrow> string" where
  "filepath_Ext path = (let t = takeWhile (\<lambda>c. c \<noteq> CHR ''.'' \<and> c \<noteq> CHR ''/'') (rev path); rest = drop (length t) (rev path) in
     case rest of c # _ \<Rightarrow> if c = CHR ''.'' then CHR ''.'' # rev t else [] | [] \<Rightarrow> [])"

definition CreateUpload :: "http_lib \<Rightarrow> handler" where
  "CreateUpload H r = with_user r (\<lambda>userID.
    case DecodeJSON CreateUploadRequest_fields \<lparr>up_Filename = [], up_SizeBytes = 0, up_ContentType = []\<rparr> r of
      None \<Rightarrow> ret (WriteError r 400 ''invalid_request'' ''malformed request body'')
    | Some req \<Rightarrow>
        if up_Filename req = [] then ret (WriteError r 400 ''invalid_request'' ''filename is required'')
        else if up_SizeBytes req \<le> 0 \<or> up_SizeBytes req > maxUploadSizeBytes
          then ret (WriteError r 400 ''file_too_large'' ''file must be between 1 byte and 200 MB'')
        else if up_ContentType req \<notin> set acceptedContentTypes
          then ret (WriteError r 415 ''unsupported_media_type'' ''unsupported audio content type'')
        else (\<lambda>w. let (i, w1) = al_new (hl_auth H) w;
                  objectKey = hl_uuid_String H userID @ ''/'' @ hl_uuid_String H i @ filepath_Ext (up_Filename req)
              in respond (PresignPutURL H objectKey) (\<lambda>_. WriteError r 500 ''internal_error'' ''could not create upload url'')
                   (\<lambda>uploadURL. ret (WriteJSON 200 (UploadBody \<lparr>ul_UploadURL = uploadURL, ul_ObjectKey = objectKey\<rparr>))) w1))"

section \<open>Cursors\<close>

text \<open>A cursor decodes to the time it was made from, to the nanosecond, in every time zone whose offset is a
  whole number of minutes below a day and for every local year from 0 to 9999.\<close>

lemma cursor_roundtrip:
  assumes "time_printable (hl_offset H t) t"
  shows "decodeCursor (encodeCursor H t) = Some t"
  using parse_format [OF assms] by (simp add: decodeCursor_def encodeCursor_def)

section \<open>Pagination\<close>

text \<open>A client that follows \<open>next_cursor\<close> until there is none; \<open>None\<close> if \<open>fuel\<close> pages were not enough or a page
  was not a list.\<close>

fun follow :: "nat \<Rightarrow> http_lib \<Rightarrow> world Service \<Rightarrow> request \<Rightarrow> world \<Rightarrow> JobResponse list option" where
  "follow 0 H svc r w = None"
| "follow (Suc fuel) H svc r w = (case JobHandler_List H svc r w of
     (Inr rs, w1) \<Rightarrow> (case rs_Body rs of
        JobListBody l \<Rightarrow> (case jl_NextCursor l of
           None \<Rightarrow> Some (jl_Jobs l)
         | Some c \<Rightarrow> map_option ((@) (jl_Jobs l)) (follow fuel H svc (r\<lparr>rq_Query := (rq_Query r)(''cursor'' := c)\<rparr>) w1))
      | _ \<Rightarrow> None)
   | _ \<Rightarrow> None)"

definition status_query :: "request \<Rightarrow> string option" where
  "status_query r = (if rq_Query r ''status'' \<noteq> [] then Some (rq_Query r ''status'') else None)"

text \<open>All jobs of the user with the status asked for, newest first: what the listing is meant to show.\<close>

definition all_jobs :: "database \<Rightarrow> uuid \<Rightarrow> string option \<Rightarrow> db_Job list" where
  "all_jobs d u st = sort_key (\<lambda>r. - job_CreatedAt r) (filter (list_filter u st None) (tbl_jobs d))"

lemma list_filter_cursor:
  "list_filter u st (Some c) r \<longleftrightarrow> list_filter u st None r \<and> job_CreatedAt r < c"
  by (auto simp: list_filter_def)

lemma page_of:
  "sort_key (\<lambda>r. - job_CreatedAt r) (filter (list_filter u st (Some c)) (tbl_jobs d)) = filter (\<lambda>r. job_CreatedAt r < c) (all_jobs d u st)"
proof -
  have "filter (list_filter u st (Some c)) (tbl_jobs d) = filter (\<lambda>r. job_CreatedAt r < c) (filter (list_filter u st None) (tbl_jobs d))"
    by (auto intro!: filter_cong simp: list_filter_cursor)
  then show ?thesis by (simp add: all_jobs_def filter_sort)
qed

text \<open>With different times the order is strict, and a cursor cuts the list exactly after its job.\<close>

lemma all_jobs_strict:
  assumes "distinct (map job_CreatedAt (all_jobs d u st))"
  shows "sorted_wrt (\<lambda>a b. job_CreatedAt b < job_CreatedAt a) (all_jobs d u st)"
proof -
  have "sorted (map (\<lambda>r. - job_CreatedAt r) (all_jobs d u st))" by (simp add: all_jobs_def)
  then have "sorted_wrt (\<lambda>a b. job_CreatedAt b \<le> job_CreatedAt a) (all_jobs d u st)" by (simp add: sorted_map)
  moreover have "sorted_wrt (\<lambda>a b. job_CreatedAt a \<noteq> job_CreatedAt b) (all_jobs d u st)"
    using assms by (simp add: distinct_conv_nth sorted_wrt_iff_nth_less)
  ultimately show ?thesis by (auto simp: sorted_wrt_iff_nth_less) (metis order_le_less)
qed

lemma cut_after:
  assumes "sorted_wrt (\<lambda>a b. job_CreatedAt b < job_CreatedAt a) (xs @ x # ys)"
  shows "filter (\<lambda>r. job_CreatedAt r < job_CreatedAt x) (xs @ x # ys) = ys"
  using assms by (auto simp: sorted_wrt_append filter_empty_conv intro: less_imp_not_less dest!: order.asym)

lemma List_jobs_answered:
  assumes "answered w"
  shows "List_jobs jobSvc u st cur n w =
    (Inr (map fromDBJob (take (nat (clamp_limit n))
       (sort_key (\<lambda>r. - job_CreatedAt r) (filter (list_filter u st cur) (tbl_jobs (w_db w)))))), after w (w_db w))"
  using clamp_limit_range [of n]
  by (simp add: List_jobs_def jobSvc_def NewService_def JobStore_def JobStore_ListJobs_def check_def pg_answered [OF assms]
      q_ListJobsByUser_def)

definition cursor_at :: "http_lib \<Rightarrow> db_Job list \<Rightarrow> string" where
  "cursor_at H pre = (if pre = [] then [] else encodeCursor H (job_CreatedAt (last pre)))"

lemma encodeCursor_not_Nil: "decodeCursor (encodeCursor H t) = Some t \<Longrightarrow> encodeCursor H t \<noteq> []"
proof
  assume d: "decodeCursor (encodeCursor H t) = Some t" and e: "encodeCursor H t = []"
  have "decodeCursor [] = None"
    by (simp add: decodeCursor_def RawURL_DecodeString_def base64_decode_def time_Parse_def get_digits_def)
  with d e show False by simp
qed

lemma JobHandler_List_page:
  assumes "rq_UserID r = Some u" and "\<not> (rq_Query r ''cursor'' \<noteq> [] \<and> decodeCursor (rq_Query r ''cursor'') = None)"
    and "List_jobs svc u (status_query r) (if rq_Query r ''cursor'' \<noteq> [] then decodeCursor (rq_Query r ''cursor'') else None) (list_limit r) w
      = (Inr jobs, w1)"
  shows "JobHandler_List H svc r w = (Inr (WriteJSON 200 (JobListBody \<lparr>jl_Jobs = map toJobResponse jobs,
    jl_NextCursor = (if wrap32 (int (length jobs)) = list_limit r \<and> length jobs > 0
      then Some (encodeCursor H (job_CreatedAt (last jobs))) else None)\<rparr>)), w1)"
  unfolding JobHandler_List_def with_user_def Let_def assms(1) option.case status_query_def [symmetric] if_not_P [OF assms(2)]
    respond_Inr [of "List_jobs _ _ _ _ _", OF assms(3)] ret_apply ..

text \<open>One page: the part of the list after \<open>pre\<close>, up to the limit, and a cursor if the page is full.\<close>

lemma one_page:
  assumes w: "answered w" and u: "rq_UserID r = Some u" and n: "list_limit r = int n" "1 \<le> n" "n \<le> 100"
    and dist: "distinct (map job_CreatedAt (all_jobs (w_db w) u (status_query r)))"
    and split: "all_jobs (w_db w) u (status_query r) = pre @ rest"
    and dec: "\<forall>j \<in> set pre. decodeCursor (encodeCursor H (job_CreatedAt j)) = Some (job_CreatedAt j)"
    and cur: "rq_Query r ''cursor'' = cursor_at H pre"
  shows "JobHandler_List H jobSvc r w = (Inr (WriteJSON 200 (JobListBody
    \<lparr>jl_Jobs = map (toJobResponse \<circ> fromDBJob) (take n rest),
     jl_NextCursor = (if n \<le> length rest then Some (cursor_at H (pre @ take n rest)) else None)\<rparr>)), after w (w_db w))"
proof -
  have rows: "sort_key (\<lambda>r. - job_CreatedAt r) (filter (list_filter u (status_query r)
      (if rq_Query r ''cursor'' \<noteq> [] then decodeCursor (rq_Query r ''cursor'') else None)) (tbl_jobs (w_db w))) = rest"
    and ok: "\<not> (rq_Query r ''cursor'' \<noteq> [] \<and> decodeCursor (rq_Query r ''cursor'') = None)"
  proof -
    show "sort_key (\<lambda>r. - job_CreatedAt r) (filter (list_filter u (status_query r)
      (if rq_Query r ''cursor'' \<noteq> [] then decodeCursor (rq_Query r ''cursor'') else None)) (tbl_jobs (w_db w))) = rest"
    proof (cases pre rule: rev_cases)
      case Nil
      then show ?thesis using split cur by (simp add: cursor_at_def all_jobs_def)
    next
      case (snoc xs x)
      then have d: "decodeCursor (encodeCursor H (job_CreatedAt x)) = Some (job_CreatedAt x)" using dec by simp
      have "sorted_wrt (\<lambda>a b. job_CreatedAt b < job_CreatedAt a) (xs @ x # rest)"
        using all_jobs_strict [OF dist] split snoc by simp
      from cut_after [OF this] show ?thesis
        using split snoc cur d encodeCursor_not_Nil [OF d] by (simp add: cursor_at_def page_of)
    qed
    show "\<not> (rq_Query r ''cursor'' \<noteq> [] \<and> decodeCursor (rq_Query r ''cursor'') = None)"
      using cur dec by (cases "pre = []") (auto simp: cursor_at_def)
  qed
  have len: "wrap32 (int (length (take n rest))) = int n \<and> 0 < length (take n rest) \<longleftrightarrow> n \<le> length rest"
    using n by (subst wrap32_id) (auto simp: in_int32_def)
  have last: "job_CreatedAt (last (map fromDBJob (take n rest))) = job_CreatedAt (last (pre @ take n rest))" if "n \<le> length rest"
  proof -
    have ne: "take n rest \<noteq> []" using that n(2) by auto
    have f: "job_CreatedAt (fromDBJob j) = job_CreatedAt j" for j by (simp add: fromDBJob_def)
    show ?thesis by (simp only: last_map [OF ne] last_appendR [OF ne] f)
  qed
  have cl: "nat (clamp_limit (int n)) = n" using n clamp_limit_id [of "int n"] by simp
  let ?cur = "if rq_Query r ''cursor'' \<noteq> [] then decodeCursor (rq_Query r ''cursor'') else None"
  have "List_jobs jobSvc u (status_query r) ?cur (list_limit r) w = (Inr (map fromDBJob (take n rest)), after w (w_db w))"
    unfolding List_jobs_answered [OF w] rows n(1) cl ..
  note page = JobHandler_List_page [OF u ok this]
  have nxt: "(if wrap32 (int (length (map fromDBJob (take n rest)))) = list_limit r \<and> length (map fromDBJob (take n rest)) > 0
      then Some (encodeCursor H (job_CreatedAt (last (map fromDBJob (take n rest))))) else None)
      = (if n \<le> length rest then Some (cursor_at H (pre @ take n rest)) else None)"
    using len last n by (auto simp: cursor_at_def)
  show ?thesis unfolding page nxt by simp
qed

lemma follow_all:
  assumes "fault_free w" and "rq_UserID r = Some u" and "list_limit r = int n" "1 \<le> n" "n \<le> 100"
    and "distinct (map job_CreatedAt (all_jobs (w_db w) u (status_query r)))"
    and "all_jobs (w_db w) u (status_query r) = pre @ rest"
    and "\<forall>j \<in> set (all_jobs (w_db w) u (status_query r)). decodeCursor (encodeCursor H (job_CreatedAt j)) = Some (job_CreatedAt j)"
    and "rq_Query r ''cursor'' = cursor_at H pre" and "length rest < fuel"
  shows "follow fuel H jobSvc r w = Some (map (toJobResponse \<circ> fromDBJob) rest)"
  using assms
proof (induction fuel arbitrary: r w pre rest)
  case (Suc fuel)
  note p = one_page [OF fault_free_answered [OF Suc.prems(1)] Suc.prems(2-7) _ Suc.prems(9)]
  have page: "JobHandler_List H jobSvc r w = (Inr (WriteJSON 200 (JobListBody
      \<lparr>jl_Jobs = map (toJobResponse \<circ> fromDBJob) (take n rest),
       jl_NextCursor = (if n \<le> length rest then Some (cursor_at H (pre @ take n rest)) else None)\<rparr>)), after w (w_db w))"
    by (rule p) (use Suc.prems(7,8) in auto)
  show ?case
  proof (cases "n \<le> length rest")
    case False
    then show ?thesis using page by (simp add: WriteJSON_def)
  next
    case True
    let ?r = "r\<lparr>rq_Query := (rq_Query r)(''cursor'' := cursor_at H (pre @ take n rest))\<rparr>"
    have same: "list_limit ?r = list_limit r" "status_query ?r = status_query r" "rq_UserID ?r = rq_UserID r"
      by (simp_all add: list_limit_def status_query_def)
    have "follow fuel H jobSvc ?r (after w (w_db w)) = Some (map (toJobResponse \<circ> fromDBJob) (drop n rest))"
    proof (rule Suc.IH)
      show "length (drop n rest) < fuel" using Suc.prems(4,10) True by simp
    qed (use Suc.prems in \<open>simp_all add: same\<close>)
    moreover have "follow (Suc fuel) H jobSvc r w =
        map_option ((@) (map (toJobResponse \<circ> fromDBJob) (take n rest))) (follow fuel H jobSvc ?r (after w (w_db w)))"
      using page True by (simp add: WriteJSON_def)
    ultimately show ?thesis by (simp add: map_append [symmetric] del: map_append)
  qed
qed simp

text \<open>C33. Following the cursors shows everything once: with a page size from 1 to 100, when no call fails and
  the user's jobs were created at different times, the pages a client gets by following \<open>next_cursor\<close> from the
  first one are, put together, exactly the user's jobs with the status asked for, newest first, none
  missing and none twice, and the client stops after at most one page more than there are jobs.\<close>

theorem pagination_complete:
  assumes "fault_free w" and "rq_UserID r = Some u" and "list_limit r = int n" and "1 \<le> n" and "n \<le> 100"
    and "rq_Query r ''cursor'' = []" and "distinct (map job_CreatedAt (all_jobs (w_db w) u (status_query r)))"
    and "\<forall>j \<in> set (all_jobs (w_db w) u (status_query r)). time_printable (hl_offset H (job_CreatedAt j)) (job_CreatedAt j)"
  shows "follow (Suc (length (all_jobs (w_db w) u (status_query r)))) H jobSvc r w =
    Some (map (toJobResponse \<circ> fromDBJob) (all_jobs (w_db w) u (status_query r)))"
proof (rule follow_all [OF assms(1-5,7), where pre = "[]"])
  show "\<forall>j \<in> set (all_jobs (w_db w) u (status_query r)). decodeCursor (encodeCursor H (job_CreatedAt j)) = Some (job_CreatedAt j)"
    using assms(8) parse_format by (simp add: decodeCursor_def encodeCursor_def)
qed (use assms(6) in \<open>simp_all add: cursor_at_def\<close>)

text \<open>C34. A page size outside 1 to 100 is served as 20 without the client being told, and such a page never has a
  cursor: a client that follows cursors then sees the newest 20 jobs and stops, however many there are.\<close>

theorem large_limit_no_cursor:
  assumes "fault_free w" and "rq_UserID r = Some u" and "list_limit r \<le> 0 \<or> 100 < list_limit r" and "rq_Query r ''cursor'' = []"
  shows "follow (Suc fuel) H jobSvc r w =
    Some (map (toJobResponse \<circ> fromDBJob) (take 20 (all_jobs (w_db w) u (status_query r))))"
proof -
  let ?rows = "take 20 (all_jobs (w_db w) u (status_query r))"
  have c: "clamp_limit (list_limit r) = 20" using assms(3) by (auto simp: clamp_limit_def)
  have l: "length ?rows \<le> 20" by simp
  then have "\<not> (wrap32 (int (length ?rows)) = list_limit r \<and> length ?rows > 0)"
    using assms(3) l by (subst wrap32_id) (simp add: in_int32_def, linarith)
  moreover have "List_jobs jobSvc u (status_query r) (if rq_Query r ''cursor'' \<noteq> [] then decodeCursor (rq_Query r ''cursor'') else None) (list_limit r) w
      = (Inr (map fromDBJob ?rows), after w (w_db w))"
    unfolding List_jobs_answered [OF fault_free_answered [OF assms(1)]] c using assms(4) by (simp add: all_jobs_def)
  ultimately show ?thesis using JobHandler_List_page [OF assms(2)] assms(4) by (auto simp: WriteJSON_def)
qed

section \<open>Uploads\<close>

text \<open>C35. An upload URL is only ever signed for an authenticated user, a non-empty file name, a declared size of
  1 byte to 200 MB and an accepted audio type, and only for an object key of the shape
  \<open>user id/new id.extension\<close> with the extension of the file name; every other request is answered by an error
  and signs nothing.\<close>

theorem upload_bounds:
  assumes "CreateUpload H r w = (Inr rs, w')" and "rs_Status rs = 200"
  shows "\<exists>u req i w1. rq_UserID r = Some u
    \<and> DecodeJSON CreateUploadRequest_fields \<lparr>up_Filename = [], up_SizeBytes = 0, up_ContentType = []\<rparr> r = Some req
    \<and> up_Filename req \<noteq> [] \<and> 1 \<le> up_SizeBytes req \<and> up_SizeBytes req \<le> 209715200 \<and> up_ContentType req \<in> set acceptedContentTypes
    \<and> al_new (hl_auth H) w = (i, w1)
    \<and> (let key = hl_uuid_String H u @ ''/'' @ hl_uuid_String H i @ filepath_Ext (up_Filename req) in
       \<exists>url. hl_PresignedPutObject H (hl_bucket H) key presignTTL w1 = (Inr url, w')
         \<and> rs_Body rs = UploadBody \<lparr>ul_UploadURL = url, ul_ObjectKey = key\<rparr>)"
proof -
  obtain u where u: "rq_UserID r = Some u"
    using assms by (cases "rq_UserID r") (auto simp: CreateUpload_def with_user_def WriteError_def WriteJSON_def)
  let ?dec = "DecodeJSON CreateUploadRequest_fields \<lparr>up_Filename = [], up_SizeBytes = 0, up_ContentType = []\<rparr> r"
  obtain req where req: "?dec = Some req"
    using assms u by (cases ?dec) (auto simp: CreateUpload_def with_user_def WriteError_def WriteJSON_def)
  obtain i w1 where i: "al_new (hl_auth H) w = (i, w1)" by (cases "al_new (hl_auth H) w")
  let ?key = "hl_uuid_String H u @ ''/'' @ hl_uuid_String H i @ filepath_Ext (up_Filename req)"
  have ok: "up_Filename req \<noteq> []" "1 \<le> up_SizeBytes req" "up_SizeBytes req \<le> 209715200" "up_ContentType req \<in> set acceptedContentTypes"
    using assms u req by (auto simp: CreateUpload_def with_user_def WriteError_def WriteJSON_def maxUploadSizeBytes_def split: if_splits)
  then have r: "respond (PresignPutURL H ?key) (\<lambda>_. WriteError r 500 ''internal_error'' ''could not create upload url'')
      (\<lambda>uploadURL. ret (WriteJSON 200 (UploadBody \<lparr>ul_UploadURL = uploadURL, ul_ObjectKey = ?key\<rparr>))) w1 = (Inr rs, w')"
    using assms(1) u req i by (simp add: CreateUpload_def with_user_def maxUploadSizeBytes_def Let_def)
  obtain rp w2 where p: "hl_PresignedPutObject H (hl_bucket H) ?key presignTTL w1 = (rp, w2)"
    by (cases "hl_PresignedPutObject H (hl_bucket H) ?key presignTTL w1")
  have "\<exists>url. rp = Inr url \<and> w2 = w' \<and> rs_Body rs = UploadBody \<lparr>ul_UploadURL = url, ul_ObjectKey = ?key\<rparr>"
    using r p assms(2) by (cases rp) (auto simp: respond_def PresignPutURL_def check_def WriteError_def WriteJSON_def)
  with u req i ok p show ?thesis by (auto simp: Let_def)
qed

section \<open>Status codes\<close>

lemma writeJobError_status:
  "rs_Status (writeJobError r ErrNotFound) = 404" "rs_Status (writeJobError r ErrNotCancellable) = 409"
  "rs_Status (writeJobError r ErrNotRetryable) = 409" "opaque_err e \<Longrightarrow> rs_Status (writeJobError r e) = 500"
  by (simp_all add: writeJobError_def WriteError_def WriteJSON_def opaque_err_def)

text \<open>A cancellation or a retry that lost a race (\<open>Cancel_lost_race\<close>, \<open>Retry_lost_race\<close>) is answered 404.\<close>

lemma lost_race_status: "rs_Status (writeJobError r (Errorf m ErrNotFound)) = 404"
  by (simp add: writeJobError_def WriteError_def WriteJSON_def)

text \<open>The service's errors are values, never panics.\<close>

lemma service_no_panic: "fst (Cancel jobSvc u i w) \<noteq> Inl (Panic p)" "fst (Retry jobSvc u i w) \<noteq> Inl (Panic p)" "fst (Delete jobSvc u i w) \<noteq> Inl (Panic p)"
  by (auto simp: Cancel_def Retry_def Delete_def recordEvent_None check_def JobStore_def JobStore_GetJob_def mapNotFound_def
      split: prod.splits sum.splits)

lemma respond_service:
  assumes "\<And>p. fst (m w) \<noteq> Inl (Panic p)"
  shows "respond m f (\<lambda>x. ret (g x)) w = (case m w of (Inr x, w') \<Rightarrow> (Inr (g x), w') | (Inl e, w') \<Rightarrow> (Inr (f e), w'))"
proof (cases "m w")
  case (Pair r w')
  then show ?thesis using assms by (cases r) (auto simp: respond_def split: error.splits)
qed

text \<open>What the answer of a handler means whose operation is \<open>done\<close>, requires \<open>can\<close> of the job, and runs undisturbed when \<open>calm\<close>.\<close>

definition status_means ::
  "(error + response) \<times> world \<Rightarrow> (jobs_abs \<Rightarrow> jobs_abs \<Rightarrow> bool) \<Rightarrow> (Job \<Rightarrow> bool) \<Rightarrow> bool \<Rightarrow> uuid \<Rightarrow> uuid \<Rightarrow> world \<Rightarrow> bool" where
  "status_means answer done can calm i u w \<longleftrightarrow> (case answer of
     (Inr rs, w') \<Rightarrow>
       rs_Status rs \<in> {200, 204} \<and> done (abs_world w) (abs_world w') \<and> (\<exists>c. owned i u (abs_world w) c \<and> can c)
     \<or> rs_Status rs = 404 \<and> abs_world w' = abs_world w \<and> \<not> (\<exists>c. owned i u (abs_world w) c)
     \<or> rs_Status rs = 409 \<and> abs_world w' = abs_world w \<and> (\<exists>c. owned i u (abs_world w) c \<and> \<not> can c)
     \<or> rs_Status rs = 500 \<and> \<not> calm
   | (Inl _, _) \<Rightarrow> False)"

lemma with_param_eq: "hl_uuid_Parse H (rq_Param r ''id'') = Some i \<Longrightarrow> with_param H r msg k = k i"
  by (simp add: with_param_def parseUUIDParam_def)

text \<open>C32. The status codes of the job endpoints mean what they say, in every world, and there is always an answer. 200 and 204: the
  caller has the job, its status allows the operation, and the operation was done. 404: the caller has no such job. 409: the job
  is the caller's and its status does not allow the operation. In the last two cases nothing changed. The
  only other answer is 500, and it is given only when a call of the operation was lost or an identifier drawn for one of its events was in use.\<close>

theorem job_endpoint_status:
  assumes "inv_world w" and "rq_UserID r = Some u" and "hl_uuid_Parse H (rq_Param r ''id'') = Some i"
  shows "status_means (JobHandler_Cancel H jobSvc r w)
      (\<lambda>a a'. \<exists>j b. eff_cancel i u j a b \<and> a' = log_event i EventCancelled b)
      (\<lambda>c. job_Status c \<in> {StatusQueued, StatusProcessing}) (cancel_calm w) i u w
    \<and> status_means (JobHandler_Retry H jobSvc r w)
      (\<lambda>a a'. \<exists>j b. eff_retry i u j a b \<and> a' = log_event i EventQueued (send_msg i (log_event i EventRetrying b)))
      (\<lambda>c. job_Status c = StatusFailed) (retry_calm w) i u w
    \<and> status_means (JobHandler_Delete H jobSvc r w) (eff_delete i u) (\<lambda>_. True) (delete_calm w) i u w"
proof (intro conjI)
  note handler = with_user_def assms(2) with_param_eq [OF assms(3)] respond_service service_no_panic status_means_def
    error_means_def writeJobError_status WriteJSON_def no_content_def
  show "status_means (JobHandler_Cancel H jobSvc r w) (\<lambda>a a'. \<exists>j b. eff_cancel i u j a b \<and> a' = log_event i EventCancelled b)
      (\<lambda>c. job_Status c \<in> {StatusQueued, StatusProcessing}) (cancel_calm w) i u w"
    using arun_case [OF pgjobs.Cancel_run [of "abs_world w" u i, folded jobSvc_def] assms(1)] Cancel_error [OF assms(1), of u i]
    by (auto simp: JobHandler_Cancel_def handler eff_cancel_def split: prod.splits sum.splits)
  show "status_means (JobHandler_Retry H jobSvc r w)
      (\<lambda>a a'. \<exists>j b. eff_retry i u j a b \<and> a' = log_event i EventQueued (send_msg i (log_event i EventRetrying b)))
      (\<lambda>c. job_Status c = StatusFailed) (retry_calm w) i u w"
    using arun_case [OF pgjobs.Retry_run [of "abs_world w" u i, folded jobSvc_def] assms(1)] Retry_error [OF assms(1), of u i]
    by (auto simp: JobHandler_Retry_def handler eff_retry_def split: prod.splits sum.splits)
  show "status_means (JobHandler_Delete H jobSvc r w) (eff_delete i u) (\<lambda>_. True) (delete_calm w) i u w"
    using arun_case [OF pgjobs.Delete_run [of "abs_world w" u i, folded jobSvc_def] assms(1)] Delete_error [OF assms(1), of u i]
    by (auto simp: JobHandler_Delete_def handler eff_delete_def split: prod.splits sum.splits)
qed

section \<open>Witnesses\<close>

definition toy_uuid_String :: "uuid \<Rightarrow> string" where
  "toy_uuid_String u = digits (unat u)"

definition sample_http :: http_lib where
  "sample_http = \<lparr>hl_uuid_Parse = (\<lambda>s. map_option of_nat (read_nat s)), hl_uuid_String = toy_uuid_String, hl_offset = (\<lambda>_. 3600),
     hl_PresignedPutObject = (\<lambda>b k t. ret (''put:'' @ k)), hl_PresignedGetObject = (\<lambda>b k t. ret (''get:'' @ k)),
     hl_bucket = ''audio'', hl_auth = toy_lib\<rparr>"

definition sample_request :: request where
  "sample_request = \<lparr>rq_Method = ''GET'', rq_Path = ''/api/v1/jobs'', rq_Header = (\<lambda>_. []), rq_Query = (\<lambda>_. []),
     rq_Param = (\<lambda>_. ''7''), rq_Body = None, rq_UserID = Some 1, rq_RequestID = ''x''\<rparr>"

lemma read_nat_7: "read_nat ''7'' = Some 7"
  by code_simp

theorem job_endpoint_status_witness:
  "case JobHandler_Cancel sample_http jobSvc sample_request (sample_world StatusSucceeded) of
     (Inr rs, w') \<Rightarrow> rs_Status rs = 409 | (Inl e, w') \<Rightarrow> False"
proof -
  have p: "hl_uuid_Parse sample_http (rq_Param sample_request ''id'') = Some 7"
    using read_nat_7 by (simp add: sample_http_def sample_request_def)
  have i: "inv_world (sample_world StatusSucceeded)" by (rule sample_inv) simp
  obtain w1 where c: "Cancel jobSvc 1 7 (sample_world StatusSucceeded) = (Inl ErrNotCancellable, w1)"
    by (simp add: Cancel_def service_eval statement_eval sample_defs CanCancel_def)
  have u: "rq_UserID sample_request = Some 1" by (simp add: sample_request_def)
  have h: "JobHandler_Cancel sample_http jobSvc sample_request (sample_world StatusSucceeded) =
      (Inr (writeJobError sample_request ErrNotCancellable), w1)"
    using c u by (simp add: JobHandler_Cancel_def with_user_def with_param_eq [OF p] respond_def)
  have "status_means (JobHandler_Cancel sample_http jobSvc sample_request (sample_world StatusSucceeded))
      (\<lambda>a a'. \<exists>j b. eff_cancel 7 1 j a b \<and> a' = log_event 7 EventCancelled b)
      (\<lambda>c. job_Status c \<in> {StatusQueued, StatusProcessing}) (cancel_calm (sample_world StatusSucceeded)) 7 1 (sample_world StatusSucceeded)"
    using job_endpoint_status [OF i u p] by blast
  then show ?thesis using h by (auto simp: status_means_def writeJobError_status)
qed

text \<open>Two jobs, one page each.\<close>

definition page_world :: world where
  "page_world = (sample_world StatusQueued)\<lparr>w_db := (sample_db StatusQueued)\<lparr>tbl_jobs :=
     [sample_job StatusQueued, (sample_job StatusQueued)\<lparr>job_ID := 8, job_IdempotencyKey := None, job_CreatedAt := 6\<rparr>]\<rparr>\<rparr>"

definition page_request :: "string \<Rightarrow> request" where
  "page_request n = sample_request\<lparr>rq_Query := (\<lambda>_. [])(''limit'' := n)\<rparr>"

lemma Atoi_samples: "Atoi ''1'' = Some 1" "Atoi ''200'' = Some 200"
  by code_simp+

lemma page_request_simps:
  "rq_UserID (page_request n) = Some 1" "rq_Query (page_request n) ''cursor'' = []" "status_query (page_request n) = None"
  "list_limit (page_request ''1'') = 1" "list_limit (page_request ''200'') = 200"
  using Atoi_samples by (simp_all add: page_request_def sample_request_def status_query_def list_limit_def in_int32_def)

theorem pagination_complete_witness:
  "map_option (map jr_ID) (follow 3 sample_http jobSvc (page_request ''1'') page_world) = Some [8, 7]"
proof -
  have a: "all_jobs (w_db page_world) 1 None = [(sample_job StatusQueued)\<lparr>job_ID := 8, job_IdempotencyKey := None, job_CreatedAt := 6\<rparr>, sample_job StatusQueued]"
    by (simp add: all_jobs_def page_world_def list_filter_def sample_job_def)
  have "fault_free page_world" by (simp add: page_world_def fault_free_def sample_world_def sample_env_def)
  then have "follow (Suc (length (all_jobs (w_db page_world) 1 (status_query (page_request ''1''))))) sample_http jobSvc (page_request ''1'') page_world
      = Some (map (toJobResponse \<circ> fromDBJob) (all_jobs (w_db page_world) 1 (status_query (page_request ''1''))))"
    by (rule pagination_complete [where n = 1])
      (simp_all add: page_request_simps a, simp_all add: sample_job_def sample_http_def time_printable_def epoch_day_def)
  then show ?thesis by (simp add: page_request_simps a numeral_eq_Suc toJobResponse_def fromDBJob_def sample_job_def)
qed

text \<open>Twenty-five jobs and a page size of 200.\<close>

definition many_world :: world where
  "many_world = (sample_world StatusQueued)\<lparr>w_db := (sample_db StatusQueued)\<lparr>tbl_jobs :=
     map (\<lambda>i. (sample_job StatusQueued)\<lparr>job_ID := of_nat i, job_IdempotencyKey := None, job_CreatedAt := int i\<rparr>) [0 ..< 25]\<rparr>\<rparr>"

theorem large_limit_no_cursor_witness:
  "length (all_jobs (w_db many_world) 1 None) = 25
   \<and> map_option length (follow 10 sample_http jobSvc (page_request ''200'') many_world) = Some 20"
proof -
  have a: "length (all_jobs (w_db many_world) 1 None) = 25"
    by (simp add: all_jobs_def many_world_def list_filter_def sample_job_def filter_map comp_def)
  have "fault_free many_world" by (simp add: many_world_def fault_free_def sample_world_def sample_env_def)
  from large_limit_no_cursor [OF this, where r = "page_request ''200''" and u = 1 and fuel = 9 and H = sample_http]
  have "follow 10 sample_http jobSvc (page_request ''200'') many_world
      = Some (map (toJobResponse \<circ> fromDBJob) (take 20 (all_jobs (w_db many_world) 1 None)))"
    by (simp add: page_request_simps)
  then show ?thesis using a by simp
qed

definition upload_request :: request where
  "upload_request = sample_request\<lparr>rq_Body := Some (JObj [(''filename'', JStr ''a.wav''), (''size_bytes'', JNum ''4096''),
     (''content_type'', JStr ''audio/wav'')])\<rparr>"

theorem upload_bounds_witness:
  "case CreateUpload sample_http upload_request (sample_world StatusQueued) of
     (Inr rs, w') \<Rightarrow> rs_Status rs = 200 \<and> (\<exists>k. rs_Body rs = UploadBody \<lparr>ul_UploadURL = ''put:'' @ k, ul_ObjectKey = k\<rparr>) | (Inl e, w') \<Rightarrow> False"
proof -
  have n: "read_int ''4096'' = Some 4096" by code_simp
  obtain rs w' where c: "CreateUpload sample_http upload_request (sample_world StatusQueued) = (Inr rs, w')" "rs_Status rs = 200"
    by (simp add: CreateUpload_def with_user_def upload_request_def sample_request_def DecodeJSON_def CreateUploadRequest_fields_def
        field_for_def str_field_def int64_field_def n in_int64_def maxUploadSizeBytes_def acceptedContentTypes_def Let_def
        sample_http_def go_lib_def uuid_New_def respond_def PresignPutURL_def check_def)
  from upload_bounds [OF c] c show ?thesis by (auto simp: Let_def sample_http_def)
qed

end
