(* ===== verification/Delivery.thy ===== *)
theory Delivery
  imports Error_Codes Http_Jobs
begin

text \<open>
  From the upload to the download: when no call fails, a message for a queued job ends with the job succeeded, and its owner
  downloads what the model produced. The parts that meet here are the worker's pipeline and statements, the tables, the job
  store, the service, the endpoint for transcripts and the SubRip format.
\<close>

section \<open>A worker at work\<close>

fun next_ids :: "nat \<Rightarrow> world \<Rightarrow> uuid list" where
  "next_ids 0 w = []"
| "next_ids (Suc k) w = uuid_at (w_env w) (w_uuids w) # next_ids k (w\<lparr>w_uuids := Suc (w_uuids w)\<rparr>)"

definition used_ids :: "database \<Rightarrow> uuid set" where
  "used_ids d = ev_ID ` set (tbl_job_events d) \<union> tr_ID ` set (tbl_transcripts d) \<union> seg_ID ` set (tbl_segments d)"

definition unused_ids :: "nat \<Rightarrow> world \<Rightarrow> bool" where
  "unused_ids k w \<longleftrightarrow> distinct (next_ids k w) \<and> set (next_ids k w) \<inter> used_ids (w_db w) = {}"

definition at_work :: "uuid \<Rightarrow> uuid \<Rightarrow> Status set \<Rightarrow> nat \<Rightarrow> Transcript list \<Rightarrow> Segment list \<Rightarrow> world \<Rightarrow> bool" where
  "at_work jid u S k ts ss w \<longleftrightarrow> fault_free w \<and> unused_ids k w \<and> tbl_transcripts (w_db w) = ts \<and> tbl_segments (w_db w) = ss
     \<and> (\<exists>r. row_of (w_db w) jid = Some r \<and> job_Status r \<in> S \<and> job_UserID r = u \<and> job_DeletedAt r = None)"

lemma next_ids_cong: "w_env w' = w_env w \<Longrightarrow> w_uuids w' = w_uuids w \<Longrightarrow> next_ids k w' = next_ids k w"
  by (induction k arbitrary: w w') auto

lemma unused_Suc:
  assumes "unused_ids (Suc k) w"
  shows "uuid_at (w_env w) (w_uuids w) \<notin> used_ids (w_db w)"
    and "w_env w' = w_env w \<Longrightarrow> w_uuids w' = Suc (w_uuids w) \<Longrightarrow> used_ids (w_db w') \<subseteq> insert (uuid_at (w_env w) (w_uuids w)) (used_ids (w_db w))
      \<Longrightarrow> unused_ids k w'"
proof -
  let ?i = "uuid_at (w_env w) (w_uuids w)" and ?w1 = "w\<lparr>w_uuids := Suc (w_uuids w)\<rparr>"
  have ids: "?i \<notin> used_ids (w_db w)" "?i \<notin> set (next_ids k ?w1)" "distinct (next_ids k ?w1)" "set (next_ids k ?w1) \<inter> used_ids (w_db w) = {}"
    using assms by (auto simp: unused_ids_def)
  show "?i \<notin> used_ids (w_db w)" by (rule ids)
  show "unused_ids k w'" if "w_env w' = w_env w" "w_uuids w' = Suc (w_uuids w)" "used_ids (w_db w') \<subseteq> insert ?i (used_ids (w_db w))"
  proof -
    have "next_ids k w' = next_ids k ?w1" by (rule next_ids_cong) (use that in simp_all)
    then show ?thesis using ids that(3) unfolding unused_ids_def by auto
  qed
qed

lemma unused_same:
  "unused_ids k w \<Longrightarrow> w_env w' = w_env w \<Longrightarrow> w_uuids w' = w_uuids w \<Longrightarrow> used_ids (w_db w') = used_ids (w_db w) \<Longrightarrow> unused_ids k w'"
  by (simp add: unused_ids_def next_ids_cong [of w' w])

lemma at_work_event:
  assumes "at_work jid u S (Suc k) ts ss w" and "ty \<in> set all_event_types"
  shows "\<exists>w'. insert_event jid ty kvs w = (Inr (), w') \<and> at_work jid u S k ts ss w'"
proof -
  let ?i = "uuid_at (w_env w) (w_uuids w)" and ?w1 = "w\<lparr>w_uuids := Suc (w_uuids w)\<rparr>"
  let ?stmt = "q_CreateJobEvent ?i jid ty (json_dumps kvs)"
  have ff: "fault_free w" and ids: "unused_ids (Suc k) w" using assms(1) by (simp_all add: at_work_def)
  obtain r where r: "row_of (w_db w) jid = Some r" using assms(1) by (auto simp: at_work_def)
  have an: "answered ?w1" using ff by (simp add: answered_def fault_free_def)
  have job: "\<exists>r \<in> set (tbl_jobs (w_db w)). job_ID r = jid" using row_of_mem [OF r] row_of_ID [OF r] by blast
  define d where "d = snd (?stmt (time_of ?w1) (w_db w))"
  have new: "\<not> (\<exists>e \<in> set (tbl_job_events (w_db w)). ev_ID e = ?i)" using unused_Suc(1) [OF ids] by (force simp: used_ids_def image_iff)
  have x: "\<exists>e. fst (?stmt (time_of ?w1) (w_db w)) = Inr e"
    using new job assms(2) by (simp add: q_CreateJobEvent_def Let_def)
  have d: "row_of d = row_of (w_db w)" "tbl_transcripts d = tbl_transcripts (w_db w)" "tbl_segments d = tbl_segments (w_db w)"
    "used_ids d \<subseteq> insert ?i (used_ids (w_db w))"
    unfolding d_def rows_same(1) by (auto simp: q_CreateJobEvent_def Let_def used_ids_def)
  have "insert_event jid ty kvs w = (Inr (), after ?w1 d)"
    using x by (auto simp: insert_event_def uuid_New_def check_def pg_answered [OF an] d_def)
  moreover have "unused_ids k (after ?w1 d)" by (rule unused_Suc(2) [OF ids]) (use d(4) in simp_all)
  moreover have "fault_free (after ?w1 d)" using ff by (simp add: fault_free_def)
  ultimately show ?thesis using assms(1) d(1-3) by (auto simp: at_work_def)
qed

text \<open>A statement that is answered and touches the jobs only.\<close>

lemma at_work_stmt:
  assumes "at_work jid u S k ts ss w"
    and "tbl_transcripts (snd (stmt (time_of w) (w_db w))) = tbl_transcripts (w_db w)"
    and "tbl_segments (snd (stmt (time_of w) (w_db w))) = tbl_segments (w_db w)"
    and "tbl_job_events (snd (stmt (time_of w) (w_db w))) = tbl_job_events (w_db w)"
    and "\<And>r. row_of (w_db w) jid = Some r \<Longrightarrow> job_Status r \<in> S \<Longrightarrow> job_UserID r = u \<Longrightarrow> job_DeletedAt r = None \<Longrightarrow>
      \<exists>r'. row_of (snd (stmt (time_of w) (w_db w))) jid = Some r' \<and> job_Status r' \<in> S' \<and> job_UserID r' = u \<and> job_DeletedAt r' = None"
  shows "\<exists>w'. pg stmt w = (fst (stmt (time_of w) (w_db w)), w') \<and> at_work jid u S' k ts ss w'"
proof -
  have ff: "fault_free w" and ids: "unused_ids k w" using assms(1) by (simp_all add: at_work_def)
  let ?w' = "after w (snd (stmt (time_of w) (w_db w)))"
  have "unused_ids k ?w'" by (rule unused_same [OF ids]) (use assms(2-4) in \<open>simp_all add: used_ids_def\<close>)
  moreover have "pg stmt w = (fst (stmt (time_of w) (w_db w)), ?w')" using ff by (simp add: pg_answered)
  ultimately show ?thesis using assms ff by (auto simp: at_work_def)
qed

lemma jobs_only:
  "tbl_transcripts (snd (update_jobs_returning p f d)) = tbl_transcripts d" "tbl_segments (snd (update_jobs_returning p f d)) = tbl_segments d"
  "tbl_job_events (snd (update_jobs_returning p f d)) = tbl_job_events d"
  by (simp_all add: update_jobs_returning_def)

lemma at_work_claim:
  assumes "at_work jid u {StatusQueued, StatusRetrying} (Suc k) ts ss w" and "schema_ok (w_db w)" and "row_of (w_db w) jid = Some job"
  shows "\<exists>c w'. claim_next jid wid w = (Inr (Some c), w') \<and> cl_id c = jid \<and> cl_object_key c = job_ObjectKey job \<and> at_work jid u {StatusProcessing} k ts ss w'"
proof -
  let ?S = "{StatusQueued, StatusRetrying}"
  obtain r where r: "row_of (w_db w) jid = Some r" "job_Status r \<in> ?S" "job_UserID r = u" "job_DeletedAt r = None"
    using assms(1) by (auto simp: at_work_def)
  have rows: "\<exists>r. fst (sql_claim jid wid now (w_db w)) = Inr r \<and> job_ID r = jid \<and> job_ObjectKey r = job_ObjectKey job" for now
  proof -
    let ?rs = "filter (\<lambda>r. job_ID r = jid \<and> job_Status r \<in> ?S \<and> job_DeletedAt r = None) (tbl_jobs (w_db w))"
    have "?rs \<noteq> []" using row_of_mem [OF r(1)] row_of_ID [OF r(1)] r(2,4) by (auto simp: filter_empty_conv)
    then have "\<exists>x. fst (sql_claim jid wid now (w_db w)) = Inr x"
      by (cases ?rs) (simp_all add: sql_claim_def update_jobs_returning_def scanJob_def)
    then obtain x d where x: "sql_claim jid wid now (w_db w) = (Inr x, d)" by (metis prod.collapse)
    obtain r0 where "row_of (w_db w) jid = Some r0" "job_ID r0 = jid" "x = set_claimed wid now r0" using claimed_row [OF assms(2) x] by blast
    then show ?thesis using x assms(3) by (simp add: set_claimed_def)
  qed
  have "\<exists>w'. pg (sql_claim jid wid) w = (fst (sql_claim jid wid (time_of w) (w_db w)), w') \<and> at_work jid u {StatusProcessing} (Suc k) ts ss w'"
  proof (rule at_work_stmt [OF assms(1)])
    fix r assume "row_of (w_db w) jid = Some r" "job_Status r \<in> ?S" "job_UserID r = u" "job_DeletedAt r = None"
    then show "\<exists>r'. row_of (snd (sql_claim jid wid (time_of w) (w_db w))) jid = Some r' \<and> job_Status r' \<in> {StatusProcessing}
        \<and> job_UserID r' = u \<and> job_DeletedAt r' = None"
      using row_of_ID by (auto simp: rows_guarded set_claimed_def)
  qed (simp_all add: sql_claim_def jobs_only)
  then obtain row w1 where 1: "pg (sql_claim jid wid) w = (Inr row, w1)" "job_ID row = jid" "job_ObjectKey row = job_ObjectKey job" "at_work jid u {StatusProcessing} (Suc k) ts ss w1"
    using rows [of "time_of w"] by auto
  obtain w2 where "insert_event jid ''leased'' [(''worker_id'', wid)] w1 = (Inr (), w2)" "at_work jid u {StatusProcessing} k ts ss w2"
    using at_work_event [OF 1(4), of "''leased''"] by (auto simp: all_event_types_def EventLeased_def)
  then show ?thesis using 1 by (auto simp: claim_next_def)
qed

lemma at_work_renewals:
  assumes "at_work jid u {StatusProcessing} k ts ss w"
  shows "\<exists>w'. renewals n jid m w = m w' \<and> at_work jid u {StatusProcessing} k ts ss w'"
  using assms
proof (induction n arbitrary: w)
  case (Suc n)
  have "\<exists>w'. pg (sql_renew_lease jid) w = (fst (sql_renew_lease jid (time_of w) (w_db w)), w') \<and> at_work jid u {StatusProcessing} k ts ss w'"
  proof (rule at_work_stmt [OF Suc.prems])
    fix r assume "row_of (w_db w) jid = Some r" "job_Status r \<in> {StatusProcessing}" "job_UserID r = u" "job_DeletedAt r = None"
    then show "\<exists>r'. row_of (snd (sql_renew_lease jid (time_of w) (w_db w))) jid = Some r' \<and> job_Status r' \<in> {StatusProcessing}
        \<and> job_UserID r' = u \<and> job_DeletedAt r' = None"
      using row_of_ID by (auto simp: rows_guarded)
  qed (simp_all add: sql_renew_lease_def update_jobs_def jobs_only)
  then obtain w1 where 1: "snd (renew_lease jid w) = w1" "at_work jid u {StatusProcessing} k ts ss w1" by (auto simp: renew_lease_def)
  show ?case using Suc.IH [OF 1(2)] 1(1) by simp
qed auto

lemma at_work_complete:
  assumes "at_work jid u {StatusProcessing} (Suc k) ts ss w"
  shows "\<exists>w'. complete_job jid x w = (Inr (), w') \<and> at_work jid u {StatusSucceeded} k ts ss w'"
proof -
  have "\<exists>w'. pg (sql_complete jid x) w = (fst (sql_complete jid x (time_of w) (w_db w)), w') \<and> at_work jid u {StatusSucceeded} (Suc k) ts ss w'"
  proof (rule at_work_stmt [OF assms])
    fix r assume "row_of (w_db w) jid = Some r" "job_Status r \<in> {StatusProcessing}" "job_UserID r = u" "job_DeletedAt r = None"
    then show "\<exists>r'. row_of (snd (sql_complete jid x (time_of w) (w_db w))) jid = Some r' \<and> job_Status r' \<in> {StatusSucceeded}
        \<and> job_UserID r' = u \<and> job_DeletedAt r' = None"
      using row_of_ID by (auto simp: rows_guarded set_succeeded_def)
  qed (simp_all add: sql_complete_def update_jobs_def jobs_only)
  then obtain w1 where 1: "pg (sql_complete jid x) w = (Inr (), w1)" "at_work jid u {StatusSucceeded} (Suc k) ts ss w1"
    by (auto simp: sql_complete_def update_jobs_def)
  then show ?thesis using at_work_event [OF 1(2), of "''succeeded''"] by (auto simp: complete_job_def all_event_types_def EventSucceeded_def)
qed

section \<open>Storing the transcript\<close>

lemma at_work_transcript:
  assumes "at_work jid u S (Suc k) ts ss w" and "\<And>t. t \<in> set ts \<Longrightarrow> tr_JobID t \<noteq> jid"
  shows "\<exists>t w'. insert_transcript jid md res w = (Inr (tr_ID t), w') \<and> tr_JobID t = jid \<and> tr_ID t \<notin> tr_ID ` set ts
    \<and> at_work jid u S k (ts @ [t]) ss w'"
proof -
  let ?i = "uuid_at (w_env w) (w_uuids w)" and ?w1 = "w\<lparr>w_uuids := Suc (w_uuids w)\<rparr>"
  let ?t = "\<lparr>tr_ID = ?i, tr_JobID = jid, tr_Text = re_text res, tr_LanguageDetected = re_language_detected res,
       tr_LanguageProbability = re_language_probability res, tr_Model = md, tr_ProcessingSeconds = re_processing_seconds res,
       tr_RealTimeFactor = re_real_time_factor res, tr_CreatedAt = 0\<rparr>"
  have ff: "fault_free w" and ids: "unused_ids (Suc k) w" and ts: "tbl_transcripts (w_db w) = ts" using assms(1) by (simp_all add: at_work_def)
  obtain r where r: "row_of (w_db w) jid = Some r" using assms(1) by (auto simp: at_work_def)
  have an: "answered ?w1" using ff by (simp add: answered_def fault_free_def)
  have job: "\<exists>r \<in> set (tbl_jobs (w_db w)). job_ID r = jid" using row_of_mem [OF r] row_of_ID [OF r] by blast
  have new: "?i \<notin> tr_ID ` set ts" using unused_Suc(1) [OF ids] ts by (simp add: used_ids_def)
  then have "\<not> (\<exists>t' \<in> set ts. tr_ID t' = ?i \<or> tr_JobID t' = jid)" using assms(2) by (auto simp: image_iff)
  then have stmt: "sql_insert_transcript ?t now (w_db w) = (Inr (), (w_db w)\<lparr>tbl_transcripts := ts @ [?t\<lparr>tr_CreatedAt := now\<rparr>]\<rparr>)" for now
    using job ts by (simp add: sql_insert_transcript_def)
  define d where "d = (w_db w)\<lparr>tbl_transcripts := ts @ [?t\<lparr>tr_CreatedAt := time_of ?w1\<rparr>]\<rparr>"
  have "insert_transcript jid md res w = (Inr ?i, after ?w1 d)"
    using stmt by (simp add: insert_transcript_def uuid_New_def check_def pg_answered [OF an] d_def)
  moreover have "unused_ids k (after ?w1 d)" by (rule unused_Suc(2) [OF ids]) (auto simp: d_def used_ids_def ts)
  moreover have "fault_free (after ?w1 d)" using ff by (simp add: fault_free_def)
  moreover have "row_of d = row_of (w_db w)" "tbl_segments d = tbl_segments (w_db w)" by (simp_all add: d_def)
  ultimately show ?thesis using assms(1) new
    by (intro exI [of _ "?t\<lparr>tr_CreatedAt := time_of ?w1\<rparr>"] exI [of _ "after ?w1 d"]) (auto simp: at_work_def d_def)
qed

abbreviation of_row :: "Segment \<Rightarrow> segment_result" where
  "of_row s \<equiv> (seg_Idx s, seg_StartMs s, seg_EndMs s, seg_Text s, seg_AvgLogprob s)"

lemma segment_rows_shape:
  "segment_rows tid gs w = (rows, w1) \<Longrightarrow> map seg_ID rows = next_ids (length gs) w \<and> map of_row rows = gs
     \<and> list_all (\<lambda>s. seg_TranscriptID s = tid) rows \<and> w1 = w\<lparr>w_uuids := w_uuids w + length gs\<rparr>"
proof (induction tid gs w arbitrary: rows w1 rule: segment_rows.induct)
  case (2 tid idx st en tx avg gs w)
  obtain rest w2 where r: "segment_rows tid gs (w\<lparr>w_uuids := Suc (w_uuids w)\<rparr>) = (rest, w2)"
    by (cases "segment_rows tid gs (w\<lparr>w_uuids := Suc (w_uuids w)\<rparr>)")
  show ?case using "2.prems" "2.IH" [OF _ _ r] r by (auto simp: uuid_New_def Let_def)
qed simp

lemma next_ids_add: "next_ids (n + k) w = next_ids n w @ next_ids k (w\<lparr>w_uuids := w_uuids w + n\<rparr>)"
  by (induction n arbitrary: w) auto

definition storable :: "segment_result \<Rightarrow> bool" where
  "storable g \<longleftrightarrow> (case g of (idx, st, en, tx, avg) \<Rightarrow> in_int32 idx \<and> in_int32 st \<and> in_int32 en)"

lemma insert_each_ok:
  assumes "list_all (\<lambda>s. seg_TranscriptID s = tid \<and> storable (of_row s)) rows" and "tid \<in> tr_ID ` set (tbl_transcripts d)"
    and "distinct (map seg_ID rows)" and "set (map seg_ID rows) \<inter> seg_ID ` set (tbl_segments d) = {}"
    and "distinct (map seg_Idx rows)" and "\<And>s. s \<in> set (tbl_segments d) \<Longrightarrow> seg_TranscriptID s = tid \<Longrightarrow> seg_Idx s \<notin> set (map seg_Idx rows)"
  shows "insert_each rows now d = (Inr (), d\<lparr>tbl_segments := tbl_segments d @ rows\<rparr>)"
  using assms
proof (induction rows arbitrary: d)
  case (Cons s rows)
  let ?d = "d\<lparr>tbl_segments := tbl_segments d @ [s]\<rparr>"
  have "\<not> (\<exists>s' \<in> set (tbl_segments d). seg_ID s' = seg_ID s \<or> seg_TranscriptID s' = seg_TranscriptID s \<and> seg_Idx s' = seg_Idx s)"
    using Cons.prems by (auto simp: image_iff)
  moreover have "\<exists>t \<in> set (tbl_transcripts d). tr_ID t = seg_TranscriptID s" using Cons.prems(1,2) by auto
  moreover have "in_int32 (seg_Idx s) \<and> in_int32 (seg_StartMs s) \<and> in_int32 (seg_EndMs s)" using Cons.prems(1) by (simp add: storable_def)
  ultimately have one: "sql_insert_segment s now d = (Inr (), ?d)" by (simp add: sql_insert_segment_def)
  have "insert_each rows now ?d = (Inr (), ?d\<lparr>tbl_segments := tbl_segments ?d @ rows\<rparr>)"
    by (rule Cons.IH) (use Cons.prems in \<open>auto simp: image_iff\<close>)
  then show ?case using one by (simp add: check_def)
qed simp

lemma at_work_segments:
  assumes "at_work jid u S (length gs + k) ts ss w" and "tid \<in> tr_ID ` set ts" and "\<And>s. s \<in> set ss \<Longrightarrow> seg_TranscriptID s \<noteq> tid"
    and "distinct (map fst gs)" and "list_all storable gs"
  shows "\<exists>rows w'. insert_segments tid gs w = (Inr (), w') \<and> at_work jid u S k ts (ss @ rows) w'
    \<and> map of_row rows = gs \<and> list_all (\<lambda>s. seg_TranscriptID s = tid) rows"
proof (cases "gs = []")
  case True
  then show ?thesis using assms(1) by (intro exI [of _ "[]"]) (simp add: insert_segments_def)
next
  case False
  obtain rows w1 where rows: "segment_rows tid gs w = (rows, w1)" by (cases "segment_rows tid gs w")
  note sh = segment_rows_shape [OF rows]
  have ff: "fault_free w" and ids: "unused_ids (length gs + k) w" and db: "tbl_transcripts (w_db w) = ts" "tbl_segments (w_db w) = ss"
    using assms(1) by (simp_all add: at_work_def)
  have w1: "w_db w1 = w_db w" "w_env w1 = w_env w" "w_uuids w1 = w_uuids w + length gs" "fault_free w1"
    using sh ff by (simp_all add: fault_free_def)
  let ?d = "(w_db w)\<lparr>tbl_segments := ss @ rows\<rparr>"
  have idx: "map seg_Idx rows = map fst gs" using sh by (metis (no_types, lifting) fst_conv list.map_comp list.map_cong comp_def)
  have st: "list_all (\<lambda>s. seg_TranscriptID s = tid \<and> storable (of_row s)) rows"
    using sh assms(5) by (auto simp: list_all_iff)
  have dis: "distinct (map seg_ID rows)" "set (map seg_ID rows) \<inter> seg_ID ` set ss = {}"
    using sh ids unfolding unused_ids_def next_ids_add used_ids_def db by (simp_all only: distinct_append set_append) blast+
  have "insert_each rows now (w_db w) = (Inr (), ?d)" for now
    using insert_each_ok [of tid rows "w_db w" now, OF st] assms(2-4) dis by (auto simp: db idx)
  then have stmt: "sql_insert_segments rows now (w_db w) = (Inr (), ?d)" for now by (simp add: sql_insert_segments_def)
  have "insert_segments tid gs w = (Inr (), after w1 ?d)"
    using False rows stmt w1(1,4) by (simp add: insert_segments_def pg_answered)
  moreover have "unused_ids k (after w1 ?d)"
  proof -
    have "next_ids k (after w1 ?d) = next_ids k (w\<lparr>w_uuids := w_uuids w + length gs\<rparr>)" by (rule next_ids_cong) (use w1 in simp_all)
    moreover have "seg_ID ` set rows = set (next_ids (length gs) w)" using sh by (metis set_map)
    then have "used_ids ?d = used_ids (w_db w) \<union> set (next_ids (length gs) w)" by (simp add: used_ids_def db image_Un) blast
    ultimately show ?thesis using ids unfolding unused_ids_def next_ids_add by auto
  qed
  ultimately show ?thesis using assms(1) w1(4) sh
    by (intro exI [of _ rows] exI [of _ "after w1 ?d"]) (auto simp: at_work_def)
qed

section \<open>Reading it back\<close>

lemma GetJob_owner:
  assumes "schema_ok (w_db w)" and "fault_free w" and "row_of (w_db w) jid = Some r" and "job_UserID r = u" and "job_DeletedAt r = None"
  shows "JobStore_GetJob jid u w = (Inr (fromDBJob r), after w (w_db w))"
proof -
  let ?p = "\<lambda>r. job_ID r = jid \<and> job_UserID r = u \<and> job_DeletedAt r = None"
  have "filter ?p (tbl_jobs (w_db w)) \<noteq> []" using row_of_mem [OF assms(3)] row_of_ID [OF assms(3)] assms(4,5) by (auto simp: filter_empty_conv)
  moreover have "r' = r" if "r' \<in> set (tbl_jobs (w_db w))" "job_ID r' = jid" for r'
    using row_of_Some_unique [of "w_db w" r'] that assms(1,3) by (simp add: schema_defs)
  ultimately have "scanJob (filter ?p (tbl_jobs (w_db w))) = Inr r"
    by (cases "filter ?p (tbl_jobs (w_db w))") (auto simp: scanJob_def dest: filter_eq_ConsD)
  then show ?thesis using assms(2) by (simp add: JobStore_GetJob_def check_def pg_answered q_GetJobByID_def)
qed

lemma GetTranscript_stored:
  assumes "schema_ok (w_db w)" and "at_work jid u S k (ts @ [t]) (ss @ rows) w" and "tr_JobID t = jid" and "\<And>t'. t' \<in> set ts \<Longrightarrow> tr_JobID t' \<noteq> jid"
    and "list_all (\<lambda>s. seg_TranscriptID s = tr_ID t) rows" and "\<And>s. s \<in> set ss \<Longrightarrow> seg_TranscriptID s \<noteq> tr_ID t" and "sorted (map seg_Idx rows)"
  shows "\<exists>j w'. GetTranscript jobSvc u jid w = (Inr (j, t, rows), w')"
proof -
  obtain r where r: "row_of (w_db w) jid = Some r" "job_UserID r = u" "job_DeletedAt r = None" using assms(2) by (auto simp: at_work_def)
  have ff: "fault_free w" and db: "tbl_transcripts (w_db w) = ts @ [t]" "tbl_segments (w_db w) = ss @ rows" using assms(2) by (simp_all add: at_work_def)
  let ?w1 = "after w (w_db w)" and ?w2 = "after (after w (w_db w)) (w_db w)"
  have ff': "answered ?w1" "answered ?w2" using ff by (simp_all add: fault_free_def answered_def)
  have t: "filter (\<lambda>t'. tr_JobID t' = jid) (ts @ [t]) = [t]" using assms(3,4) by (simp add: filter_False)
  have s: "sort_key seg_Idx (filter (\<lambda>s. seg_TranscriptID s = tr_ID t) (ss @ rows)) = rows"
    using assms(5-7) by (simp add: filter_False filter_True list_all_iff sort_key_id_if_sorted)
  have g1: "JobStore_GetTranscript jid ?w1 = (Inr t, ?w2)"
    using t by (simp add: JobStore_GetTranscript_def check_def pg_answered [OF ff'(1)] q_GetTranscriptByJobID_def db)
  have i: "map (\<lambda>r. \<lparr>seg_ID = seg_ID r, seg_TranscriptID = seg_TranscriptID r, seg_Idx = seg_Idx r, seg_StartMs = seg_StartMs r,
      seg_EndMs = seg_EndMs r, seg_Text = seg_Text r, seg_AvgLogprob = seg_AvgLogprob r\<rparr>) rows = rows" for rows :: "Segment list"
    by (rule map_idI) (rule Segment.equality; simp)
  have g2: "JobStore_ListSegments (tr_ID t) ?w2 = (Inr rows, after ?w2 (w_db w))"
    using s by (simp add: JobStore_ListSegments_def check_def pg_answered [OF ff'(2)] q_ListSegmentsByTranscript_def db i del: filter_append)
  have "GetTranscript jobSvc u jid w = (Inr (fromDBJob r, t, rows), after ?w2 (w_db w))"
    using GetJob_owner [OF assms(1) ff r] g1 g2 by (simp add: GetTranscript_def check_def JobStore_def)
  then show ?thesis by blast
qed

text \<open>A message whose pipeline succeeded, up to the completed job.\<close>

lemma message_completes:
  assumes "schema_ok (w_db w)" and "at_work jid u {StatusQueued, StatusRetrying} (length (re_segments res) + 3) ts ss w"
    and "\<And>t. t \<in> set ts \<Longrightarrow> tr_JobID t \<noteq> jid" and "distinct (map fst (re_segments res))" and "list_all storable (re_segments res)"
    and "row_of (w_db w) jid = Some job" and "oc (job_ObjectKey job) = Transcribed res"
  shows "\<exists>t rows w'. process_job n oc jid wid w = (Inr (), w') \<and> at_work jid u {StatusSucceeded} 0 (ts @ [t]) (ss @ rows) w'
    \<and> schema_ok (w_db w') \<and> tr_JobID t = jid \<and> map of_row rows = re_segments res \<and> list_all (\<lambda>s. seg_TranscriptID s = tr_ID t) rows
    \<and> (\<forall>s \<in> set ss. seg_TranscriptID s \<noteq> tr_ID t)"
proof -
  let ?gs = "re_segments res" and ?P = "{StatusProcessing}"
  obtain c w1 where 1: "claim_next jid wid w = (Inr (Some c), w1)" "cl_id c = jid" "at_work jid u ?P (length ?gs + 2) ts ss w1"
      "oc (cl_object_key c) = Transcribed res"
    using at_work_claim [of jid u "length ?gs + 2" ts ss w job wid] assms(1,2,6,7) by (auto simp: numeral_eq_Suc)
  let ?rest = "check (insert_transcript jid (cl_model c) res) id (\<lambda>tid. check (insert_segments tid ?gs) id (\<lambda>_. complete_job jid (re_duration res)))"
  obtain w2 where 2: "renewals n jid ?rest w1 = ?rest w2" "at_work jid u ?P (length ?gs + 2) ts ss w2"
    using at_work_renewals [OF 1(3), of n ?rest] by blast
  obtain t w3 where 3: "insert_transcript jid (cl_model c) res w2 = (Inr (tr_ID t), w3)" "tr_JobID t = jid" "tr_ID t \<notin> tr_ID ` set ts"
      "at_work jid u ?P (length ?gs + 1) (ts @ [t]) ss w3"
    using at_work_transcript [of jid u ?P "length ?gs + 1" ts ss w2 "cl_model c" res] 2(2) assms(3) by auto
  have "seg_TranscriptID ` set ss \<subseteq> tr_ID ` set ts" using assms(1,2) by (simp add: at_work_def schema_defs)
  then have free: "seg_TranscriptID s \<noteq> tr_ID t" if "s \<in> set ss" for s
    using 3(3) imageI [OF that, of seg_TranscriptID] by (metis in_mono)
  obtain rows w4 where 4: "insert_segments (tr_ID t) ?gs w3 = (Inr (), w4)" "at_work jid u ?P 1 (ts @ [t]) (ss @ rows) w4"
      "map of_row rows = ?gs" "list_all (\<lambda>s. seg_TranscriptID s = tr_ID t) rows"
    using at_work_segments [OF 3(4), of "tr_ID t"] free assms(4,5) by auto
  obtain w5 where 5: "complete_job jid (re_duration res) w4 = (Inr (), w5)" "at_work jid u {StatusSucceeded} 0 (ts @ [t]) (ss @ rows) w5"
    using at_work_complete [of jid u 0 "ts @ [t]" "ss @ rows" w4 "re_duration res"] 4(2) by auto
  have run: "process_job n oc jid wid w = (Inr (), w5)"
    using 1 2(1) 3(1) 4(1) 5(1) by (simp add: process_job_def transcribe_and_store_def check_def)
  moreover have "schema_ok (w_db w5)"
  proof -
    have "\<forall>k. codes_in UNIV (oc k)" by (simp add: codes_in_def split: outcome.split)
    from schema_kept.process_job [OF this, of n jid wid] show ?thesis
      using assms(1) run by (auto simp: keeps_def inv_rel_def dest: spec [of _ w])
  qed
  ultimately show ?thesis using 5(2) 3(2) 4(3,4) free by blast
qed

text \<open>C4. From the message to the download. When no call fails and the identifiers drawn are fresh, a worker that gets the message of a
  queued job without a transcript, and whose pipeline succeeds on the object stored under the job's key, finishes the job; and the owner, who then asks for the
  SubRip file, gets status 200 and a text that reads back as exactly the segments the model produced, numbered from 1, with their times in
  milliseconds and their texts.\<close>

theorem transcript_delivered:
  assumes "schema_ok (w_db w)" and "at_work jid u {StatusQueued, StatusRetrying} (length (re_segments res) + 3) ts ss w"
    and "\<And>t. t \<in> set ts \<Longrightarrow> tr_JobID t \<noteq> jid"
    and "row_of (w_db w) jid = Some job" and "pipeline T model_name bucket (job_ObjectKey job) = Inr res"
    and "list_all (\<lambda>(i, s, e, t, a). in_int32 i \<and> 0 \<le> s \<and> in_int32 s \<and> 0 \<le> e \<and> in_int32 e \<and> newline \<notin> set t) (re_segments res)"
    and "rq_UserID q = Some u" and "hl_uuid_Parse H (rq_Param q ''id'') = Some jid" and "rq_Query q ''format'' = ''srt''"
  shows "\<exists>w' w'' rs text. process_job n (\<lambda>key. outcome_of (pipeline T model_name bucket key)) jid wid w = (Inr (), w')
    \<and> map_option job_Status (row_of (w_db w') jid) = Some StatusSucceeded
    \<and> JobHandler_GetTranscript H jobSvc q w' = (Inr rs, w'') \<and> rs_Status rs = 200 \<and> rs_Body rs = TextBody text
    \<and> read_srt text = Some (map (\<lambda>(k, (i, s, e, t, a)). (k, s, e, t)) (zip [1 ..< 1 + length (re_segments res)] (re_segments res)))"
proof -
  let ?gs = "re_segments res"
  let ?oc = "\<lambda>key. outcome_of (pipeline T model_name bucket key)"
  have oc: "?oc (job_ObjectKey job) = Transcribed res" using assms(5) by (simp add: outcome_of_def)
  note sh = pipeline_Inr(2) [OF assms(5)]
  have sto: "list_all storable ?gs" using assms(6) by (auto simp: list_all_iff storable_def)
  obtain t rows w5 where run: "process_job n ?oc jid wid w = (Inr (), w5)" and work: "at_work jid u {StatusSucceeded} 0 (ts @ [t]) (ss @ rows) w5"
    and ok: "schema_ok (w_db w5)" "tr_JobID t = jid" and rows: "map of_row rows = ?gs" "list_all (\<lambda>s. seg_TranscriptID s = tr_ID t) rows"
    and free: "\<forall>s \<in> set ss. seg_TranscriptID s \<noteq> tr_ID t"
    using message_completes [OF assms(1-3) _ sto assms(4), of ?oc n wid] sh oc by auto
  have idx: "map seg_Idx rows = map fst ?gs" unfolding rows(1) [symmetric] by simp
  obtain j w6 where g: "GetTranscript jobSvc u jid w5 = (Inr (j, t, rows), w6)"
    using GetTranscript_stored [OF ok(1) work ok(2) assms(3) rows(2)] free by (auto simp: idx sh)
  have resp: "JobHandler_GetTranscript H jobSvc q w5 = (Inr (writeText ''application/x-subrip'' (toSRT rows)), w6)"
    using g assms(7,9) by (simp add: JobHandler_GetTranscript_def with_user_def with_param_eq [OF assms(8)] respond_def Let_def)
  have "\<forall>s \<in> set rows. printable s" using assms(6) unfolding rows(1) [symmetric] by (auto simp: list_all_iff printable_def)
  then have "read_srt (toSRT rows) = Some (map (\<lambda>(k, s). (k, seg_StartMs s, seg_EndMs s, seg_Text s)) (zip [1 ..< 1 + length rows] rows))"
    using read_srt_loop [of rows 0] by (simp add: read_srt_def toSRT_def)
  also have "\<dots> = Some (map (\<lambda>(k, (i, s, e, t, a)). (k, s, e, t)) (zip [1 ..< 1 + length ?gs] ?gs))"
    unfolding rows(1) [symmetric] by (simp add: zip_map2 case_prod_beta)
  finally have "read_srt (toSRT rows) = Some (map (\<lambda>(k, (i, s, e, t, a)). (k, s, e, t)) (zip [1 ..< 1 + length ?gs] ?gs))" .
  moreover have "map_option job_Status (row_of (w_db w5) jid) = Some StatusSucceeded" using work by (auto simp: at_work_def)
  ultimately show ?thesis using run resp by (auto simp: writeText_def)
qed

section \<open>A concrete delivery\<close>

definition two_segments :: "(real \<times> real \<times> string \<times> real) list" where
  "two_segments = [(0, 3 / 2, '' hello '', 0), (3 / 2, 3, ''world'', 0)]"

definition two_results :: "segment_result list" where
  "two_results = [(0, 0, 1500, ''hello'', Some 0), (1, 1500, 3000, ''world'', Some 0)]"

lemma two_results: "segment_results (toy_tools two_segments True) 0 two_segments = Some two_results"
  by (simp add: two_segments_def two_results_def toy_tools_def py_int_def strip_def py_space_def Let_def)

lemma toy_pipeline:
  "\<exists>res. pipeline (toy_tools two_segments True) ''m'' ''b'' key = Inr res \<and> re_segments res = two_results"
proof -
  let ?T = "toy_tools two_segments True"
  have "probe ?T ''audio'' = Inr (Fin 60)"
    by (simp add: probe_def toy_tools_def read_duration_def dict_get_def MAX_DURATION_SECONDS_def)
  moreover have "normalize ?T ''audio'' = Inr ''audio''" "download_object ?T ''b'' key = Inr ''audio''"
    by (simp_all add: normalize_def download_object_def toy_tools_def)
  moreover have "tl_model ?T ''audio'' = Model_ok two_segments ''en'' 1" by (simp add: toy_tools_def)
  ultimately show ?thesis using two_results by (simp add: pipeline_def transcribe_def)
qed

lemma sample_at_work: "at_work 7 1 {StatusQueued, StatusRetrying} 5 [] [] (sample_world StatusQueued)"
proof -
  have "row_of (sample_db StatusQueued) 7 = Some (sample_job StatusQueued)" by (simp add: row_of_def sample_db_def sample_job_def)
  moreover have "next_ids (Suc (Suc (Suc (Suc (Suc 0))))) (sample_world StatusQueued) = [100, 101, 102, 103, 104]"
    by (simp add: sample_world_def sample_env_def)
  then have "next_ids 5 (sample_world StatusQueued) = [100, 101, 102, 103, 104]" by (simp only: eval_nat_numeral BitM.simps)
  then have "unused_ids 5 (sample_world StatusQueued)" by (simp add: unused_ids_def used_ids_def sample_world_def sample_db_def)
  ultimately show ?thesis by (simp add: at_work_def) (simp add: sample_world_def sample_db_def sample_job_def)
qed

theorem transcript_delivered_witness:
  "\<exists>w' w'' rs text. process_job 1 (\<lambda>key. outcome_of (pipeline (toy_tools two_segments True) ''m'' ''b'' key)) 7 ''w'' (sample_world StatusQueued) = (Inr (), w')
    \<and> JobHandler_GetTranscript sample_http jobSvc (sample_request\<lparr>rq_Query := (\<lambda>_. ''srt'')\<rparr>) w' = (Inr rs, w'')
    \<and> rs_Body rs = TextBody text \<and> read_srt text = Some [(1, 0, 1500, ''hello''), (2, 1500, 3000, ''world'')]"
proof -
  let ?T = "toy_tools two_segments True" and ?q = "sample_request\<lparr>rq_Query := (\<lambda>_. ''srt'')\<rparr>"
  obtain res where p: "pipeline ?T ''m'' ''b'' (job_ObjectKey (sample_job StatusQueued)) = Inr res" and s: "re_segments res = two_results" using toy_pipeline by blast
  have ok: "schema_ok (w_db (sample_world StatusQueued))" using sample_schema [of StatusQueued] by (simp add: sample_world_def)
  have work: "at_work 7 1 {StatusQueued, StatusRetrying} (length (re_segments res) + 3) [] [] (sample_world StatusQueued)"
    using sample_at_work by (simp add: s two_results_def)
  have row: "row_of (w_db (sample_world StatusQueued)) 7 = Some (sample_job StatusQueued)"
    by (simp add: row_of_def sample_world_def sample_db_def) (simp add: sample_job_def)
  have fine: "list_all (\<lambda>(i, s, e, t, a). in_int32 i \<and> 0 \<le> s \<and> in_int32 s \<and> 0 \<le> e \<and> in_int32 e \<and> newline \<notin> set t) (re_segments res)"
    by (simp add: s two_results_def in_int32_def newline_def)
  have q: "rq_UserID ?q = Some 1" "hl_uuid_Parse sample_http (rq_Param ?q ''id'') = Some 7" "rq_Query ?q ''format'' = ''srt''"
    using read_nat_7 by (simp_all add: sample_request_def sample_http_def)
  from transcript_delivered [OF ok work _ row p fine q, of 1 "''w''"] show ?thesis
    by (auto simp: s two_results_def upt_conv_Cons)
qed

end
