(* ===== verification/Webvtt.thy ===== *)
theory Webvtt
  imports Transcript_Formats
begin

text \<open>
  What a WebVTT reader makes of \<open>toVTT\<close> of \<open>src/api/internal/http/transcript_handlers.go\<close>.

  The reader is the parser the WebVTT specification gives: the preprocessing of the input, the signature line and the header block, the
  collection of blocks, where a line that contains an arrow ends the block it stands in unless it is the block's time line, the
  collection of timestamps, and the tokenizer of cue text, where a tag is markup and \<open>&\<close> starts a character reference. The table
  of HTML's character references is the parameter \<open>refs\<close>: for the text after a \<open>&\<close> it gives the characters the reference
  stands for and its length. Cue settings, regions and style sheets affect neither times nor texts and are skipped.
\<close>

section \<open>The parser\<close>





definition number_of :: "string \<Rightarrow> nat" where
  "number_of s = (case read_nat s of Some n \<Rightarrow> n | None \<Rightarrow> 0)"












section \<open>Times\<close>


lemma number_of_fmt [simp]: "0 \<le> x \<Longrightarrow> number_of (fmt_0d w x) = nat x"
  by (simp add: number_of_def)




lemma punctuation [simp]:
  "\<not> is_digit CHR '':''" "\<not> is_digit CHR ''.''" "\<not> is_digit CHR '' ''"
  by (simp_all add: is_digit_def)






section \<open>Cue texts\<close>






section \<open>Documents\<close>












end
