(* ===== verification/Worker_Config.thy ===== *)
theory Worker_Config
  imports Audio Go_Strings
begin

text \<open>
  The configuration of the worker, \<open>src/worker/worker/config.py\<close>. A \<open>ConfigError\<close> is a value with the variable and the
  offending text instead of its message. \<open>os.environ.get\<close> of an unset variable and of an empty one are both refused, so both are
  the empty text here. \<open>int(s)\<close> follows Python: white space around, a sign, digits that may be grouped by single underscores,
  and no more than 4300 of them.
\<close>

section \<open>Loading\<close>

datatype config_error = Missing string | NotBool string string | NotInt string string

record worker_Config =
  wc_database_url :: string
  wc_redis_addr :: string
  wc_s3_endpoint :: string
  wc_s3_access_key :: string
  wc_s3_secret_key :: string
  wc_s3_bucket :: string
  wc_s3_use_ssl :: bool
  wc_model :: string
  wc_concurrency :: int
  wc_metrics_port :: int

definition lower_char :: "char \<Rightarrow> char" where
  "lower_char c = (let n = (of_char c :: nat) in if 65 \<le> n \<and> n \<le> 90 \<or> 192 \<le> n \<and> n \<le> 222 \<and> n \<noteq> 215 then char_of (n + 32) else c)"

definition lower :: "string \<Rightarrow> string" where
  "lower = map lower_char"

definition int_digits :: "string \<Rightarrow> nat option" where
  "int_digits s = (let groups = split_on (CHR ''_'') s in
     if [] \<in> set groups \<or> length (concat groups) > 4300 then None else read_nat (concat groups))"

definition py_int_str :: "string \<Rightarrow> int option" where
  "py_int_str s = (case strip s of
     [] \<Rightarrow> None
   | c # t \<Rightarrow> if c = CHR ''-'' then map_option (\<lambda>n. - int n) (int_digits t)
       else map_option int (int_digits (if c = CHR ''+'' then t else c # t)))"

definition require :: "(string \<Rightarrow> string) \<Rightarrow> string \<Rightarrow> config_error + string" where
  "require env key = (let value = env key in if value = [] then Inl (Missing key) else Inr value)"

definition parse_bool :: "string \<Rightarrow> string \<Rightarrow> config_error + bool" where
  "parse_bool key value = (if lower value \<notin> {''true'', ''false''} then Inl (NotBool key value) else Inr (lower value = ''true''))"

definition parse_int :: "string \<Rightarrow> string \<Rightarrow> config_error + int" where
  "parse_int key value = (case py_int_str value of None \<Rightarrow> Inl (NotInt key value) | Some n \<Rightarrow> Inr n)"

definition require_bool :: "(string \<Rightarrow> string) \<Rightarrow> string \<Rightarrow> config_error + bool" where
  "require_bool env key = bind_exc (require env key) (parse_bool key)"

definition require_int :: "(string \<Rightarrow> string) \<Rightarrow> string \<Rightarrow> config_error + int" where
  "require_int env key = bind_exc (require env key) (parse_int key)"

definition worker_load :: "(string \<Rightarrow> string) \<Rightarrow> config_error + worker_Config" where
  "worker_load env =
    bind_exc (require env ''DATABASE_URL'') (\<lambda>db. bind_exc (require env ''REDIS_ADDR'') (\<lambda>redis.
    bind_exc (require env ''S3_ENDPOINT'') (\<lambda>s3. bind_exc (require env ''S3_ACCESS_KEY'') (\<lambda>access.
    bind_exc (require env ''S3_SECRET_KEY'') (\<lambda>secret. bind_exc (require env ''S3_BUCKET'') (\<lambda>bucket.
    bind_exc (require_bool env ''S3_USE_SSL'') (\<lambda>ssl. bind_exc (require env ''WORKER_MODEL'') (\<lambda>model.
    bind_exc (require_int env ''WORKER_CONCURRENCY'') (\<lambda>conc. bind_exc (require_int env ''WORKER_METRICS_PORT'') (\<lambda>port.
    Inr \<lparr>wc_database_url = db, wc_redis_addr = redis, wc_s3_endpoint = s3, wc_s3_access_key = access, wc_s3_secret_key = secret,
      wc_s3_bucket = bucket, wc_s3_use_ssl = ssl, wc_model = model, wc_concurrency = conc, wc_metrics_port = port\<rparr>))))))))))"

section \<open>It fails fast\<close>

definition worker_var_ok :: "(string \<Rightarrow> string) \<Rightarrow> string \<Rightarrow> bool" where
  "worker_var_ok env k \<longleftrightarrow> env k \<noteq> [] \<and> (k = ''S3_USE_SSL'' \<longrightarrow> lower (env k) \<in> {''true'', ''false''})
     \<and> (k \<in> {''WORKER_CONCURRENCY'', ''WORKER_METRICS_PORT''} \<longrightarrow> py_int_str (env k) \<noteq> None)"

fun error_var :: "config_error \<Rightarrow> string" where
  "error_var (Missing k) = k"
| "error_var (NotBool k v) = k"
| "error_var (NotInt k v) = k"

definition worker_vars :: "string list" where
  "worker_vars = [''DATABASE_URL'', ''REDIS_ADDR'', ''S3_ENDPOINT'', ''S3_ACCESS_KEY'', ''S3_SECRET_KEY'', ''S3_BUCKET'', ''S3_USE_SSL'',
     ''WORKER_MODEL'', ''WORKER_CONCURRENCY'', ''WORKER_METRICS_PORT'']"

definition refuses :: "config_error + 'a \<Rightarrow> bool \<Rightarrow> string \<Rightarrow> bool" where
  "refuses m ok k \<longleftrightarrow> (case m of Inr _ \<Rightarrow> ok | Inl e \<Rightarrow> \<not> ok \<and> error_var e = k)"

lemma require_refuses: "k \<notin> {''S3_USE_SSL'', ''WORKER_CONCURRENCY'', ''WORKER_METRICS_PORT''} \<Longrightarrow> refuses (require env k) (worker_var_ok env k) k"
  by (auto simp: refuses_def require_def worker_var_ok_def Let_def)

lemma require_bool_refuses: "refuses (require_bool env ''S3_USE_SSL'') (worker_var_ok env ''S3_USE_SSL'') ''S3_USE_SSL''"
  by (auto simp: refuses_def require_bool_def bind_exc_def require_def parse_bool_def worker_var_ok_def Let_def)

lemma require_int_refuses:
  "k \<in> {''WORKER_CONCURRENCY'', ''WORKER_METRICS_PORT''} \<Longrightarrow> refuses (require_int env k) (worker_var_ok env k) k"
  by (auto simp: refuses_def require_int_def bind_exc_def require_def parse_int_def worker_var_ok_def Let_def split: option.split)

lemma seq_refuses:
  assumes "refuses m (worker_var_ok env k) k"
    and "\<And>x. m = Inr x \<Longrightarrow> (case find (\<lambda>k. \<not> worker_var_ok env k) ks of None \<Rightarrow> \<exists>c. f x = Inr c | Some k' \<Rightarrow> \<exists>e. f x = Inl e \<and> error_var e = k')"
  shows "case find (\<lambda>k. \<not> worker_var_ok env k) (k # ks) of None \<Rightarrow> \<exists>c. bind_exc m f = Inr c | Some k' \<Rightarrow> \<exists>e. bind_exc m f = Inl e \<and> error_var e = k'"
  using assms by (cases m) (auto simp: refuses_def bind_exc_def split: option.splits)

text \<open>\<open>load\<close> returns exactly when every variable is set and well-formed, and otherwise the error is about the first, in the order they are
  read, that is not.\<close>

lemma worker_load_outcome:
  "case find (\<lambda>k. \<not> worker_var_ok env k) worker_vars of
     None \<Rightarrow> \<exists>cfg. worker_load env = Inr cfg | Some k \<Rightarrow> \<exists>e. worker_load env = Inl e \<and> error_var e = k"
  unfolding worker_vars_def worker_load_def
  by (rule seq_refuses, simp add: require_refuses require_bool_refuses require_int_refuses)+ simp

end
