(* ===== verification/Hub.thy ===== *)
theory Hub
  imports Go_Prelude "HOL-Library.Sublist"
begin

text \<open>
  The WebSocket hub of \<open>src/api/internal/ws/hub.go\<close>.

  A \<open>*Client\<close> is an address in a heap of clients, so that aliasing is visible: the hub's maps and
  the connection handler hold the same client, and a channel is closed for both. A channel is its
  buffer and whether it is closed. Sending on a closed channel and closing one twice panic;
  an operation returns \<open>None\<close> then. The set of a user's clients is a list of addresses in the
  order Go's \<open>range\<close> visits them; that order is shown not to matter.

  The lemmas: operations keep the invariant and never panic from a reachable state; a
  message reaches the clients of its user that have room and nobody else; what a client
  receives is a subsequence, in order, of what was broadcast to its user.
\<close>

section \<open>State\<close>

type_synonym addr = nat

record 'm ws_Client =
  cl_UserID :: uuid
  cl_Send :: "'m list"
  cl_closed :: bool

definition send_buffer_size :: nat where
  "send_buffer_size = 16"

definition newClient :: "uuid \<Rightarrow> 'm ws_Client" where
  "newClient userID = \<lparr>cl_UserID = userID, cl_Send = [], cl_closed = False\<rparr>"

record 'm Hub =
  hub_heap :: "'m ws_Client list"
  hub_clients :: "uuid \<Rightarrow> addr list option"

definition NewHub :: "'m Hub" where
  "NewHub = \<lparr>hub_heap = [], hub_clients = (\<lambda>_. None)\<rparr>"

section \<open>Operations\<close>

text \<open>\<open>c.Send <- msg\<close> with a \<open>default\<close> case, and \<open>close(c.Send)\<close>.\<close>

definition try_send :: "'m \<Rightarrow> 'm ws_Client \<Rightarrow> 'm ws_Client option" where
  "try_send msg c =
    (if cl_closed c then None
     else if length (cl_Send c) < send_buffer_size then Some (c\<lparr>cl_Send := cl_Send c @ [msg]\<rparr>)
     else Some c)"

definition close_chan :: "'m ws_Client \<Rightarrow> 'm ws_Client option" where
  "close_chan c = (if cl_closed c then None else Some (c\<lparr>cl_closed := True\<rparr>))"

text \<open>Run \<open>f\<close> on the client at an address; a dangling address cannot occur in Go.\<close>

definition at_client :: "addr \<Rightarrow> ('m ws_Client \<Rightarrow> 'm ws_Client option) \<Rightarrow> 'm Hub \<Rightarrow> 'm Hub option" where
  "at_client p f h =
    (if p < length (hub_heap h)
     then map_option (\<lambda>c. h\<lparr>hub_heap := (hub_heap h)[p := c]\<rparr>) (f (hub_heap h ! p)) else None)"

definition Register :: "uuid \<Rightarrow> 'm Hub \<Rightarrow> addr \<times> 'm Hub" where
  "Register userID h =
    (let p = length (hub_heap h);
         ps = (case hub_clients h userID of None \<Rightarrow> [] | Some ps \<Rightarrow> ps)
     in (p, h\<lparr>hub_heap := hub_heap h @ [newClient userID],
              hub_clients := (hub_clients h)(userID \<mapsto> ps @ [p])\<rparr>))"

definition Unregister :: "addr \<Rightarrow> 'm Hub \<Rightarrow> 'm Hub option" where
  "Unregister p h =
    (if p \<ge> length (hub_heap h) then None
     else let u = cl_UserID (hub_heap h ! p) in
       case hub_clients h u of
         None \<Rightarrow> Some h
       | Some ps \<Rightarrow>
           if p \<notin> set ps then Some h
           else let ps' = removeAll p ps;
                    h1 = h\<lparr>hub_clients := (hub_clients h)(u := if length ps' = 0 then None else Some ps')\<rparr>
                in at_client p close_chan h1)"

fun broadcast_loop :: "addr list \<Rightarrow> 'm \<Rightarrow> 'm Hub \<Rightarrow> 'm Hub option" where
  "broadcast_loop [] msg h = Some h"
| "broadcast_loop (p # ps) msg h =
    (case at_client p (try_send msg) h of None \<Rightarrow> None | Some h1 \<Rightarrow> broadcast_loop ps msg h1)"

definition BroadcastToUser :: "uuid \<Rightarrow> 'm \<Rightarrow> 'm Hub \<Rightarrow> 'm Hub option" where
  "BroadcastToUser userID msg h =
    broadcast_loop (case hub_clients h userID of None \<Rightarrow> [] | Some ps \<Rightarrow> ps) msg h"

text \<open>One iteration of \<open>for msg := range client.Send\<close> in the handler's \<open>writeLoop\<close>: the next message,
  if there is one.\<close>

definition receive :: "addr \<Rightarrow> 'm Hub \<Rightarrow> 'm option \<times> 'm Hub" where
  "receive p h =
    (if p < length (hub_heap h) then
       (case cl_Send (hub_heap h ! p) of
          [] \<Rightarrow> (None, h)
        | m # ms \<Rightarrow> (Some m, h\<lparr>hub_heap := (hub_heap h)[p := (hub_heap h ! p)\<lparr>cl_Send := ms\<rparr>]\<rparr>))
     else (None, h))"

section \<open>Invariant\<close>

definition registered :: "'m Hub \<Rightarrow> addr \<Rightarrow> bool" where
  "registered h p \<longleftrightarrow> p < length (hub_heap h)
     \<and> (case hub_clients h (cl_UserID (hub_heap h ! p)) of None \<Rightarrow> False | Some ps \<Rightarrow> p \<in> set ps)"

definition hub_ok :: "'m Hub \<Rightarrow> bool" where
  "hub_ok h \<longleftrightarrow>
     (\<forall>u ps. hub_clients h u = Some ps \<longrightarrow> ps \<noteq> [] \<and> distinct ps
        \<and> (\<forall>p \<in> set ps. p < length (hub_heap h) \<and> cl_UserID (hub_heap h ! p) = u))
     \<and> (\<forall>p < length (hub_heap h). length (cl_Send (hub_heap h ! p)) \<le> send_buffer_size
        \<and> (cl_closed (hub_heap h ! p) \<longleftrightarrow> \<not> registered h p))"

lemma hub_ok_NewHub: "hub_ok NewHub"
  by (simp add: hub_ok_def NewHub_def)

lemma hub_okD:
  assumes "hub_ok h" and "hub_clients h u = Some ps"
  shows "ps \<noteq> []" "distinct ps" "p \<in> set ps \<Longrightarrow> p < length (hub_heap h)"
    "p \<in> set ps \<Longrightarrow> cl_UserID (hub_heap h ! p) = u"
    "p \<in> set ps \<Longrightarrow> \<not> cl_closed (hub_heap h ! p)"
proof -
  show "ps \<noteq> []" "distinct ps" "p \<in> set ps \<Longrightarrow> p < length (hub_heap h)"
    "p \<in> set ps \<Longrightarrow> cl_UserID (hub_heap h ! p) = u"
    using assms by (auto simp: hub_ok_def)
  then show "p \<in> set ps \<Longrightarrow> \<not> cl_closed (hub_heap h ! p)"
    using assms by (auto simp: hub_ok_def registered_def)
qed

lemma Register_ok:
  assumes "hub_ok h"
  shows "hub_ok (snd (Register u h))" and "registered (snd (Register u h)) (fst (Register u h))"
proof -
  let ?n = "length (hub_heap h)"
  have new: "\<not> (\<exists>v ps. hub_clients h v = Some ps \<and> ?n \<in> set ps)"
    using hub_okD(3) [OF assms] by blast
  have reg: "registered (snd (Register u h)) p \<longleftrightarrow> p = ?n \<or> registered h p" for p
    using new by (auto simp: Register_def registered_def Let_def nth_append newClient_def less_Suc_eq
        split: option.splits)
  then show "registered (snd (Register u h)) (fst (Register u h))" by (simp add: Register_def Let_def)
  show "hub_ok (snd (Register u h))"
    unfolding hub_ok_def
  proof (intro conjI allI impI)
    fix v ps assume "hub_clients (snd (Register u h)) v = Some ps"
    then show "ps \<noteq> []" "distinct ps"
      "\<forall>p \<in> set ps. p < length (hub_heap (snd (Register u h))) \<and> cl_UserID (hub_heap (snd (Register u h)) ! p) = v"
      using hub_okD [OF assms, of v] new
      by (auto simp: Register_def Let_def nth_append newClient_def less_Suc_eq split: if_splits option.splits)
  next
    fix p assume p: "p < length (hub_heap (snd (Register u h)))"
    then show "length (cl_Send (hub_heap (snd (Register u h)) ! p)) \<le> send_buffer_size"
      "cl_closed (hub_heap (snd (Register u h)) ! p) = (\<not> registered (snd (Register u h)) p)"
      using assms unfolding reg
      by (auto simp: Register_def Let_def nth_append newClient_def hub_ok_def less_Suc_eq)
  qed
qed

subsection \<open>Unregister\<close>

lemma Unregister_gone:
  assumes "hub_ok h" and "p < length (hub_heap h)" and "\<not> registered h p"
  shows "Unregister p h = Some h"
  using assms by (auto simp: Unregister_def registered_def Let_def split: option.splits)

lemma Unregister_registered:
  assumes "hub_ok h" and r: "registered h p"
  obtains ps where "hub_clients h (cl_UserID (hub_heap h ! p)) = Some ps" and "p \<in> set ps"
    and "Unregister p h = Some (h\<lparr>hub_heap := (hub_heap h)[p := (hub_heap h ! p)\<lparr>cl_closed := True\<rparr>],
      hub_clients := (hub_clients h)(cl_UserID (hub_heap h ! p) :=
        if removeAll p ps = [] then None else Some (removeAll p ps))\<rparr>)"
proof -
  let ?u = "cl_UserID (hub_heap h ! p)"
  obtain ps where ps: "hub_clients h ?u = Some ps" "p \<in> set ps" "p < length (hub_heap h)"
    using r by (auto simp: registered_def split: option.splits)
  then have "\<not> cl_closed (hub_heap h ! p)" using hub_okD(5) [OF assms(1)] by blast
  with ps that show thesis by (simp add: Unregister_def Let_def at_client_def close_chan_def)
qed

lemma Unregister_ok:
  assumes ok: "hub_ok h" and r: "registered h p" and u: "Unregister p h = Some h'"
  shows "hub_ok h'" and "\<not> registered h' p" and "q \<noteq> p \<Longrightarrow> registered h' q = registered h q"
    and "length (hub_heap h') = length (hub_heap h)"
    and "q \<noteq> p \<Longrightarrow> hub_heap h' ! q = hub_heap h ! q"
proof -
  let ?u = "cl_UserID (hub_heap h ! p)"
  obtain ps where ps: "hub_clients h ?u = Some ps" "p \<in> set ps"
    and h': "h' = h\<lparr>hub_heap := (hub_heap h)[p := (hub_heap h ! p)\<lparr>cl_closed := True\<rparr>],
      hub_clients := (hub_clients h)(?u := if removeAll p ps = [] then None else Some (removeAll p ps))\<rparr>"
    using Unregister_registered [OF ok r] u by (metis option.inject)
  have p: "p < length (hub_heap h)" using r by (simp add: registered_def)
  have user: "cl_UserID (hub_heap h' ! q) = cl_UserID (hub_heap h ! q)" if "q < length (hub_heap h)" for q
    using that by (cases "q = p") (simp_all add: h')
  show len: "length (hub_heap h') = length (hub_heap h)" by (simp add: h')
  show nth: "hub_heap h' ! q = hub_heap h ! q" if "q \<noteq> p" for q using that by (simp add: h')
  have cl: "hub_clients h' v = (if v = ?u then if removeAll p ps = [] then None else Some (removeAll p ps) else hub_clients h v)" for v
    by (simp add: h')
  have reg: "registered h' q \<longleftrightarrow> q \<noteq> p \<and> registered h q" for q
  proof (cases "q < length (hub_heap h)")
    case True
    have none: "removeAll p ps = [] \<longleftrightarrow> set ps \<subseteq> {p}" by (induction ps) auto
    show ?thesis
    proof (cases "cl_UserID (hub_heap h ! q) = ?u")
      case same: True
      show ?thesis
        unfolding registered_def len user [OF True] cl same if_True using ps(1) none by auto
    next
      case False
      then show ?thesis unfolding registered_def len user [OF True] cl by auto
    qed
  qed (simp add: registered_def len)
  then show "\<not> registered h' p" and "q \<noteq> p \<Longrightarrow> registered h' q = registered h q" by simp_all
  show "hub_ok h'"
    unfolding hub_ok_def
  proof (intro conjI allI impI)
    fix v qs assume q: "hub_clients h' v = Some qs"
    have old: "\<exists>rs. hub_clients h v = Some rs \<and> set qs \<subseteq> set rs \<and> (distinct rs \<longrightarrow> distinct qs) \<and> qs \<noteq> []"
      using q ps hub_okD(1) [OF ok, of v] by (auto simp: cl distinct_removeAll split: if_splits)
    then show "qs \<noteq> []" "distinct qs" using hub_okD(2) [OF ok] by blast+
    show "\<forall>p \<in> set qs. p < length (hub_heap h') \<and> cl_UserID (hub_heap h' ! p) = v"
      using old hub_okD(3,4) [OF ok, of v] user len by (metis subsetD)
  next
    fix q assume "q < length (hub_heap h')"
    then have q: "q < length (hub_heap h)" by (simp add: len)
    show "length (cl_Send (hub_heap h' ! q)) \<le> send_buffer_size"
      using ok q by (cases "q = p") (auto simp: h' hub_ok_def)
    show "cl_closed (hub_heap h' ! q) = (\<not> registered h' q)"
      unfolding reg using ok q p by (cases "q = p") (auto simp: nth hub_ok_def, simp add: h')
  qed
qed

text \<open>From a state where the invariant holds, \<open>Unregister\<close> does not panic however often it is called for the
  same client: the first call takes the client out and closes its channel, the later ones
  change nothing, and no other client is touched.\<close>

theorem Unregister_idempotent:
  assumes "hub_ok h" and "p < length (hub_heap h)"
  shows "\<exists>h'. Unregister p h = Some h' \<and> hub_ok h' \<and> \<not> registered h' p \<and> Unregister p h' = Some h'
    \<and> (\<forall>q. q \<noteq> p \<longrightarrow> hub_heap h' ! q = hub_heap h ! q \<and> registered h' q = registered h q)"
proof (cases "registered h p")
  case True
  then obtain h' where u: "Unregister p h = Some h'" using Unregister_registered [OF assms(1)] by metis
  note f = Unregister_ok [OF assms(1) True u]
  have "Unregister p h' = Some h'" using Unregister_gone [OF f(1) _ f(2)] f(4) assms(2) by simp
  with u f show ?thesis by blast
next
  case False
  with Unregister_gone [OF assms False] assms(1) show ?thesis by blast
qed

subsection \<open>Broadcast\<close>

definition push :: "'m \<Rightarrow> 'm ws_Client \<Rightarrow> 'm ws_Client" where
  "push msg c = (if length (cl_Send c) < send_buffer_size then c\<lparr>cl_Send := cl_Send c @ [msg]\<rparr> else c)"

definition push_all :: "addr set \<Rightarrow> 'm \<Rightarrow> 'm Hub \<Rightarrow> 'm Hub" where
  "push_all S msg h = h\<lparr>hub_heap := map (\<lambda>p. if p \<in> S then push msg (hub_heap h ! p) else hub_heap h ! p)
     [0 ..< length (hub_heap h)]\<rparr>"

lemma push_all_sel [simp]:
  "length (hub_heap (push_all S msg h)) = length (hub_heap h)" "hub_clients (push_all S msg h) = hub_clients h"
  "p < length (hub_heap h) \<Longrightarrow>
    hub_heap (push_all S msg h) ! p = (if p \<in> S then push msg (hub_heap h ! p) else hub_heap h ! p)"
  by (simp_all add: push_all_def)

lemma push_sel [simp]: "cl_UserID (push msg c) = cl_UserID c" "cl_closed (push msg c) = cl_closed c"
  "length (cl_Send c) \<le> send_buffer_size \<Longrightarrow> length (cl_Send (push msg c)) \<le> send_buffer_size"
  by (simp_all add: push_def)

lemma broadcast_loop_eq:
  assumes "distinct ps" and "\<forall>p \<in> set ps. p < length (hub_heap h) \<and> \<not> cl_closed (hub_heap h ! p)"
  shows "broadcast_loop ps msg h = Some (push_all (set ps) msg h)"
  using assms
proof (induction ps arbitrary: h)
  case Nil
  have "map (\<lambda>p. hub_heap h ! p) [0 ..< length (hub_heap h)] = hub_heap h" by (rule map_nth)
  then show ?case by (simp add: push_all_def)
next
  case (Cons p ps)
  let ?h = "h\<lparr>hub_heap := (hub_heap h)[p := push msg (hub_heap h ! p)]\<rparr>"
  have "at_client p (try_send msg) h = Some ?h"
    using Cons.prems by (simp add: at_client_def try_send_def push_def)
  moreover have "broadcast_loop ps msg ?h = Some (push_all (set ps) msg ?h)"
    using Cons.prems by (intro Cons.IH) (auto simp: nth_list_update)
  moreover have "push_all (set ps) msg ?h = push_all (set (p # ps)) msg h"
    using Cons.prems by (auto simp: push_all_def nth_list_update intro!: map_cong)
  ultimately show ?case by simp
qed

definition clients_of :: "uuid \<Rightarrow> 'm Hub \<Rightarrow> addr set" where
  "clients_of u h = {p. registered h p \<and> cl_UserID (hub_heap h ! p) = u}"

lemma clients_of_eq:
  assumes "hub_ok h"
  shows "clients_of u h = set (case hub_clients h u of None \<Rightarrow> [] | Some ps \<Rightarrow> ps)"
proof (cases "hub_clients h u")
  case None
  then show ?thesis by (auto simp: clients_of_def registered_def)
next
  case (Some ps)
  have "p \<in> clients_of u h" if "p \<in> set ps" for p
    using hub_okD(3,4) [OF assms Some that] Some that by (simp add: clients_of_def registered_def)
  moreover have "p \<in> set ps" if "p \<in> clients_of u h" for p
    using that Some by (auto simp: clients_of_def registered_def)
  ultimately show ?thesis using Some by auto
qed

lemma Broadcast_eq:
  assumes "hub_ok h"
  shows "BroadcastToUser u msg h = Some (push_all (clients_of u h) msg h)"
proof (cases "hub_clients h u")
  case None
  then show ?thesis
    using broadcast_loop_eq [of "[]" h msg] clients_of_eq [OF assms, of u] by (simp add: BroadcastToUser_def)
next
  case (Some ps)
  then show ?thesis
    using broadcast_loop_eq [of ps h msg] clients_of_eq [OF assms, of u] hub_okD(2,3,5) [OF assms Some]
    by (simp add: BroadcastToUser_def)
qed

lemma push_all_ok:
  assumes "hub_ok h"
  shows "hub_ok (push_all S msg h)" and "registered (push_all S msg h) p = registered h p"
proof -
  show reg: "registered (push_all S msg h) p = registered h p" for p
    by (cases "p \<in> S") (auto simp: registered_def)
  show "hub_ok (push_all S msg h)"
    using assms unfolding hub_ok_def reg by (auto simp: push_all_sel)
qed

text \<open>\<open>BroadcastToUser\<close> never panics; it appends the message to the buffer of every client connected
  as the user that has room, leaves out those that are full, and touches no client of
  another user. The order in which the map is visited does not matter.\<close>

theorem Broadcast_delivers:
  assumes "hub_ok h"
  shows "\<exists>h'. BroadcastToUser u msg h = Some h' \<and> hub_ok h' \<and> hub_clients h' = hub_clients h
    \<and> (\<forall>p < length (hub_heap h). hub_heap h' ! p = (if registered h p \<and> cl_UserID (hub_heap h ! p) = u
          \<and> length (cl_Send (hub_heap h ! p)) < 16
        then (hub_heap h ! p)\<lparr>cl_Send := cl_Send (hub_heap h ! p) @ [msg]\<rparr> else hub_heap h ! p))
    \<and> (\<forall>ps qs. hub_clients h u = Some ps \<and> set qs = set ps \<and> distinct qs \<longrightarrow>
          broadcast_loop qs msg h = Some h')"
proof (intro exI conjI)
  show "BroadcastToUser u msg h = Some (push_all (clients_of u h) msg h)" by (rule Broadcast_eq [OF assms])
  show "hub_ok (push_all (clients_of u h) msg h)" by (rule push_all_ok(1) [OF assms])
  show "\<forall>ps qs. hub_clients h u = Some ps \<and> set qs = set ps \<and> distinct qs \<longrightarrow>
      broadcast_loop qs msg h = Some (push_all (clients_of u h) msg h)"
  proof (intro allI impI)
    fix ps qs assume q: "hub_clients h u = Some ps \<and> set qs = set ps \<and> distinct qs"
    then have "broadcast_loop qs msg h = Some (push_all (set qs) msg h)"
      using hub_okD(3,5) [OF assms, of u ps] by (intro broadcast_loop_eq) auto
    with q clients_of_eq [OF assms, of u] show "broadcast_loop qs msg h = Some (push_all (clients_of u h) msg h)" by simp
  qed
qed (auto simp: clients_of_def push_def send_buffer_size_def)

section \<open>Runs\<close>

text \<open>The operations of the listener and the connection handlers, in the order the mutex and the
  channels serialise them, with what the handlers' \<open>writeLoop\<close>s receive.\<close>

datatype 'm hub_op = OpRegister uuid | OpUnregister addr | OpBroadcast uuid 'm | OpReceive addr

fun hub_run :: "'m hub_op list \<Rightarrow> 'm Hub \<Rightarrow> ((addr \<times> 'm) list \<times> 'm Hub) option" where
  "hub_run [] h = Some ([], h)"
| "hub_run (OpRegister u # ops) h = hub_run ops (snd (Register u h))"
| "hub_run (OpUnregister p # ops) h = (case Unregister p h of None \<Rightarrow> None | Some h1 \<Rightarrow> hub_run ops h1)"
| "hub_run (OpBroadcast u m # ops) h = (case BroadcastToUser u m h of None \<Rightarrow> None | Some h1 \<Rightarrow> hub_run ops h1)"
| "hub_run (OpReceive p # ops) h =
    (case receive p h of
       (None, h1) \<Rightarrow> hub_run ops h1
     | (Some m, h1) \<Rightarrow> map_option (\<lambda>(rs, h2). ((p, m) # rs, h2)) (hub_run ops h1))"

text \<open>A handler can only unregister a client that \<open>Register\<close> returned to it.\<close>

fun well_addressed :: "nat \<Rightarrow> 'm hub_op list \<Rightarrow> bool" where
  "well_addressed n [] = True"
| "well_addressed n (OpRegister u # ops) = well_addressed (Suc n) ops"
| "well_addressed n (OpUnregister p # ops) = (p < n \<and> well_addressed n ops)"
| "well_addressed n (op # ops) = well_addressed n ops"

definition received :: "addr \<Rightarrow> (addr \<times> 'm) list \<Rightarrow> 'm list" where
  "received p rs = map snd (filter (\<lambda>(q, m). q = p) rs)"

fun sent_to :: "uuid \<Rightarrow> 'm hub_op list \<Rightarrow> 'm list" where
  "sent_to u [] = []"
| "sent_to u (OpBroadcast v m # ops) = (if v = u then m # sent_to u ops else sent_to u ops)"
| "sent_to u (op # ops) = sent_to u ops"

lemma received_Cons [simp]: "received p ((q, m) # rs) = (if q = p then m # received p rs else received p rs)"
  by (simp add: received_def)

lemma receive_ok:
  assumes "hub_ok h" and r: "receive p h = (r, h')"
  shows "hub_ok h'" and "length (hub_heap h') = length (hub_heap h)"
    and "q < length (hub_heap h) \<Longrightarrow> cl_UserID (hub_heap h' ! q) = cl_UserID (hub_heap h ! q)"
    and "q < length (hub_heap h) \<Longrightarrow> cl_Send (hub_heap h ! q)
      = (case r of Some m \<Rightarrow> if q = p then [m] else [] | None \<Rightarrow> []) @ cl_Send (hub_heap h' ! q)"
proof -
  have len: "length (hub_heap h') = length (hub_heap h)"
    using r by (auto simp: receive_def split: if_splits list.splits)
  then show "length (hub_heap h') = length (hub_heap h)" .
  have user: "cl_UserID (hub_heap h' ! q) = cl_UserID (hub_heap h ! q) \<and> cl_closed (hub_heap h' ! q) = cl_closed (hub_heap h ! q)"
    if "q < length (hub_heap h)" for q
    using r that by (cases "q = p") (auto simp: receive_def split: if_splits list.splits)
  have buf: "cl_Send (hub_heap h ! q) = (case r of Some m \<Rightarrow> if q = p then [m] else [] | None \<Rightarrow> []) @ cl_Send (hub_heap h' ! q)"
    if "q < length (hub_heap h)" for q
    using r that by (cases "q = p") (auto simp: receive_def split: if_splits list.splits)
  have cl: "hub_clients h' = hub_clients h" using r by (auto simp: receive_def split: if_splits list.splits)
  have reg: "registered h' q = registered h q" for q
    using user [of q] by (cases "q < length (hub_heap h)") (simp_all add: registered_def len cl)
  have le: "length (cl_Send (hub_heap h' ! q)) \<le> length (cl_Send (hub_heap h ! q))" if "q < length (hub_heap h)" for q
    using buf [OF that] by simp
  show "hub_ok h'"
    unfolding hub_ok_def cl len reg
  proof (intro conjI allI impI ballI)
    fix u ps q assume "hub_clients h u = Some ps"
    note d = hub_okD [OF assms(1) this]
    show "ps \<noteq> []" "distinct ps" by (rule d)+
    show "q \<in> set ps \<Longrightarrow> q < length (hub_heap h)" "q \<in> set ps \<Longrightarrow> cl_UserID (hub_heap h' ! q) = u"
      using d(3,4) user by blast+
  next
    fix q assume q: "q < length (hub_heap h)"
    show "length (cl_Send (hub_heap h' ! q)) \<le> send_buffer_size"
      using assms(1) q le [OF q] by (auto simp: hub_ok_def)
    show "cl_closed (hub_heap h' ! q) = (\<not> registered h q)"
      using assms(1) q user [OF q] by (auto simp: hub_ok_def)
  qed
  show "q < length (hub_heap h) \<Longrightarrow> cl_UserID (hub_heap h' ! q) = cl_UserID (hub_heap h ! q)" using user by blast
  show "q < length (hub_heap h) \<Longrightarrow> cl_Send (hub_heap h ! q)
      = (case r of Some m \<Rightarrow> if q = p then [m] else [] | None \<Rightarrow> []) @ cl_Send (hub_heap h' ! q)" by (rule buf)
qed

text \<open>What one run does for the client at \<open>p\<close>.\<close>

definition in_order :: "'m hub_op list \<Rightarrow> 'm Hub \<Rightarrow> (addr \<times> 'm) list \<Rightarrow> 'm Hub \<Rightarrow> addr \<Rightarrow> bool" where
  "in_order ops h rs h' p \<longleftrightarrow> p < length (hub_heap h') \<and> subseq (received p rs @ cl_Send (hub_heap h' ! p))
     (cl_Send (hub_heap h ! p) @ sent_to (cl_UserID (hub_heap h ! p)) ops)"

lemma Unregister_cases:
  assumes "hub_ok h" and "p < length (hub_heap h)"
  obtains h' where "Unregister p h = Some h'" and "hub_ok h'" and "length (hub_heap h') = length (hub_heap h)"
    and "\<And>q. q < length (hub_heap h) \<Longrightarrow> cl_Send (hub_heap h' ! q) = cl_Send (hub_heap h ! q)
      \<and> cl_UserID (hub_heap h' ! q) = cl_UserID (hub_heap h ! q)"
proof (cases "registered h p")
  case True
  then obtain ps where u: "Unregister p h = Some (h\<lparr>hub_heap := (hub_heap h)[p := (hub_heap h ! p)\<lparr>cl_closed := True\<rparr>],
      hub_clients := (hub_clients h)(cl_UserID (hub_heap h ! p) :=
        if removeAll p ps = [] then None else Some (removeAll p ps))\<rparr>)" (is "_ = Some ?h")
    using Unregister_registered [OF assms(1)] by metis
  have "cl_Send (hub_heap ?h ! q) = cl_Send (hub_heap h ! q) \<and> cl_UserID (hub_heap ?h ! q) = cl_UserID (hub_heap h ! q)"
    if "q < length (hub_heap h)" for q
    using that by (cases "q = p") simp_all
  with that [OF u Unregister_ok(1,4) [OF assms(1) True u]] show thesis by blast
next
  case False
  with that [OF Unregister_gone [OF assms False] assms(1)] show thesis by blast
qed

lemma hub_run_in_order:
  assumes "hub_ok h" and "well_addressed (length (hub_heap h)) ops"
  shows "\<exists>rs h'. hub_run ops h = Some (rs, h') \<and> hub_ok h' \<and> (\<forall>p < length (hub_heap h). in_order ops h rs h' p)"
  using assms
proof (induction ops h rule: hub_run.induct)
  case (1 h)
  then show ?case by (simp add: in_order_def received_def)
next
  case (2 u ops h)
  let ?h = "snd (Register u h)"
  have "hub_ok ?h" "well_addressed (length (hub_heap ?h)) ops"
    using 2 Register_ok(1) by (auto simp: Register_def Let_def)
  with 2(1) obtain rs h' where *: "hub_run ops ?h = Some (rs, h')" "hub_ok h'"
    "\<forall>p < length (hub_heap ?h). in_order ops ?h rs h' p" by blast
  have "in_order (OpRegister u # ops) h rs h' p" if p: "p < length (hub_heap h)" for p
  proof -
    have "p < length (hub_heap ?h)" "hub_heap ?h ! p = hub_heap h ! p"
      using p by (simp_all add: Register_def Let_def nth_append)
    with *(3) show ?thesis by (auto simp: in_order_def)
  qed
  with * show ?case by auto
next
  case (3 p ops h)
  then obtain h1 where u: "Unregister p h = Some h1" "hub_ok h1" "length (hub_heap h1) = length (hub_heap h)"
    and same: "\<And>q. q < length (hub_heap h) \<Longrightarrow> cl_Send (hub_heap h1 ! q) = cl_Send (hub_heap h ! q)
      \<and> cl_UserID (hub_heap h1 ! q) = cl_UserID (hub_heap h ! q)"
    by (auto elim: Unregister_cases)
  with 3(1) [OF u(1,2)] 3(3) obtain rs h' where *: "hub_run ops h1 = Some (rs, h')" "hub_ok h'"
    "\<forall>p < length (hub_heap h1). in_order ops h1 rs h' p" by auto
  have "in_order (OpUnregister p # ops) h rs h' q" if "q < length (hub_heap h)" for q
    using *(3) that u(3) same [OF that] by (auto simp: in_order_def)
  with * u(1) show ?case by auto
next
  case (4 u m ops h)
  let ?h = "push_all (clients_of u h) m h"
  have b: "BroadcastToUser u m h = Some ?h" by (rule Broadcast_eq [OF 4(2)])
  have ok: "hub_ok ?h" by (rule push_all_ok(1) [OF 4(2)])
  from 4(1) [OF b ok] 4(3) obtain rs h' where *: "hub_run ops ?h = Some (rs, h')" "hub_ok h'"
    "\<forall>p < length (hub_heap h). in_order ops ?h rs h' p" by auto
  have "in_order (OpBroadcast u m # ops) h rs h' p" if p: "p < length (hub_heap h)" for p
  proof -
    let ?c = "hub_heap h ! p" and ?s = "sent_to (cl_UserID (hub_heap h ! p)) ops"
    have i: "in_order ops ?h rs h' p" using *(3) p by blast
    have "subseq (cl_Send (hub_heap ?h ! p) @ ?s) (cl_Send ?c @ (if u = cl_UserID ?c then m # ?s else ?s))"
      using p by (auto simp: push_def clients_of_def subseq_append')
    then show ?thesis
      using i p by (auto simp: in_order_def intro: subseq_order.trans split: if_splits)
  qed
  with * b show ?case by auto
next
  case (5 p ops h)
  obtain r h1 where r: "receive p h = (r, h1)" by (cases "receive p h")
  note f = receive_ok [OF 5(3) r]
  have w: "well_addressed (length (hub_heap h1)) ops" using 5(4) f(2) by simp
  obtain rs h' where *: "hub_run ops h1 = Some (rs, h')" "hub_ok h'"
    "\<forall>p < length (hub_heap h1). in_order ops h1 rs h' p"
    by (cases r) (use 5(1,2) r f(1) w in fastforce)+
  show ?case
  proof (cases r)
    case None
    have "in_order (OpReceive p # ops) h rs h' q" if "q < length (hub_heap h)" for q
      using *(3) that f(2) f(3,4) [OF that] None by (auto simp: in_order_def)
    with * r None show ?thesis by auto
  next
    case (Some m)
    have "in_order (OpReceive p # ops) h ((p, m) # rs) h' q" if "q < length (hub_heap h)" for q
      using *(3) that f(2) f(3,4) [OF that] Some by (auto simp: in_order_def)
    with * r Some show ?thesis by auto
  qed
qed

text \<open>C21. Whatever the listener and the connection handlers do, in whatever order, the hub does not
  panic; what a client receives, and what waits in its buffer, is what was broadcast to its
  user, in order, with messages left out but never added, reordered or repeated.\<close>

theorem hub_delivery_order:
  assumes "hub_ok h" and "well_addressed (length (hub_heap h)) ops"
  shows "\<exists>rs h'. hub_run ops h = Some (rs, h') \<and> hub_ok h'
    \<and> (\<forall>p < length (hub_heap h). subseq (received p rs @ cl_Send (hub_heap h' ! p))
         (cl_Send (hub_heap h ! p) @ sent_to (cl_UserID (hub_heap h ! p)) ops))"
  using hub_run_in_order [OF assms] by (auto simp: in_order_def)

section \<open>A concrete hub\<close>

definition sample_hub :: "nat Hub" where
  "sample_hub = snd (Register 2 (snd (Register 1 NewHub)))"

lemma sample_hub_ok: "hub_ok sample_hub"
  unfolding sample_hub_def by (intro Register_ok hub_ok_NewHub)

lemma sample_hub_len [simp]: "length (hub_heap sample_hub) = 2"
  by (simp add: sample_hub_def Register_def NewHub_def Let_def)

theorem Unregister_idempotent_witness: "\<exists>h'. Unregister 1 sample_hub = Some h' \<and> \<not> registered h' 1 \<and> Unregister 1 h' = Some h'"
  using Unregister_idempotent [OF sample_hub_ok, of 1] by auto

theorem Broadcast_delivers_witness:
  "\<exists>h'. BroadcastToUser 1 (42::nat) sample_hub = Some h' \<and> cl_Send (hub_heap h' ! 0) = [42] \<and> cl_Send (hub_heap h' ! 1) = []"
  using Broadcast_delivers [OF sample_hub_ok, of 1 42]
  by (auto simp: registered_def) (auto simp: sample_hub_def Register_def NewHub_def newClient_def Let_def)

theorem hub_delivery_order_witness:
  "\<exists>rs h'. hub_run [OpBroadcast 1 7, OpReceive 0, OpUnregister 0, OpUnregister 0, OpBroadcast 1 8] sample_hub = Some (rs, h')
    \<and> hub_ok h'"
  using hub_delivery_order [OF sample_hub_ok,
      of "[OpBroadcast 1 7, OpReceive 0, OpUnregister 0, OpUnregister 0, OpBroadcast 1 8]"] by auto

end
