(* ===== verification/Listener.thy ===== *)
theory Listener
  imports Hub Job_Correct
begin

text \<open>
  The bridge from job events to browsers and metrics: \<open>src/api/internal/ws/listener.go\<close>, with the
  collectors of \<open>src/api/internal/metrics/metrics.go\<close>.

  A notification is the object the trigger of migration 000009 builds (\<open>notify_job_event\<close>);
  \<open>json.Unmarshal\<close> either gives it back or fails (\<open>None\<close>). The message a client gets is kept as the
  \<open>Event\<close> it encodes. \<open>None\<close> as a result is a panic: a send on a closed channel, or a negative
  amount added to a Prometheus counter. \<open>json.Marshal\<close> of the \<open>Event\<close> cannot fail: its payload and its time were just read from JSON. The
  counter of audio seconds is a real number; the rounding of its \<open>float64\<close> sums is not modelled.

  What is shown: every event row produces one notification, addressed to the owner of its
  job; handling it never panics when the audio duration is not negative; and the counters
  count exactly the events handled.
\<close>

section \<open>Metrics\<close>

record metrics =
  mt_JobsSubmittedTotal :: nat
  mt_JobsCompletedTotal :: "string \<Rightarrow> nat"
  mt_JobDurationSeconds :: "real list"
  mt_AudioSecondsProcessedTotal :: real

definition metrics_zero :: metrics where
  "metrics_zero = \<lparr>mt_JobsSubmittedTotal = 0, mt_JobsCompletedTotal = (\<lambda>_. 0), mt_JobDurationSeconds = [],
     mt_AudioSecondsProcessedTotal = 0\<rparr>"

definition terminalStatuses :: "string \<Rightarrow> bool" where
  "terminalStatuses s = (s = ''succeeded'' \<or> s = ''failed'' \<or> s = ''cancelled'')"

definition recordMetrics :: "notification \<Rightarrow> metrics \<Rightarrow> metrics option" where
  "recordMetrics n m =
    (if n_EventType n = ''created'' then Some (m\<lparr>mt_JobsSubmittedTotal := Suc (mt_JobsSubmittedTotal m)\<rparr>)
     else if \<not> terminalStatuses (n_EventType n) then Some m
     else
       let m1 = m\<lparr>mt_JobsCompletedTotal := (mt_JobsCompletedTotal m)(n_EventType n := Suc (mt_JobsCompletedTotal m (n_EventType n))),
                  mt_JobDurationSeconds := mt_JobDurationSeconds m @ [n_ElapsedSeconds n]\<rparr>
       in case n_DurationSeconds n of
            Some (Fin secs) \<Rightarrow>
              if n_EventType n = ''succeeded'' then
                if secs < 0 then None
                else Some (m1\<lparr>mt_AudioSecondsProcessedTotal := mt_AudioSecondsProcessedTotal m1 + secs\<rparr>)
              else Some m1
          | _ \<Rightarrow> Some m1)"

section \<open>The listener\<close>

record ws_Event =
  we_JobID :: uuid
  we_EventType :: string
  we_Payload :: bytes
  we_CreatedAt :: instant

definition event_of :: "notification \<Rightarrow> ws_Event" where
  "event_of n = \<lparr>we_JobID = n_JobID n, we_EventType = n_EventType n, we_Payload = n_Payload n, we_CreatedAt = n_CreatedAt n\<rparr>"

record ws_state =
  ws_hub :: "ws_Event Hub"
  ws_metrics :: metrics

text \<open>\<open>json.Unmarshal\<close> of what the trigger sent. Postgres writes a \<open>double precision\<close> that is not finite as a JSON string, which is no
  value for a \<open>*float64\<close>, so that notification is malformed for the listener.\<close>

definition decodes :: "notification \<Rightarrow> bool" where
  "decodes n \<longleftrightarrow> (case n_DurationSeconds n of Some x \<Rightarrow> x \<notin> {PosInf, NegInf, NaN} | None \<Rightarrow> True)"

definition Listener_handle :: "notification option \<Rightarrow> ws_state \<Rightarrow> ws_state option" where
  "Listener_handle payload s =
    (case payload of
       None \<Rightarrow> Some s
     | Some n \<Rightarrow>
         if \<not> decodes n then Some s else
         (case BroadcastToUser (n_UserID n) (event_of n) (ws_hub s) of
            None \<Rightarrow> None
          | Some h \<Rightarrow> map_option (\<lambda>m. \<lparr>ws_hub = h, ws_metrics = m\<rparr>) (recordMetrics n (ws_metrics s))))"

text \<open>What the pool and the connection answer: a connection that listens, or an error acquiring it or
  executing \<open>LISTEN\<close>; then notifications, an error of \<open>WaitForNotification\<close>, or cancellation.\<close>

datatype listen_event = Connected | ConnectErr | Notif "notification option" | WaitErr | Cancelled

fun listenOnce :: "listen_event list \<Rightarrow> ws_state \<Rightarrow> (listen_event list \<times> ws_state) option" where
  "listenOnce [] s = Some ([], s)"
| "listenOnce (Notif p # es) s = (case Listener_handle p s of None \<Rightarrow> None | Some s1 \<Rightarrow> listenOnce es s1)"
| "listenOnce (e # es) s = Some (if e = Cancelled then e # es else es, s)"

lemma listenOnce_length: "listenOnce es s = Some (es', s') \<Longrightarrow> length es' \<le> length es"
  by (induction es s rule: listenOnce.induct) (auto split: option.splits if_splits)

function Listener_Run :: "listen_event list \<Rightarrow> ws_state \<Rightarrow> ws_state option" where
  "Listener_Run [] s = Some s"
| "Listener_Run (Cancelled # es) s = Some s"
| "Listener_Run (Connected # es) s =
    (case listenOnce es s of None \<Rightarrow> None | Some (es1, s1) \<Rightarrow> Listener_Run es1 s1)"
| "Listener_Run (ConnectErr # es) s = Listener_Run es s"
| "Listener_Run (Notif p # es) s = Listener_Run es s"
| "Listener_Run (WaitErr # es) s = Listener_Run es s"
  by pat_completeness auto
termination
  by (relation "measure (\<lambda>(es, s). length es)") (auto dest: listenOnce_length)

section \<open>One notification per event, for the owner of its job\<close>

lemma notify_one:
  assumes "distinct (map job_ID (tbl_jobs d))" and "row_of d (ev_JobID e) = Some r"
  shows "notify_job_event e (tbl_jobs d) = [\<lparr>n_JobID = ev_JobID e, n_UserID = job_UserID r,
    n_EventType = ev_EventType e, n_Payload = ev_Payload e, n_CreatedAt = ev_CreatedAt e,
    n_DurationSeconds = job_DurationSeconds r,
    n_ElapsedSeconds = of_int (ev_CreatedAt e - job_CreatedAt r) / 10 ^ 9\<rparr>]"
proof -
  have "filter (\<lambda>j. job_ID j = ev_JobID e) (tbl_jobs d) = [r]"
    using filter_by_ID [OF assms(1), of "\<lambda>j. job_ID j = ev_JobID e" "ev_JobID e"] assms(2) row_of_ID [OF assms(2)]
    by simp
  then show ?thesis by (simp add: notify_job_event_def)
qed

text \<open>C22. From the event row to the browser: inserting an event for a job queues exactly one
  notification, addressed to the job's owner; when the listener handles it, no client of another
  user sees anything, and every client of the owner with room in its buffer gets the event, unless the audio duration stored for
  the job is not a finite number: then the notification cannot be decoded and nobody gets it.\<close>

theorem event_reaches_owner:
  assumes "schema_ok d" and q: "q_CreateJobEvent i jobID ty pl now d = (Inr e, d')" and "hub_ok (ws_hub s)"
  shows "\<exists>r n. row_of d jobID = Some r \<and> notify_queue d' = notify_queue d @ [n]
    \<and> n_UserID n = job_UserID r \<and> event_of n = \<lparr>we_JobID = jobID, we_EventType = ty, we_Payload = pl, we_CreatedAt = now\<rparr>
    \<and> (\<forall>s'. Listener_handle (Some n) s = Some s' \<longrightarrow> hub_ok (ws_hub s')
        \<and> (\<forall>p < length (hub_heap (ws_hub s)).
             cl_Send (hub_heap (ws_hub s') ! p) = cl_Send (hub_heap (ws_hub s) ! p)
               @ (if job_DurationSeconds r \<notin> {Some PosInf, Some NegInf, Some NaN}
                    \<and> registered (ws_hub s) p \<and> cl_UserID (hub_heap (ws_hub s) ! p) = job_UserID r
                    \<and> length (cl_Send (hub_heap (ws_hub s) ! p)) < 16 then [event_of n] else [])))"
proof -
  have ex: "\<exists>r \<in> set (tbl_jobs d). job_ID r = jobID"
    and e: "e = \<lparr>ev_ID = i, ev_JobID = jobID, ev_EventType = ty, ev_Payload = pl, ev_CreatedAt = now\<rparr>"
    and d': "d' = d\<lparr>tbl_job_events := tbl_job_events d @ [e], notify_queue := notify_queue d @ notify_job_event e (tbl_jobs d)\<rparr>"
    using q by (auto simp: q_CreateJobEvent_def Let_def split: if_splits)
  obtain r where r: "row_of d jobID = Some r" using ex by (cases "row_of d jobID") (auto simp: row_of_None)
  let ?n = "hd (notify_job_event e (tbl_jobs d))"
  have n: "notify_queue d' = notify_queue d @ [?n]" "n_UserID ?n = job_UserID r"
    "event_of ?n = \<lparr>we_JobID = jobID, we_EventType = ty, we_Payload = pl, we_CreatedAt = now\<rparr>"
    "decodes ?n \<longleftrightarrow> job_DurationSeconds r \<notin> {Some PosInf, Some NegInf, Some NaN}"
    using notify_one [OF schema_ok_distinct [OF assms(1)], of e r] r
    by (simp_all add: d' e event_of_def decodes_def split: option.split)
  have "hub_ok (ws_hub s') \<and> (\<forall>p < length (hub_heap (ws_hub s)).
       cl_Send (hub_heap (ws_hub s') ! p) = cl_Send (hub_heap (ws_hub s) ! p)
         @ (if job_DurationSeconds r \<notin> {Some PosInf, Some NegInf, Some NaN}
              \<and> registered (ws_hub s) p \<and> cl_UserID (hub_heap (ws_hub s) ! p) = job_UserID r
              \<and> length (cl_Send (hub_heap (ws_hub s) ! p)) < 16 then [event_of ?n] else []))"
    if "Listener_handle (Some ?n) s = Some s'" for s'
  proof (cases "decodes ?n")
    case False
    then show ?thesis using that n(4) assms(3) by (auto simp: Listener_handle_def)
  next
    case True
    have b: "ws_hub s' = push_all (clients_of (n_UserID ?n) (ws_hub s)) (event_of ?n) (ws_hub s)"
      using that True Broadcast_eq [OF assms(3)] by (auto simp: Listener_handle_def)
    show ?thesis
      unfolding b n(2) using push_all_ok(1) [OF assms(3)] True n(4) by (auto simp: clients_of_def push_def send_buffer_size_def)
  qed
  with r n(1-3) show ?thesis by blast
qed

section \<open>The counters\<close>

text \<open>The notifications a run handles.\<close>

fun listened :: "listen_event list \<Rightarrow> notification list" where
  "listened [] = []"
| "listened (Notif (Some n) # es) = (if decodes n then n # listened es else listened es)"
| "listened (Notif None # es) = listened es"
| "listened (e # es) = []"

definition metrics_count :: "notification list \<Rightarrow> metrics \<Rightarrow> metrics \<Rightarrow> bool" where
  "metrics_count ns m m' \<longleftrightarrow>
     mt_JobsSubmittedTotal m' = mt_JobsSubmittedTotal m + length (filter (\<lambda>n. n_EventType n = ''created'') ns)
     \<and> (\<forall>s. mt_JobsCompletedTotal m' s = mt_JobsCompletedTotal m s
          + (if terminalStatuses s then length (filter (\<lambda>n. n_EventType n = s) ns) else 0))
     \<and> mt_JobDurationSeconds m' = mt_JobDurationSeconds m
          @ map n_ElapsedSeconds (filter (\<lambda>n. terminalStatuses (n_EventType n)) ns)
     \<and> mt_AudioSecondsProcessedTotal m' = mt_AudioSecondsProcessedTotal m
          + (\<Sum>n \<leftarrow> filter (\<lambda>n. n_EventType n = ''succeeded'') ns. case n_DurationSeconds n of Some (Fin x) \<Rightarrow> x | _ \<Rightarrow> 0)"

definition duration_ok :: "notification \<Rightarrow> bool" where
  "duration_ok n \<longleftrightarrow> (case n_DurationSeconds n of Some (Fin x) \<Rightarrow> 0 \<le> x | _ \<Rightarrow> True)"

lemma recordMetrics_count:
  assumes "duration_ok n"
  shows "\<exists>m'. recordMetrics n m = Some m' \<and> metrics_count [n] m m'"
  using assms
  by (auto simp: recordMetrics_def metrics_count_def terminalStatuses_def duration_ok_def Let_def split: option.splits float64.splits)

lemma metrics_count_trans: "metrics_count ns m m1 \<Longrightarrow> metrics_count ms m1 m2 \<Longrightarrow> metrics_count (ns @ ms) m m2"
  by (auto simp: metrics_count_def)

lemma metrics_count_refl: "metrics_count [] m m"
  by (simp add: metrics_count_def)

lemma handle_count:
  assumes "hub_ok (ws_hub s)" and "duration_ok n" and "decodes n"
  obtains s' where "Listener_handle (Some n) s = Some s'" and "hub_ok (ws_hub s')"
    and "metrics_count [n] (ws_metrics s) (ws_metrics s')"
proof -
  obtain m' where m: "recordMetrics n (ws_metrics s) = Some m'" "metrics_count [n] (ws_metrics s) m'"
    using recordMetrics_count [OF assms(2)] by blast
  with Broadcast_eq [OF assms(1)] push_all_ok(1) [OF assms(1)] show thesis
    by (intro that [of "\<lparr>ws_hub = push_all (clients_of (n_UserID n) (ws_hub s)) (event_of n) (ws_hub s), ws_metrics = m'\<rparr>"])
      (auto simp: Listener_handle_def assms(3))
qed

text \<open>C23. While one connection listens, no notification makes the process panic as long as no audio
  duration is negative, and the counters show exactly what was handled: one submission per
  \<open>created\<close> event, one completion per terminal event under its status with its elapsed time, and the
  seconds of audio of the succeeded jobs.\<close>

theorem listener_counts:
  assumes "hub_ok (ws_hub s)" and "\<forall>n \<in> set (listened es). duration_ok n"
  shows "\<exists>es' s'. listenOnce es s = Some (es', s') \<and> hub_ok (ws_hub s')
    \<and> metrics_count (listened es) (ws_metrics s) (ws_metrics s')"
  using assms
proof (induction es s rule: listenOnce.induct)
  case (2 p es s)
  show ?case
  proof (cases "\<exists>n. p = Some n \<and> decodes n")
    case False
    then have "Listener_handle p s = Some s" "listened (Notif p # es) = listened es" by (cases p; simp add: Listener_handle_def)+
    with 2 show ?thesis by simp
  next
    case True
    then obtain n where Some: "p = Some n" "decodes n" by blast
    obtain s1 where s1: "Listener_handle p s = Some s1" "hub_ok (ws_hub s1)"
      "metrics_count [n] (ws_metrics s) (ws_metrics s1)"
      using handle_count [OF 2(2) _ Some(2)] 2(3) Some by auto
    with 2(1) [OF s1(1,2)] 2(3) Some metrics_count_trans [OF s1(3)] show ?thesis by fastforce
  qed
qed (simp_all add: metrics_count_refl)

section \<open>Concrete notifications\<close>

definition sample_notification :: notification where
  "sample_notification = \<lparr>n_JobID = 7, n_UserID = 1, n_EventType = ''succeeded'', n_Payload = ''{}'', n_CreatedAt = 9,
     n_DurationSeconds = Some (Fin 3), n_ElapsedSeconds = 4\<rparr>"

definition sample_ws :: ws_state where
  "sample_ws = \<lparr>ws_hub = snd (Register 1 NewHub), ws_metrics = metrics_zero\<rparr>"

lemma sample_ws_ok: "hub_ok (ws_hub sample_ws)"
  by (simp add: sample_ws_def Register_ok hub_ok_NewHub)

theorem listener_counts_witness:
  "\<exists>es' s'. listenOnce [Notif (Some sample_notification), WaitErr] sample_ws = Some (es', s')
    \<and> mt_JobsCompletedTotal (ws_metrics s') ''succeeded'' = 1 \<and> mt_AudioSecondsProcessedTotal (ws_metrics s') = 3"
  using listener_counts [OF sample_ws_ok, of "[Notif (Some sample_notification), WaitErr]"]
  by (auto simp: sample_notification_def duration_ok_def decodes_def metrics_count_def terminalStatuses_def sample_ws_def metrics_zero_def)

theorem event_reaches_owner_witness:
  "\<exists>r n. row_of (sample_db StatusQueued) 7 = Some r
    \<and> notify_queue (snd (q_CreateJobEvent 50 7 EventProgress ''{}'' 20 (sample_db StatusQueued))) = [n]
    \<and> n_UserID n = job_UserID r \<and> job_UserID r = 1"
proof -
  let ?e = "\<lparr>ev_ID = 50, ev_JobID = 7, ev_EventType = EventProgress, ev_Payload = ''{}'', ev_CreatedAt = 20\<rparr>"
  have q: "q_CreateJobEvent 50 7 EventProgress ''{}'' 20 (sample_db StatusQueued)
      = (Inr ?e, snd (q_CreateJobEvent 50 7 EventProgress ''{}'' 20 (sample_db StatusQueued)))"
    by (simp add: q_CreateJobEvent_def sample_db_def sample_job_def Let_def)
  have "notify_queue (sample_db StatusQueued) = []" "\<forall>r. row_of (sample_db StatusQueued) 7 = Some r \<longrightarrow> job_UserID r = 1"
    by (simp_all add: sample_db_def row_of_def sample_job_def)
  with event_reaches_owner [OF sample_schema q sample_ws_ok] show ?thesis by auto
qed

end
