(* ===== verification/Http_Routes.thy ===== *)
theory Http_Routes
  imports Http_Jobs
begin

text \<open>
  The other endpoints (\<open>src/api/internal/http/auth_handlers.go\<close>, \<open>ws_handlers.go\<close>, \<open>health_handlers.go\<close>), the
  middleware of \<open>src/api/internal/observability/middleware.go\<close>, and the router of \<open>src/api/internal/http/router.go\<close>.

  \<open>chi\<close> is outside the repository: the router is given a function that picks one of the registered routes for a
  request and the values of its path parameters. The CORS middleware is a parameter as well. A handler's response is one value: every handler
  of the repository writes it as its last act, so a panic comes before the header is written, never after.
\<close>

section \<open>The authentication endpoints\<close>

record RegisterRequest =
  rr_Email :: string
  rr_Password :: string

definition RegisterRequest_fields :: "RegisterRequest field list" where
  "RegisterRequest_fields = [str_field ''email'' (\<lambda>s r. r\<lparr>rr_Email := s\<rparr>), str_field ''password'' (\<lambda>s r. r\<lparr>rr_Password := s\<rparr>)]"

record LoginRequest =
  lr_Email :: string
  lr_Password :: string

definition LoginRequest_fields :: "LoginRequest field list" where
  "LoginRequest_fields = [str_field ''email'' (\<lambda>s r. r\<lparr>lr_Email := s\<rparr>), str_field ''password'' (\<lambda>s r. r\<lparr>lr_Password := s\<rparr>)]"

record RefreshRequest =
  fr_RefreshToken :: string

definition RefreshRequest_fields :: "RefreshRequest field list" where
  "RefreshRequest_fields = [str_field ''refresh_token'' (\<lambda>s r. r\<lparr>fr_RefreshToken := s\<rparr>)]"

record CreateAPIKeyRequest =
  kq_Name :: string

definition CreateAPIKeyRequest_fields :: "CreateAPIKeyRequest field list" where
  "CreateAPIKeyRequest_fields = [str_field ''name'' (\<lambda>s r. r\<lparr>kq_Name := s\<rparr>)]"

definition bad_body :: "request \<Rightarrow> (world, response) go" where
  "bad_body r = ret (WriteError r 400 ''invalid_request'' ''malformed request body'')"

definition token_response :: "nat \<Rightarrow> TokenPair \<Rightarrow> (world, response) go" where
  "token_response status pair = ret (WriteJSON status (TokenResponse (AccessToken pair) (RefreshToken pair)))"

definition AuthHandler_Register :: "http_lib \<Rightarrow> world auth_Service \<Rightarrow> handler" where
  "AuthHandler_Register H svc r = (case DecodeJSON RegisterRequest_fields \<lparr>rr_Email = [], rr_Password = []\<rparr> r of
     None \<Rightarrow> bad_body r
   | Some req \<Rightarrow>
       if rr_Email req = [] \<or> rr_Password req = [] then ret (WriteError r 400 ''invalid_request'' ''email and password are required'')
       else respond (auth_Register (hl_auth H) svc (rr_Email req) (rr_Password req))
         (\<lambda>err. if errors_Is err ErrEmailTaken then WriteError r 409 ''email_taken'' ''an account with this email already exists''
           else WriteError r 500 ''internal_error'' ''could not register user'')
         (\<lambda>u. respond (Login (hl_auth H) svc (rr_Email req) (rr_Password req))
           (\<lambda>_. WriteError r 500 ''internal_error'' ''registered but could not issue tokens'') (token_response 201)))"

definition AuthHandler_Login :: "http_lib \<Rightarrow> world auth_Service \<Rightarrow> handler" where
  "AuthHandler_Login H svc r = (case DecodeJSON LoginRequest_fields \<lparr>lr_Email = [], lr_Password = []\<rparr> r of
     None \<Rightarrow> bad_body r
   | Some req \<Rightarrow>
       respond (Login (hl_auth H) svc (lr_Email req) (lr_Password req))
         (\<lambda>err. if errors_Is err ErrInvalidCredentials then WriteError r 401 ''invalid_credentials'' ''invalid email or password''
           else WriteError r 500 ''internal_error'' ''could not log in'') (token_response 200))"

definition AuthHandler_Refresh :: "http_lib \<Rightarrow> world auth_Service \<Rightarrow> handler" where
  "AuthHandler_Refresh H svc r = (case DecodeJSON RefreshRequest_fields \<lparr>fr_RefreshToken = []\<rparr> r of
     None \<Rightarrow> bad_body r
   | Some req \<Rightarrow>
       respond (Refresh (hl_auth H) svc (fr_RefreshToken req))
         (\<lambda>err. if errors_Is err ErrInvalidCredentials then WriteError r 401 ''invalid_token'' ''invalid or expired refresh token''
           else WriteError r 500 ''internal_error'' ''could not refresh token'') (token_response 200))"

definition AuthHandler_Me :: "world auth_Service \<Rightarrow> handler" where
  "AuthHandler_Me svc r = with_user r (\<lambda>userID.
    respond (CurrentUser svc userID) (\<lambda>_. WriteError r 404 ''user_not_found'' ''user not found'')
      (\<lambda>u. ret (WriteJSON 200 (UserBody \<lparr>ur_ID = usr_ID u, ur_Email = usr_Email u, ur_CreatedAt = usr_CreatedAt u\<rparr>))))"

definition AuthHandler_CreateAPIKey :: "http_lib \<Rightarrow> world auth_Service \<Rightarrow> handler" where
  "AuthHandler_CreateAPIKey H svc r = with_user r (\<lambda>userID.
    case DecodeJSON CreateAPIKeyRequest_fields \<lparr>kq_Name = []\<rparr> r of
      None \<Rightarrow> bad_body r
    | Some req \<Rightarrow>
        if kq_Name req = [] then ret (WriteError r 400 ''invalid_request'' ''name is required'')
        else respond (CreateAPIKey (hl_auth H) svc userID (kq_Name req)) (\<lambda>_. WriteError r 500 ''internal_error'' ''could not create api key'')
          (\<lambda>(raw, key). ret (WriteJSON 201 (APIKeyCreated
             \<lparr>kc_ID = ak_ID key, kc_Name = ak_Name key, kc_Key = raw, kc_CreatedAt = ak_CreatedAt key\<rparr>))))"

definition AuthHandler_ListAPIKeys :: "world auth_Service \<Rightarrow> handler" where
  "AuthHandler_ListAPIKeys svc r = with_user r (\<lambda>userID.
    respond (ListAPIKeys svc userID) (\<lambda>_. WriteError r 500 ''internal_error'' ''could not list api keys'')
      (\<lambda>keys. ret (WriteJSON 200 (APIKeyList (map (\<lambda>k. \<lparr>kr_ID = ak_ID k, kr_Name = ak_Name k,
         kr_LastUsedAt = ak_LastUsedAt k, kr_CreatedAt = ak_CreatedAt k\<rparr>) keys)))))"

definition AuthHandler_RevokeAPIKey :: "http_lib \<Rightarrow> world auth_Service \<Rightarrow> handler" where
  "AuthHandler_RevokeAPIKey H svc r = with_user r (\<lambda>userID. with_param H r ''invalid api key id'' (\<lambda>keyID.
    respond (RevokeAPIKey svc userID keyID)
      (\<lambda>err. if errors_Is err ErrAPIKeyNotFound then WriteError r 404 ''api_key_not_found'' ''api key not found''
        else WriteError r 500 ''internal_error'' ''could not revoke api key'') (\<lambda>_. ret no_content)))"

section \<open>Tickets and health\<close>

definition CreateTicket :: "http_lib \<Rightarrow> TokenIssuer \<Rightarrow> handler" where
  "CreateTicket H tokens r = with_user r (\<lambda>userID.
    respond (with_now (hl_auth H) (\<lambda>now. IssueWSTicket (al_jwt (hl_auth H)) tokens now userID))
      (\<lambda>_. WriteError r 500 ''internal_error'' ''could not create ws ticket'') (\<lambda>ticket. ret (WriteJSON 200 (WSTicketResponse ticket))))"

text \<open>The checks of \<open>/readyz\<close> in the order the map is visited, which Go leaves open.\<close>

type_synonym Checker = "(world, unit) go"

definition Healthz :: handler where
  "Healthz r = ret (WriteJSON 200 (HealthBody ''ok''))"

fun run_checks :: "(string \<times> Checker) list \<Rightarrow> (world, (string \<times> error option) list) go" where
  "run_checks [] w = (Inr [], w)"
| "run_checks ((name, chk) # cs) w = (case chk w of
     (Inl (Panic p), w1) \<Rightarrow> (Inl (Panic p), w1)
   | (r, w1) \<Rightarrow> (case run_checks cs w1 of
       (Inl e, w2) \<Rightarrow> (Inl e, w2)
     | (Inr results, w2) \<Rightarrow> (Inr ((name, case r of Inl err \<Rightarrow> Some err | Inr _ \<Rightarrow> None) # results), w2)))"

definition Readyz :: "(string \<times> Checker) list \<Rightarrow> handler" where
  "Readyz checks r w = (case run_checks checks w of
     (Inl e, w1) \<Rightarrow> (Inl e, w1)
   | (Inr results, w1) \<Rightarrow>
       (Inr (WriteJSON (if list_all (\<lambda>(n, e). e = None) results then 200 else 503) (ReadyBody results)), w1))"

section \<open>Middleware of the whole server\<close>

definition RequestIDMiddleware :: "http_lib \<Rightarrow> handler \<Rightarrow> handler" where
  "RequestIDMiddleware H next r =
    (let hdr = rq_Header r ''X-Request-Id'';
         serve = (\<lambda>i w. case next (r\<lparr>rq_RequestID := i\<rparr>) w of
            (Inr rs, w1) \<Rightarrow> (Inr (rs\<lparr>rs_RequestID := i\<rparr>), w1) | (Inl e, w1) \<Rightarrow> (Inl e, w1))
     in if hdr = [] then (\<lambda>w. let (u, w1) = al_new (hl_auth H) w in serve (hl_uuid_String H u) w1) else serve hdr)"

text \<open>A line of the process's log. The logger writes to the standard output, which is not a part of the modelled world: it
  is a parameter, a function of the line and the world.\<close>

datatype log_line =
    HttpRequest string string nat int string
  | PanicRecovered string string string

type_synonym Logger = "log_line \<Rightarrow> world \<Rightarrow> world"

text \<open>\<open>time.Duration.Milliseconds()\<close> divides towards zero.\<close>

definition Milliseconds :: "int \<Rightarrow> int" where
  "Milliseconds d = sgn d * (\<bar>d\<bar> div 1000000)"

definition RequestLogger :: "http_lib \<Rightarrow> Logger \<Rightarrow> handler \<Rightarrow> handler" where
  "RequestLogger H logger next r w =
    (let (start, w1) = al_now (hl_auth H) w in
     case next r w1 of
       (Inl e, w2) \<Rightarrow> (Inl e, w2)
     | (Inr rs, w2) \<Rightarrow>
         let (now, w3) = al_now (hl_auth H) w2
         in (Inr rs, logger (HttpRequest (rq_Method r) (rq_Path r) (rs_Status rs) (Milliseconds (now - start)) (rq_RequestID r)) w3))"

definition Recoverer :: "Logger \<Rightarrow> handler \<Rightarrow> handler" where
  "Recoverer logger next r w = (case next r w of
     (Inl (Panic p), w1) \<Rightarrow> (Inr (WriteJSON 500 (ErrorBody
       \<lparr>ed_Code = ''internal_error'', ed_Message = ''an unexpected error occurred'', ed_RequestID = []\<rparr>)),
       logger (PanicRecovered p (rq_Path r) (rq_RequestID r)) w1)
   | res \<Rightarrow> res)"

section \<open>The router\<close>

record Deps =
  dp_Logger :: Logger
  dp_AuthSvc :: "world auth_Service"
  dp_Tokens :: TokenIssuer
  dp_JobSvc :: "world Service"
  dp_HealthCheck :: "(string \<times> Checker) list"
  dp_WSHandler :: handler

type_synonym route = "string \<times> string"

definition public_routes :: "http_lib \<Rightarrow> Deps \<Rightarrow> (route \<times> handler) list" where
  "public_routes H d =
    [((''GET'', ''/healthz''), Healthz), ((''GET'', ''/readyz''), Readyz (dp_HealthCheck d)), ((''GET'', ''/ws''), dp_WSHandler d),
     ((''POST'', ''/api/v1/auth/register''), AuthHandler_Register H (dp_AuthSvc d)),
     ((''POST'', ''/api/v1/auth/login''), AuthHandler_Login H (dp_AuthSvc d)),
     ((''POST'', ''/api/v1/auth/refresh''), AuthHandler_Refresh H (dp_AuthSvc d))]"

definition protected_routes :: "http_lib \<Rightarrow> Deps \<Rightarrow> (route \<times> handler) list" where
  "protected_routes H d =
    [((''GET'', ''/api/v1/me''), AuthHandler_Me (dp_AuthSvc d)),
     ((''POST'', ''/api/v1/api-keys''), AuthHandler_CreateAPIKey H (dp_AuthSvc d)),
     ((''GET'', ''/api/v1/api-keys''), AuthHandler_ListAPIKeys (dp_AuthSvc d)),
     ((''DELETE'', ''/api/v1/api-keys/{id}''), AuthHandler_RevokeAPIKey H (dp_AuthSvc d)),
     ((''POST'', ''/api/v1/ws-ticket''), CreateTicket H (dp_Tokens d)),
     ((''POST'', ''/api/v1/uploads''), CreateUpload H),
     ((''POST'', ''/api/v1/jobs''), JobHandler_Create H (dp_JobSvc d)),
     ((''GET'', ''/api/v1/jobs''), JobHandler_List H (dp_JobSvc d)),
     ((''GET'', ''/api/v1/jobs/{id}''), JobHandler_Get H (dp_JobSvc d)),
     ((''POST'', ''/api/v1/jobs/{id}/cancel''), JobHandler_Cancel H (dp_JobSvc d)),
     ((''POST'', ''/api/v1/jobs/{id}/retry''), JobHandler_Retry H (dp_JobSvc d)),
     ((''DELETE'', ''/api/v1/jobs/{id}''), JobHandler_Delete H (dp_JobSvc d)),
     ((''GET'', ''/api/v1/jobs/{id}/transcript''), JobHandler_GetTranscript H (dp_JobSvc d))]"

definition all_routes :: "http_lib \<Rightarrow> Deps \<Rightarrow> (route \<times> handler) list" where
  "all_routes H d = public_routes H d @
     map (\<lambda>(p, h). (p, RequireAuth H (dp_Tokens d) (dp_AuthSvc d) h)) (protected_routes H d)"

text \<open>What \<open>chi\<close> and \<open>go-chi/cors\<close> do: pick a route and its parameters, answer when there is none, wrap a handler.\<close>

record chi_lib =
  chi_match :: "route list \<Rightarrow> request \<Rightarrow> (route \<times> (string \<Rightarrow> string)) option"
  chi_NotFound :: handler
  cors_Handler :: "handler \<Rightarrow> handler"

definition dispatch :: "chi_lib \<Rightarrow> (route \<times> handler) list \<Rightarrow> handler" where
  "dispatch C routes r = (case chi_match C (map fst routes) r of
     None \<Rightarrow> chi_NotFound C r
   | Some (p, params) \<Rightarrow> (case map_of routes p of None \<Rightarrow> chi_NotFound C r | Some h \<Rightarrow> h (r\<lparr>rq_Param := params\<rparr>)))"

definition NewRouter :: "chi_lib \<Rightarrow> http_lib \<Rightarrow> Deps \<Rightarrow> handler" where
  "NewRouter C H d = RequestIDMiddleware H (RequestLogger H (dp_Logger d) (Recoverer (dp_Logger d)
    (cors_Handler C (dispatch C (all_routes H d)))))"

section \<open>Who gets through\<close>

text \<open>The identity a request proves: by an active API key, or else by a bearer token that verifies as an access token.\<close>

definition credential :: "jwt_lib \<Rightarrow> TokenIssuer \<Rightarrow> request \<Rightarrow> world \<Rightarrow> uuid \<Rightarrow> bool" where
  "credential J T r w u \<longleftrightarrow>
    (if rq_Header r ''X-API-Key'' \<noteq> []
     then \<exists>k \<in> set (tbl_api_keys (w_db w)). k_KeyHash k = HashAPIKey (rq_Header r ''X-API-Key'') \<and> k_RevokedAt k = None \<and> k_UserID k = u
     else \<exists>tok c. rq_Header r ''Authorization'' = ''Bearer '' @ tok \<and> tok \<noteq> [] \<and> Verify J T (time_of w) tok TokenTypeAccess = Inr c
       \<and> c_UserID c = u)"

definition same_but_keys :: "world \<Rightarrow> world \<Rightarrow> bool" where
  "same_but_keys w w' \<longleftrightarrow> (\<exists>ks. w_db w' = (w_db w)\<lparr>tbl_api_keys := ks\<rparr>) \<and> w_redis w' = w_redis w \<and> w_bucket w' = w_bucket w"

lemma AuthenticateAPIKey_frame:
  assumes "AuthenticateAPIKey (authSvc T) raw w = (res, w')"
  shows "same_but_keys w w'" and "res = Inl e \<Longrightarrow> w_db w' = w_db w"
proof -
  let ?get = "pg (q_GetAPIKeyByHash (HashAPIKey raw))"
  have ro: "snd (?get w) = after w (w_db w)"
    by (rule pg_read_only) (simp add: q_GetAPIKeyByHash_def)
  have t: "same_but_keys v (snd (APIKeyStore_TouchAPIKeyLastUsed i v))" for i v
    by (rule pg_cases [of "q_TouchAPIKeyLastUsed i" v])
      (auto simp: same_but_keys_def APIKeyStore_TouchAPIKeyLastUsed_def check_def q_TouchAPIKeyLastUsed_def intro: exI [of _ "tbl_api_keys (w_db v)"])
  have a: "same_but_keys w (after w (w_db w))" by (auto simp: same_but_keys_def intro: exI [of _ "tbl_api_keys (w_db w)"])
  have tr: "same_but_keys u v \<Longrightarrow> same_but_keys v x \<Longrightarrow> same_but_keys u x" for u v x by (auto simp: same_but_keys_def)
  obtain g where g: "?get w = (g, after w (w_db w))" using ro by (metis prod.collapse)
  show "same_but_keys w w'"
    using assms g a t tr by (cases g) (auto simp: AuthenticateAPIKey_def authSvc_def auth_NewService_def APIKeyStore_GetAPIKeyByHash_def check_def)
  show "res = Inl e \<Longrightarrow> w_db w' = w_db w"
    using assms g by (cases g) (auto simp: AuthenticateAPIKey_def authSvc_def auth_NewService_def APIKeyStore_GetAPIKeyByHash_def check_def)
qed

lemma AuthenticateAPIKey_no_panic: "fst (AuthenticateAPIKey (authSvc T) raw w) \<noteq> Inl (Panic p)"
  by (auto simp: AuthenticateAPIKey_def authSvc_def auth_NewService_def check_def split: prod.splits sum.splits)

lemma RequireAuth_outcome:
  assumes I: "inv_world w" and H: "hl_auth H = go_lib A J"
  shows "(\<exists>u w1. credential J T r w u \<and> RequireAuth H T (authSvc T) nxt r w = nxt (r\<lparr>rq_UserID := Some u\<rparr>) w1 \<and> same_but_keys w w1)
    \<or> (\<exists>msg w1. RequireAuth H T (authSvc T) nxt r w = (Inr (WriteError r 401 ''unauthorized'' msg), w1) \<and> w_db w1 = w_db w
        \<and> same_but_keys w w1 \<and> (answered w \<longrightarrow> (\<forall>u. \<not> credential J T r w u)))"
proof (cases "rq_Header r ''X-API-Key'' = []")
  case False
  let ?raw = "rq_Header r ''X-API-Key''"
  obtain res w1 where a: "AuthenticateAPIKey (authSvc T) ?raw w = (res, w1)" by (cases "AuthenticateAPIKey (authSvc T) ?raw w")
  have K: "api_keys_ok (w_db w)" using I by (simp add: inv_world_def schema_ok_parts)
  note d = promisesD [OF pgauth.Authenticate_spec I a [unfolded authSvc_def]]
  show ?thesis
  proof (cases res)
    case (Inr u)
    have "credential J T r w u"
      using d Inr False by (auto simp: credential_def active_key_def abs_auth_def stored_key_db [OF K])
    then show ?thesis
      using a Inr False AuthenticateAPIKey_frame(1) [OF a] by (auto simp: RequireAuth_def respond_def)
  next
    case (Inl e)
    have np: "e \<noteq> Panic p" for p using AuthenticateAPIKey_no_panic [of T ?raw w p] a Inl by simp
    have "\<not> credential J T r w u" if an: "answered w" for u
    proof
      assume "credential J T r w u"
      then obtain k where k: "k \<in> set (tbl_api_keys (w_db w))" "k_KeyHash k = HashAPIKey ?raw" "k_RevokedAt k = None"
        using False by (auto simp: credential_def)
      then have "key_of (w_db w) (k_ID k) = Some k" by (simp add: key_of_iff [OF K])
      from key_by_hash_answered [OF I an this, of ?raw T] k a Inl show False by simp
    qed
    moreover have "RequireAuth H T (authSvc T) nxt r w = (Inr (WriteError r 401 ''unauthorized'' ''invalid api key''), w1)"
      using False respond_Inl [of "AuthenticateAPIKey (authSvc T) ?raw", OF a [unfolded Inl] np] by (simp add: RequireAuth_def)
    ultimately show ?thesis using AuthenticateAPIKey_frame [OF a] Inl by blast
  qed
next
  case True
  let ?hdr = "rq_Header r ''Authorization''"
  have same: "same_but_keys w w" "same_but_keys w (w\<lparr>w_calls := Suc (w_calls w)\<rparr>)"
    by (auto simp: same_but_keys_def intro: exI [of _ "tbl_api_keys (w_db w)"])
  show ?thesis
  proof (cases "\<exists>tok. ?hdr = ''Bearer '' @ tok \<and> tok \<noteq> []")
    case False
    then have "CutPrefix ?hdr ''Bearer '' = None \<or> CutPrefix ?hdr ''Bearer '' = Some []"
      by (cases "CutPrefix ?hdr ''Bearer ''") (auto simp: CutPrefix_iff)
    then have "RequireAuth H T (authSvc T) nxt r w = (Inr (WriteError r 401 ''unauthorized'' ''missing bearer token or api key''), w)"
      using True by (auto simp: RequireAuth_def)
    moreover have "\<not> credential J T r w u" for u using True False by (auto simp: credential_def)
    ultimately show ?thesis using same(1) by blast
  next
    case tok: True
    then obtain tok where t: "?hdr = ''Bearer '' @ tok" "tok \<noteq> []" by blast
    then have c: "CutPrefix ?hdr ''Bearer '' = Some tok" by (simp only: CutPrefix_append)
    have un: "tok' = tok" if "?hdr = ''Bearer '' @ tok'" for tok' using that t(1) by simp
    have now: "with_now (go_lib A J) (\<lambda>now. Verify J T now tok TokenTypeAccess) w
        = (Verify J T (time_of w) tok TokenTypeAccess, w\<lparr>w_calls := Suc (w_calls w)\<rparr>)"
      by (simp add: with_now_def time_Now_def time_of_def)
    show ?thesis
    proof (cases "Verify J T (time_of w) tok TokenTypeAccess")
      case (Inr cl)
      then have "credential J T r w (c_UserID cl)" using True t by (auto simp: credential_def)
      moreover have "RequireAuth H T (authSvc T) nxt r w = nxt (r\<lparr>rq_UserID := Some (c_UserID cl)\<rparr>) (w\<lparr>w_calls := Suc (w_calls w)\<rparr>)"
        using True t(2) c now Inr by (simp add: RequireAuth_def respond_def H)
      ultimately show ?thesis using same(2) by blast
    next
      case (Inl e)
      then have e: "e = ErrInvalidToken" by (auto simp: Verify_def split: sum.splits if_splits)
      then have "RequireAuth H T (authSvc T) nxt r w
          = (Inr (WriteError r 401 ''unauthorized'' ''invalid or expired access token''), w\<lparr>w_calls := Suc (w_calls w)\<rparr>)"
        using True t(2) c now Inl by (simp add: RequireAuth_def respond_def H)
      moreover have "\<not> credential J T r w u" for u using True Inl un by (auto simp: credential_def)
      ultimately show ?thesis using same(2) by auto
    qed
  qed
qed

lemma route_disjoint: "p \<in> fst ` set (protected_routes H d) \<Longrightarrow> map_of (public_routes H d) p = None"
  by (auto simp: protected_routes_def public_routes_def)

lemma map_of_all_routes:
  assumes "p \<in> fst ` set (protected_routes H d)"
  shows "\<exists>h. map_of (protected_routes H d) p = Some h
    \<and> map_of (all_routes H d) p = Some (RequireAuth H (dp_Tokens d) (dp_AuthSvc d) h)"
proof -
  obtain h where h: "map_of (protected_routes H d) p = Some h" using assms by (cases "map_of (protected_routes H d) p") (auto simp: map_of_eq_None_iff)
  moreover have "map_of (map (\<lambda>(p, h). (p, RequireAuth H (dp_Tokens d) (dp_AuthSvc d) h)) (protected_routes H d)) p
      = map_option (RequireAuth H (dp_Tokens d) (dp_AuthSvc d)) (map_of (protected_routes H d) p)"
    by (simp add: map_of_map)
  ultimately show ?thesis using route_disjoint [OF assms] by (simp add: all_routes_def map_add_def)
qed

text \<open>C31. The protected routes are protected, in every world. When the router sends a request to one of them, either
  the request carries a credential and the handler runs with exactly the identity it proves, after
  nothing but the key's last use was recorded, or the answer is 401 and nothing changed. A request with a
  credential is refused only if a call failed.\<close>

theorem protected_route_outcome:
  assumes "inv_world w" and "hl_auth H = go_lib A J" and "dp_AuthSvc d = authSvc T" and "dp_Tokens d = T"
    and "chi_match C (map fst (all_routes H d)) r = Some (p, params)" and "p \<in> fst ` set (protected_routes H d)"
  shows "\<exists>h. map_of (protected_routes H d) p = Some h \<and>
    ((\<exists>u w1. credential J T r w u \<and> same_but_keys w w1
        \<and> dispatch C (all_routes H d) r w = h (r\<lparr>rq_Param := params, rq_UserID := Some u\<rparr>) w1)
     \<or> (\<exists>rs w1. dispatch C (all_routes H d) r w = (Inr rs, w1) \<and> rs_Status rs = 401 \<and> w_db w1 = w_db w \<and> same_but_keys w w1
        \<and> (answered w \<longrightarrow> (\<forall>u. \<not> credential J T r w u))))"
proof -
  obtain h where h: "map_of (protected_routes H d) p = Some h" "map_of (all_routes H d) p = Some (RequireAuth H T (authSvc T) h)"
    using map_of_all_routes [OF assms(6)] assms(3,4) by auto
  let ?r = "r\<lparr>rq_Param := params\<rparr>"
  have dis: "dispatch C (all_routes H d) r w = RequireAuth H T (authSvc T) h ?r w"
    using assms(5) h(2) by (simp add: dispatch_def)
  have cr: "credential J T ?r w u \<longleftrightarrow> credential J T r w u" for u by (simp add: credential_def)
  from RequireAuth_outcome [OF assms(1,2), where r = ?r and nxt = h and T = T, unfolded cr] show ?thesis
    using h(1) dis by auto
qed

definition toy_chi :: chi_lib where
  "toy_chi = \<lparr>chi_match = (\<lambda>routes r. if (rq_Method r, rq_Path r) \<in> set routes then Some ((rq_Method r, rq_Path r), \<lambda>_. []) else None),
     chi_NotFound = (\<lambda>r. ret (WriteError r 404 [] [])), cors_Handler = (\<lambda>h. h)\<rparr>"

definition sample_deps :: Deps where
  "sample_deps = \<lparr>dp_Logger = (\<lambda>_ w. w), dp_AuthSvc = authSvc sample_issuer, dp_Tokens = sample_issuer, dp_JobSvc = jobSvc, dp_HealthCheck = [],
     dp_WSHandler = Healthz\<rparr>"

definition me_request :: "string \<Rightarrow> request" where
  "me_request key = \<lparr>rq_Method = ''GET'', rq_Path = ''/api/v1/me'', rq_Header = (\<lambda>_. [])(''X-API-Key'' := key), rq_Query = (\<lambda>_. []),
     rq_Param = (\<lambda>_. []), rq_Body = None, rq_UserID = None, rq_RequestID = []\<rparr>"

theorem protected_route_outcome_witness:
  "(\<exists>w1. dispatch toy_chi (all_routes sample_http sample_deps) (me_request ''asrk_1'') auth_world =
      AuthHandler_Me (authSvc sample_issuer) ((me_request ''asrk_1'')\<lparr>rq_Param := (\<lambda>_. []), rq_UserID := Some 1\<rparr>) w1)
   \<and> (\<exists>rs w1. dispatch toy_chi (all_routes sample_http sample_deps) (me_request []) auth_world = (Inr rs, w1) \<and> rs_Status rs = 401)"
proof -
  have m: "chi_match toy_chi (map fst (all_routes sample_http sample_deps)) (me_request k) = Some ((''GET'', ''/api/v1/me''), \<lambda>_. [])" for k
    by (simp add: toy_chi_def me_request_def all_routes_def protected_routes_def)
  have p: "(''GET'', ''/api/v1/me'') \<in> fst ` set (protected_routes sample_http sample_deps)"
    by (simp add: protected_routes_def)
  have H: "hl_auth sample_http = go_lib toy_IDKey toy_jwt" by (simp add: sample_http_def)
  have d: "dp_AuthSvc sample_deps = authSvc sample_issuer" "dp_Tokens sample_deps = sample_issuer" by (simp_all add: sample_deps_def)
  have h: "map_of (protected_routes sample_http sample_deps) (''GET'', ''/api/v1/me'') = Some (AuthHandler_Me (authSvc sample_issuer))"
    by (simp add: protected_routes_def sample_deps_def)
  have c1: "credential toy_jwt sample_issuer (me_request ''asrk_1'') auth_world u \<longleftrightarrow> u = 1" for u
    by (auto simp: credential_def me_request_def auth_world_def auth_db_def auth_key_def)
  have c2: "\<not> credential toy_jwt sample_issuer (me_request []) auth_world u" for u
    by (auto simp: credential_def me_request_def)
  note out = protected_route_outcome [OF auth_world_inv H d m p]
  show ?thesis
  proof (rule conjI)
    show "\<exists>w1. dispatch toy_chi (all_routes sample_http sample_deps) (me_request ''asrk_1'') auth_world =
      AuthHandler_Me (authSvc sample_issuer) ((me_request ''asrk_1'')\<lparr>rq_Param := (\<lambda>_. []), rq_UserID := Some 1\<rparr>) w1"
      using out [of "''asrk_1''"] auth_world_ff unfolding h c1 by auto
    show "\<exists>rs w1. dispatch toy_chi (all_routes sample_http sample_deps) (me_request []) auth_world = (Inr rs, w1) \<and> rs_Status rs = 401"
      using out [of "[]"] c2 by auto
  qed
qed

section \<open>Every request is answered\<close>

text \<open>A piece of a handler that either answers or panics.\<close>

definition panics_only :: "(world, 'a) go \<Rightarrow> bool" where
  "panics_only m \<longleftrightarrow> (\<forall>w e w1. m w = (Inl e, w1) \<longrightarrow> (\<exists>p. e = Panic p))"

named_theorems panics_intros \<open>introduction rules for \<open>panics_only\<close>\<close>

lemma panics_only_ret [panics_intros]: "panics_only (ret x)"
  by (simp add: panics_only_def)

lemma panics_only_respond [panics_intros]: "(\<And>x. panics_only (k x)) \<Longrightarrow> panics_only (respond m f k)"
  by (fastforce simp: panics_only_def respond_def split: prod.splits sum.splits error.splits)

lemma panics_only_cases [panics_intros]:
  "panics_only a \<Longrightarrow> panics_only b \<Longrightarrow> panics_only (if c then a else b)"
  "panics_only n \<Longrightarrow> (\<And>x. panics_only (s x)) \<Longrightarrow> panics_only (case x' of None \<Rightarrow> n | Some x \<Rightarrow> s x)"
  "(\<And>x y. panics_only (k x y)) \<Longrightarrow> panics_only (case q of (x, y) \<Rightarrow> k x y)"
  by (auto split: option.splits prod.splits)

lemma panics_only_parts [panics_intros]:
  "(\<And>u. panics_only (k u)) \<Longrightarrow> panics_only (with_user r k)"
  "(\<And>i. panics_only (l i)) \<Longrightarrow> panics_only (with_param H r msg l)"
  "panics_only (bad_body r)"
  "panics_only (token_response n t)"
  by (auto simp: with_user_def with_param_def bad_body_def token_response_def intro!: panics_intros split: option.splits sum.splits)

lemmas handler_defs = AuthHandler_Me_def AuthHandler_CreateAPIKey_def AuthHandler_ListAPIKeys_def AuthHandler_RevokeAPIKey_def CreateTicket_def
  JobHandler_Create_def JobHandler_List_def JobHandler_Get_def JobHandler_Cancel_def JobHandler_Retry_def
  JobHandler_Delete_def JobHandler_GetTranscript_def Healthz_def AuthHandler_Register_def AuthHandler_Login_def AuthHandler_Refresh_def Let_def

lemma run_checks_panics: "panics_only (run_checks cs)"
proof (induction cs)
  case (Cons c cs)
  then show ?case
    by (cases c) (fastforce simp: panics_only_def split: prod.splits sum.splits error.splits)
qed (simp add: panics_only_def)

lemma Readyz_panics: "panics_only (Readyz checks r)"
  using run_checks_panics [of checks] by (auto simp: panics_only_def Readyz_def split: prod.splits sum.splits)

lemma CreateUpload_panics: "panics_only (CreateUpload H r)"
proof -
  have "panics_only (\<lambda>w. let (i, w1) = al_new (hl_auth H) w in respond (m i) f (\<lambda>u. ret (g i u)) w1)" for m :: "uuid \<Rightarrow> (world, string) go" and f g
    by (fastforce simp: panics_only_def respond_def split: prod.splits sum.splits error.splits)
  then show ?thesis unfolding CreateUpload_def Let_def by (intro panics_intros) simp_all
qed

lemma RequireAuth_panics: "(\<And>r. panics_only (h r)) \<Longrightarrow> panics_only (RequireAuth H T svc h r)"
  unfolding RequireAuth_def Let_def by (intro panics_intros)

lemma handlers_panic:
  "panics_only (Healthz r)" "panics_only (AuthHandler_Register H a r)" "panics_only (AuthHandler_Login H a r)"
  "panics_only (AuthHandler_Refresh H a r)" "panics_only (AuthHandler_Me a r)" "panics_only (AuthHandler_CreateAPIKey H a r)"
  "panics_only (AuthHandler_ListAPIKeys a r)" "panics_only (AuthHandler_RevokeAPIKey H a r)" "panics_only (CreateTicket H T r)"
  "panics_only (JobHandler_Create H s r)" "panics_only (JobHandler_List H s r)" "panics_only (JobHandler_Get H s r)"
  "panics_only (JobHandler_Cancel H s r)" "panics_only (JobHandler_Retry H s r)" "panics_only (JobHandler_Delete H s r)"
  "panics_only (JobHandler_GetTranscript H s r)"
  unfolding handler_defs by (intro panics_intros)+

lemma route_panics:
  assumes "\<And>r. panics_only (dp_WSHandler d r)"
  shows "list_all (\<lambda>(p, h). \<forall>r. panics_only (h r)) (all_routes H d)"
  using assms by (simp add: all_routes_def public_routes_def protected_routes_def handlers_panic Readyz_panics CreateUpload_panics RequireAuth_panics)

text \<open>What the code relies on in \<open>chi\<close>, \<open>cors\<close> and the WebSocket handler: their handlers answer, or panic.\<close>

definition chi_answers :: "chi_lib \<Rightarrow> bool" where
  "chi_answers C \<longleftrightarrow> (\<forall>r. panics_only (chi_NotFound C r)) \<and> (\<forall>h. (\<forall>r. panics_only (h r)) \<longrightarrow> (\<forall>r. panics_only (cors_Handler C h r)))"

text \<open>The world a request's handler starts in: after the request id and the time were read.\<close>

definition request_start :: "http_lib \<Rightarrow> request \<Rightarrow> world \<Rightarrow> world" where
  "request_start H r w = snd (al_now (hl_auth H) (if rq_Header r ''X-Request-Id'' = [] then snd (al_new (hl_auth H) w) else w))"

lemma dispatch_panics:
  assumes "\<And>r. panics_only (chi_NotFound C r)" and "list_all (\<lambda>(p, h). \<forall>r. panics_only (h r)) routes"
  shows "panics_only (dispatch C routes r)"
proof -
  have "panics_only (h r')" if "map_of routes p = Some h" for p h r'
    using map_of_SomeD [OF that] assms(2) by (auto simp: list_all_iff)
  then show ?thesis using assms(1) unfolding dispatch_def by (auto split: option.splits)
qed

lemma Recoverer_answers:
  assumes "panics_only (nxt r)"
  shows "\<exists>rs w1. Recoverer lg nxt r w = (Inr rs, w1) \<and> (case nxt r w of
     (Inl e, w0) \<Rightarrow> (\<exists>p. e = Panic p \<and> rs_Status rs = 500 \<and> w1 = lg (PanicRecovered p (rq_Path r) (rq_RequestID r)) w0)
   | (Inr rs0, w0) \<Rightarrow> rs = rs0 \<and> w1 = w0)"
  using assms by (fastforce simp: panics_only_def Recoverer_def split: prod.splits sum.splits)

text \<open>C39. Every request is answered and logged. Whatever the handlers, the database or the libraries do, a panic included, the router
  returns a response, which carries the caller's request id if there was one, and the last thing it does is to log one line with
  the method, the path, the id and the status of that very response. A panic of the handler becomes status 500, and is logged before.\<close>

theorem request_answered:
  assumes "chi_answers C" and "\<And>r. panics_only (dp_WSHandler d r)"
  shows "\<exists>rs i ms w2. NewRouter C H d r w = (Inr rs, dp_Logger d (HttpRequest (rq_Method r) (rq_Path r) (rs_Status rs) ms i) w2)
    \<and> rs_RequestID rs = i \<and> (rq_Header r ''X-Request-Id'' \<noteq> [] \<longrightarrow> i = rq_Header r ''X-Request-Id'')
    \<and> (case cors_Handler C (dispatch C (all_routes H d)) (r\<lparr>rq_RequestID := i\<rparr>) (request_start H r w) of
         (Inr rs0, w0) \<Rightarrow> rs = rs0\<lparr>rs_RequestID := i\<rparr> \<and> w2 = snd (al_now (hl_auth H) w0)
       | (Inl e, w0) \<Rightarrow> \<exists>p. e = Panic p \<and> rs_Status rs = 500 \<and> w2 = snd (al_now (hl_auth H) (dp_Logger d (PanicRecovered p (rq_Path r) i) w0)))"
proof -
  let ?h = "cors_Handler C (dispatch C (all_routes H d))"
  define go where "go i v = RequestLogger H (dp_Logger d) (Recoverer (dp_Logger d) ?h) (r\<lparr>rq_RequestID := i\<rparr>) v" for i v
  have pan: "panics_only (?h r)" for r
    using assms(1) dispatch_panics [OF _ route_panics [OF assms(2)]] by (simp add: chi_answers_def)
  have go: "\<exists>rs ms w2. go i v = (Inr rs, dp_Logger d (HttpRequest (rq_Method r) (rq_Path r) (rs_Status rs) ms i) w2)
      \<and> (case ?h (r\<lparr>rq_RequestID := i\<rparr>) (snd (al_now (hl_auth H) v)) of
         (Inr rs0, w0) \<Rightarrow> rs = rs0 \<and> w2 = snd (al_now (hl_auth H) w0)
       | (Inl e, w0) \<Rightarrow> \<exists>p. e = Panic p \<and> rs_Status rs = 500 \<and> w2 = snd (al_now (hl_auth H) (dp_Logger d (PanicRecovered p (rq_Path r) i) w0)))" for i v
    using Recoverer_answers [where nxt = ?h and r = "r\<lparr>rq_RequestID := i\<rparr>" and lg = "dp_Logger d" and w = "snd (al_now (hl_auth H) v)", OF pan]
    by (fastforce simp: go_def RequestLogger_def case_prod_beta split: sum.splits prod.splits)
  obtain i v where "NewRouter C H d r w = (case go i v of (Inr rs, w1) \<Rightarrow> (Inr (rs\<lparr>rs_RequestID := i\<rparr>), w1) | (Inl e, w1) \<Rightarrow> (Inl e, w1))"
    and "rq_Header r ''X-Request-Id'' \<noteq> [] \<longrightarrow> i = rq_Header r ''X-Request-Id''" and "request_start H r w = snd (al_now (hl_auth H) v)"
    by (cases "rq_Header r ''X-Request-Id'' = []") (auto simp: NewRouter_def RequestIDMiddleware_def go_def Let_def case_prod_beta request_start_def)
  with go [of i v] show ?thesis
    by (fastforce split: prod.splits sum.splits)
qed

definition crash_deps :: Deps where
  "crash_deps = sample_deps\<lparr>dp_Logger := (\<lambda>_ w. w\<lparr>w_calls := Suc (w_calls w)\<rparr>), dp_WSHandler := (\<lambda>r. fail (Panic ''nil map''))\<rparr>"

definition crash_request :: request where
  "crash_request = (me_request [])\<lparr>rq_Path := ''/ws'', rq_Header := (\<lambda>_. [])(''X-Request-Id'' := ''id-1'')\<rparr>"

lemma toy_chi_answers: "chi_answers toy_chi"
  by (simp add: chi_answers_def toy_chi_def panics_only_ret)

theorem request_answered_witness:
  "\<exists>rs w1. NewRouter toy_chi sample_http crash_deps crash_request auth_world = (Inr rs, w1) \<and> rs_Status rs = 500 \<and> rs_RequestID rs = ''id-1''"
proof -
  have d: "dispatch toy_chi (all_routes sample_http crash_deps) (crash_request\<lparr>rq_RequestID := i\<rparr>) v = (Inl (Panic ''nil map''), v)" for i v
    by (simp add: dispatch_def toy_chi_def crash_deps_def crash_request_def me_request_def all_routes_def public_routes_def)
  have ws: "panics_only (dp_WSHandler crash_deps r)" for r by (simp add: crash_deps_def panics_only_def)
  have cors: "cors_Handler toy_chi h = h" for h by (simp add: toy_chi_def)
  have hdr: "rq_Header crash_request ''X-Request-Id'' = ''id-1''" by (simp add: crash_request_def)
  show ?thesis
    using request_answered [OF toy_chi_answers ws, of sample_http crash_request auth_world] d by (auto simp: cors hdr)
qed

end
