(* ===== verification/Config_Load.thy ===== *)
theory Config_Load
  imports Go_Strings
begin

text \<open>
  \<open>src/api/internal/config/config.go\<close>: the configuration read from the environment, with
  \<open>strconv.ParseBool\<close> and \<open>time.ParseDuration\<close> modelled on every string.

  \<open>ParseDuration\<close> multiplies a fraction with its unit in \<open>float64\<close>; that product, rounded down, is the argument
  \<open>fl\<close>. Everything else is exact, overflow checks included.
\<close>

section \<open>Booleans and durations\<close>

definition ParseBool :: "string \<Rightarrow> bool option" where
  "ParseBool s = (if s \<in> {''1'', ''t'', ''T'', ''TRUE'', ''true'', ''True''} then Some True
     else if s \<in> {''0'', ''f'', ''F'', ''FALSE'', ''false'', ''False''} then Some False else None)"

text \<open>The units, in nanoseconds; a microsecond is written with a \<open>u\<close> or with either of two Greek letters, here in UTF-8.\<close>

definition unit_ns :: "string \<Rightarrow> nat option" where
  "unit_ns u = map_of [(''ns'', 1), (''us'', 1000), ([CHR 0xC2, CHR 0xB5, CHR ''s''], 1000), ([CHR 0xCE, CHR 0xBC, CHR ''s''], 1000),
     (''ms'', 10 ^ 6), (''s'', 10 ^ 9), (''m'', 60 * 10 ^ 9), (''h'', 3600 * 10 ^ 9)] u"

text \<open>Digits of an integer, with overflow as an error; digits of a fraction, where the rest is dropped on overflow.\<close>

fun leadingInt :: "nat \<Rightarrow> string \<Rightarrow> (nat \<times> string) option" where
  "leadingInt x [] = Some (x, [])"
| "leadingInt x (c # s) = (case char_digit c of None \<Rightarrow> Some (x, c # s)
     | Some k \<Rightarrow> if x > 2 ^ 63 div 10 \<or> 10 * x + k > 2 ^ 63 then None else leadingInt (10 * x + k) s)"

fun leadingFraction :: "bool \<Rightarrow> nat \<Rightarrow> nat \<Rightarrow> string \<Rightarrow> nat \<times> nat \<times> string" where
  "leadingFraction over x scale [] = (x, scale, [])"
| "leadingFraction over x scale (c # s) = (case char_digit c of None \<Rightarrow> (x, scale, c # s)
     | Some k \<Rightarrow> if over \<or> x > (2 ^ 63 - 1) div 10 \<or> 10 * x + k > 2 ^ 63 then leadingFraction True x scale s
         else leadingFraction False (10 * x + k) (10 * scale) s)"

lemma leadingInt_length: "leadingInt x s = Some (v, t) \<Longrightarrow> length t \<le> length s"
  by (induction x s rule: leadingInt.induct) (auto split: option.splits if_splits)

lemma leadingFraction_length: "leadingFraction ov x sc s = (f, sc', t) \<Longrightarrow> length t \<le> length s"
  by (induction ov x sc s rule: leadingFraction.induct) (auto split: option.splits if_splits)

definition unit_char :: "char \<Rightarrow> bool" where
  "unit_char c \<longleftrightarrow> \<not> (c = CHR ''.'' \<or> is_digit c)"

text \<open>One number with its unit: its value in nanoseconds and the rest.\<close>

definition duration_part :: "(nat \<Rightarrow> nat \<Rightarrow> nat \<Rightarrow> nat) \<Rightarrow> string \<Rightarrow> (nat \<times> string) option" where
  "duration_part fl s =
    (if s = [] \<or> unit_char (hd s) then None
     else case leadingInt 0 s of None \<Rightarrow> None
     | Some (v, s1) \<Rightarrow>
       let pre = (length s \<noteq> length s1);
           (f, scale, post, s2) = (case s1 of c # t \<Rightarrow> if c = CHR ''.'' then
               (case leadingFraction False 0 1 t of (f, scale, t') \<Rightarrow> (f, scale, length t \<noteq> length t', t')) else (0, 1, False, s1)
             | [] \<Rightarrow> (0, 1, False, s1));
           u = takeWhile unit_char s2; s3 = dropWhile unit_char s2
       in if \<not> pre \<and> \<not> post then None
          else if u = [] then None
          else case unit_ns u of None \<Rightarrow> None
          | Some n \<Rightarrow> if v > 2 ^ 63 div n then None
              else let v1 = v * n; v2 = (if f > 0 then (v1 + fl f n scale) mod 2 ^ 64 else v1)
                   in if f > 0 \<and> v2 > 2 ^ 63 then None else Some (v2, s3))"

lemma dropWhile_shorter: "takeWhile p s \<noteq> [] \<Longrightarrow> length (dropWhile p s) < length s"
  by (metis length_append length_greater_0_conv less_add_same_cancel2 takeWhile_dropWhile_id)

lemma duration_part_shorter: "duration_part fl s = Some (v, t) \<Longrightarrow> length t < length s"
proof -
  assume d: "duration_part fl s = Some (v, t)"
  then obtain v0 s1 where i: "leadingInt 0 s = Some (v0, s1)" by (auto simp: duration_part_def split: if_splits option.splits)
  have l1: "length s1 \<le> length s" using leadingInt_length [OF i] .
  obtain f scale post s2 where q: "(case s1 of c # t \<Rightarrow> if c = CHR ''.'' then
      (case leadingFraction False 0 1 t of (f, scale, t') \<Rightarrow> (f, scale, length t \<noteq> length t', t')) else (0, 1, False, s1)
    | [] \<Rightarrow> (0, 1, False, s1)) = (f, scale, post, s2)" by (rule prod_cases4)
  have l2: "length s2 \<le> length s1"
    using q leadingFraction_length by (auto split: list.splits if_splits prod.splits intro: le_SucI)
  have "t = dropWhile unit_char s2" "takeWhile unit_char s2 \<noteq> []"
    using d i q by (auto simp: duration_part_def Let_def split: if_splits option.splits)
  then show "length t < length s" using dropWhile_shorter [of unit_char s2] l1 l2 by simp
qed

text \<open>The sum is kept in 64 bits without a sign.\<close>

function duration_loop :: "(nat \<Rightarrow> nat \<Rightarrow> nat \<Rightarrow> nat) \<Rightarrow> nat \<Rightarrow> string \<Rightarrow> nat option" where
  "duration_loop fl d s = (if s = [] then Some d
     else case duration_part fl s of None \<Rightarrow> None
     | Some (v, t) \<Rightarrow> let d' = (d + v) mod 2 ^ 64 in if d' > 2 ^ 63 then None else duration_loop fl d' t)"
  by pat_completeness auto
termination by (relation "measure (\<lambda>(fl, d, s). length s)") (auto dest: duration_part_shorter)

declare duration_loop.simps [simp del]

definition ParseDuration :: "(nat \<Rightarrow> nat \<Rightarrow> nat \<Rightarrow> nat) \<Rightarrow> string \<Rightarrow> int option" where
  "ParseDuration fl orig =
    (let neg = (orig \<noteq> [] \<and> hd orig = CHR ''-'');
         s = (if orig \<noteq> [] \<and> (hd orig = CHR ''-'' \<or> hd orig = CHR ''+'') then tl orig else orig)
     in if s = ''0'' then Some 0
        else if s = [] then None
        else case duration_loop fl 0 s of None \<Rightarrow> None
        | Some d \<Rightarrow> if neg then Some (- int d) else if d > 2 ^ 63 - 1 then None else Some (int d))"

section \<open>Loading\<close>

record Config =
  cf_APIPort :: string
  cf_MetricsPort :: string
  cf_DatabaseURL :: string
  cf_RedisAddr :: string
  cf_S3Endpoint :: string
  cf_S3AccessKey :: string
  cf_S3SecretKey :: string
  cf_S3Bucket :: string
  cf_S3UseSSL :: bool
  cf_S3PublicEndpoint :: string
  cf_JWTSecret :: string
  cf_AccessTokenTTL :: int
  cf_RefreshTokenTTL :: int
  cf_CORSAllowedOrigins :: "string list"

type_synonym environ = "string \<Rightarrow> string"

definition requireEnv :: "environ \<Rightarrow> string \<Rightarrow> error + string" where
  "requireEnv env key = (let v = env key in
     if v = [] then Inl (ErrMsg (''config: missing required env var '' @ key)) else Inr v)"

definition optionalEnv :: "environ \<Rightarrow> string \<Rightarrow> string \<Rightarrow> string" where
  "optionalEnv env key fallback = (let v = env key in if v \<noteq> [] then v else fallback)"

definition orfail :: "error + 'a \<Rightarrow> ('a \<Rightarrow> error + 'b) \<Rightarrow> error + 'b" where
  "orfail m k = (case m of Inl e \<Rightarrow> Inl e | Inr x \<Rightarrow> k x)"

lemma orfail_simps [simp]: "orfail (Inl e) k = Inl e" "orfail (Inr x) k = k x"
  by (simp_all add: orfail_def)

definition requireEnvBool :: "environ \<Rightarrow> string \<Rightarrow> error + bool" where
  "requireEnvBool env key = orfail (requireEnv env key) (\<lambda>v. case ParseBool v of
     None \<Rightarrow> Inl (Errorf (''config: env var '' @ key @ '' must be a bool'') (ErrMsg ''invalid syntax'')) | Some b \<Rightarrow> Inr b)"

definition requireEnvDuration :: "(nat \<Rightarrow> nat \<Rightarrow> nat \<Rightarrow> nat) \<Rightarrow> environ \<Rightarrow> string \<Rightarrow> error + int" where
  "requireEnvDuration fl env key = orfail (requireEnv env key) (\<lambda>v. case ParseDuration fl v of
     None \<Rightarrow> Inl (Errorf (''config: env var '' @ key @ '' must be a duration'') (ErrMsg ''invalid duration'')) | Some d \<Rightarrow> Inr d)"

definition Load :: "(nat \<Rightarrow> nat \<Rightarrow> nat \<Rightarrow> nat) \<Rightarrow> environ \<Rightarrow> error + Config" where
  "Load fl env =
    orfail (requireEnv env ''API_PORT'') (\<lambda>port.
    orfail (requireEnv env ''METRICS_PORT'') (\<lambda>mport.
    orfail (requireEnv env ''DATABASE_URL'') (\<lambda>db.
    orfail (requireEnv env ''REDIS_ADDR'') (\<lambda>redis.
    orfail (requireEnv env ''S3_ENDPOINT'') (\<lambda>s3.
    orfail (requireEnv env ''S3_ACCESS_KEY'') (\<lambda>access.
    orfail (requireEnv env ''S3_SECRET_KEY'') (\<lambda>secret.
    orfail (requireEnv env ''S3_BUCKET'') (\<lambda>bucket.
    orfail (requireEnvBool env ''S3_USE_SSL'') (\<lambda>ssl.
    orfail (requireEnv env ''JWT_SECRET'') (\<lambda>jwt.
    orfail (requireEnvDuration fl env ''ACCESS_TOKEN_TTL'') (\<lambda>attl.
    orfail (requireEnvDuration fl env ''REFRESH_TOKEN_TTL'') (\<lambda>rttl.
    orfail (requireEnv env ''CORS_ALLOWED_ORIGINS'') (\<lambda>origins.
    Inr \<lparr>cf_APIPort = port, cf_MetricsPort = mport, cf_DatabaseURL = db, cf_RedisAddr = redis, cf_S3Endpoint = s3,
      cf_S3AccessKey = access, cf_S3SecretKey = secret, cf_S3Bucket = bucket, cf_S3UseSSL = ssl,
      cf_S3PublicEndpoint = optionalEnv env ''S3_PUBLIC_ENDPOINT'' s3, cf_JWTSecret = jwt, cf_AccessTokenTTL = attl,
      cf_RefreshTokenTTL = rttl, cf_CORSAllowedOrigins = split_on (CHR '','') origins\<rparr>)))))))))))))"

section \<open>Properties\<close>

lemma duration_loop_bound: "duration_loop fl d s = Some r \<Longrightarrow> d \<le> 2 ^ 63 \<Longrightarrow> r \<le> 2 ^ 63"
proof (induction fl d s rule: duration_loop.induct)
  case (1 fl d s)
  then show ?case by (subst (asm) (2) duration_loop.simps) (auto simp: Let_def split: if_splits option.splits)
qed

text \<open>A duration that is accepted is a 64-bit one, whatever the string.\<close>

lemma ParseDuration_bounds:
  assumes "ParseDuration fl s = Some d"
  shows "in_int64 d"
proof -
  have b: "r \<le> 2 ^ 63" if "duration_loop fl 0 t = Some r" for t r using duration_loop_bound [OF that] by simp
  have "d = 0 \<or> (\<exists>r. (\<exists>t. duration_loop fl 0 t = Some r) \<and> (d = - int r \<or> r \<le> 2 ^ 63 - 1 \<and> d = int r))"
    using assms by (auto simp: ParseDuration_def Let_def split: if_splits option.splits)
  then show ?thesis
  proof (elim disjE exE conjE)
    fix r t assume "duration_loop fl 0 t = Some r" "d = - int r"
    then show ?thesis using b [of t r] by (simp add: in_int64_def)
  next
    fix r t assume "r \<le> 2 ^ 63 - 1" "d = int r"
    then have "int r \<le> int (2 ^ 63 - 1)" by (simp only: of_nat_le_iff)
    then show ?thesis using \<open>d = int r\<close> by (simp add: in_int64_def)
  qed (simp add: in_int64_def)
qed

text \<open>The required variables in the order they are read, and when the value of one is acceptable.\<close>

definition required_vars :: "string list" where
  "required_vars = [''API_PORT'', ''METRICS_PORT'', ''DATABASE_URL'', ''REDIS_ADDR'', ''S3_ENDPOINT'', ''S3_ACCESS_KEY'', ''S3_SECRET_KEY'',
     ''S3_BUCKET'', ''S3_USE_SSL'', ''JWT_SECRET'', ''ACCESS_TOKEN_TTL'', ''REFRESH_TOKEN_TTL'', ''CORS_ALLOWED_ORIGINS'']"

definition var_ok :: "(nat \<Rightarrow> nat \<Rightarrow> nat \<Rightarrow> nat) \<Rightarrow> environ \<Rightarrow> string \<Rightarrow> bool" where
  "var_ok fl env k \<longleftrightarrow> env k \<noteq> []
     \<and> (k = ''S3_USE_SSL'' \<longrightarrow> ParseBool (env k) \<noteq> None)
     \<and> (k = ''ACCESS_TOKEN_TTL'' \<or> k = ''REFRESH_TOKEN_TTL'' \<longrightarrow> ParseDuration fl (env k) \<noteq> None)"

text \<open>The text of an error, and that it names a variable.\<close>

fun error_text :: "error \<Rightarrow> string" where
  "error_text (Errorf m e) = m"
| "error_text (ErrMsg m) = m"
| "error_text _ = []"

definition names_var :: "error \<Rightarrow> string \<Rightarrow> bool" where
  "names_var e k \<longleftrightarrow> (\<exists>pre post. error_text e = ''config: '' @ pre @ ''env var '' @ k @ post)"

lemma requireEnv_var: "requireEnv env k = (if env k \<noteq> [] then Inr (env k) else Inl (ErrMsg (''config: missing required env var '' @ k)))"
  by (simp add: requireEnv_def Let_def)

lemma names_missing [simp]: "names_var (ErrMsg (''config: missing required env var '' @ k)) k"
proof -
  have "error_text (ErrMsg (''config: missing required env var '' @ k)) = ''config: '' @ ''missing required '' @ ''env var '' @ k @ []" by simp
  then show ?thesis unfolding names_var_def by blast
qed

lemma names_malformed [simp]: "names_var (Errorf (''config: env var '' @ k @ t) e) k"
proof -
  have "error_text (Errorf (''config: env var '' @ k @ t) e) = ''config: '' @ [] @ ''env var '' @ k @ t" by simp
  then show ?thesis unfolding names_var_def by blast
qed

definition step_ok :: "error + 'a \<Rightarrow> bool \<Rightarrow> string \<Rightarrow> bool" where
  "step_ok m ok k \<longleftrightarrow> (case m of Inr _ \<Rightarrow> ok | Inl e \<Rightarrow> \<not> ok \<and> names_var e k)"

lemma requireEnv_step: "k \<notin> {''S3_USE_SSL'', ''ACCESS_TOKEN_TTL'', ''REFRESH_TOKEN_TTL''} \<Longrightarrow> step_ok (requireEnv env k) (var_ok fl env k) k"
  by (simp add: step_ok_def requireEnv_var var_ok_def del: append_Cons)

lemma requireEnvBool_step: "step_ok (requireEnvBool env ''S3_USE_SSL'') (var_ok fl env ''S3_USE_SSL'') ''S3_USE_SSL''"
  using names_malformed [of "''S3_USE_SSL''"] names_missing [of "''S3_USE_SSL''"]
  by (auto simp: step_ok_def requireEnvBool_def orfail_def requireEnv_var var_ok_def split: option.split)

lemma requireEnvDuration_step:
  "k \<in> {''ACCESS_TOKEN_TTL'', ''REFRESH_TOKEN_TTL''} \<Longrightarrow> step_ok (requireEnvDuration fl env k) (var_ok fl env k) k"
  using names_malformed [of k] names_missing [of k]
  by (auto simp: step_ok_def requireEnvDuration_def orfail_def requireEnv_var var_ok_def split: option.split)

lemma orfail_step:
  assumes "step_ok m (var_ok fl env k) k"
    and "\<And>x. m = Inr x \<Longrightarrow> (case find (\<lambda>k. \<not> var_ok fl env k) ks of None \<Rightarrow> P (f x) | Some k' \<Rightarrow> \<exists>e. f x = Inl e \<and> names_var e k')"
  shows "case find (\<lambda>k. \<not> var_ok fl env k) (k # ks) of None \<Rightarrow> P (orfail m f) | Some k' \<Rightarrow> \<exists>e. orfail m f = Inl e \<and> names_var e k'"
  using assms by (cases m) (auto simp: step_ok_def split: option.splits)

text \<open>C37. Configuration fails fast and says why: \<open>Load\<close> returns a configuration exactly when every required variable is set
  and well-formed, and otherwise an error whose text names the first variable, in the order they are read,
  that is missing or malformed. In a loaded configuration the secret and the endpoint that signs URLs are not
  empty and the lifetimes of the tokens are 64-bit durations that did not wrap around.\<close>

theorem Load_outcome:
  "case find (\<lambda>k. \<not> var_ok fl env k) required_vars of
     None \<Rightarrow> \<exists>cfg. Load fl env = Inr cfg \<and> cf_APIPort cfg = env ''API_PORT'' \<and> cf_JWTSecret cfg = env ''JWT_SECRET'' \<and> cf_JWTSecret cfg \<noteq> []
       \<and> cf_S3PublicEndpoint cfg \<noteq> [] \<and> ParseDuration fl (env ''ACCESS_TOKEN_TTL'') = Some (cf_AccessTokenTTL cfg)
       \<and> ParseDuration fl (env ''REFRESH_TOKEN_TTL'') = Some (cf_RefreshTokenTTL cfg)
       \<and> in_int64 (cf_AccessTokenTTL cfg) \<and> in_int64 (cf_RefreshTokenTTL cfg)
   | Some k \<Rightarrow> \<exists>e. Load fl env = Inl e \<and> names_var e k"
proof -
  let ?P = "\<lambda>r. \<exists>cfg. r = Inr cfg \<and> cf_APIPort cfg = env ''API_PORT'' \<and> cf_JWTSecret cfg = env ''JWT_SECRET'' \<and> cf_JWTSecret cfg \<noteq> []
       \<and> cf_S3PublicEndpoint cfg \<noteq> [] \<and> ParseDuration fl (env ''ACCESS_TOKEN_TTL'') = Some (cf_AccessTokenTTL cfg)
       \<and> ParseDuration fl (env ''REFRESH_TOKEN_TTL'') = Some (cf_RefreshTokenTTL cfg)
       \<and> in_int64 (cf_AccessTokenTTL cfg) \<and> in_int64 (cf_RefreshTokenTTL cfg)"
  have "case find (\<lambda>k. \<not> var_ok fl env k) required_vars of None \<Rightarrow> ?P (Load fl env) | Some k \<Rightarrow> \<exists>e. Load fl env = Inl e \<and> names_var e k"
    unfolding required_vars_def Load_def
    by (rule orfail_step [where P = ?P], simp add: requireEnv_step requireEnvBool_step requireEnvDuration_step)+
       (auto simp: requireEnv_var requireEnvDuration_def optionalEnv_def Let_def ParseDuration_bounds split: if_splits option.splits)
  then show ?thesis .
qed

end
