(* ===== verification/Ws_Handler.thy ===== *)
theory Ws_Handler
  imports Hub Http_Core
begin

text \<open>
  The WebSocket endpoint of \<open>src/api/internal/ws/handler.go\<close>: a session from the ticket to the close.

  \<open>websocket.Accept\<close>, \<open>url.Parse\<close> and the network are outside: whether the upgrade succeeds, the host of an origin, and
  what everybody else does to the hub while \<open>readLoop\<close> runs (the listener's broadcasts, the other handlers, and this
  connection's own \<open>writeLoop\<close>, which drains the client's channel) are arguments. \<open>None\<close> is a panic.
\<close>

definition NewHandler :: "(string \<Rightarrow> string option) \<Rightarrow> string list \<Rightarrow> string list" where
  "NewHandler url_Parse allowedOrigins =
    List.map_filter (\<lambda>origin. case url_Parse origin of Some host \<Rightarrow> if host \<noteq> [] then Some host else None | None \<Rightarrow> None) allowedOrigins"

datatype ws_outcome = Unauthorized | AcceptFailed | Served addr

definition ServeHTTP ::
  "jwt_lib \<Rightarrow> TokenIssuer \<Rightarrow> instant \<Rightarrow> bool \<Rightarrow> 'm hub_op list \<Rightarrow> request \<Rightarrow> 'm Hub \<Rightarrow> (ws_outcome \<times> (addr \<times> 'm) list \<times> 'm Hub) option" where
  "ServeHTTP J tokens now accepted ops r h =
    (case Verify J tokens now (rq_Query r ''ticket'') TokenTypeWSTicket of
       Inl err \<Rightarrow> Some (Unauthorized, [], h)
     | Inr claims \<Rightarrow>
         if \<not> accepted then Some (AcceptFailed, [], h)
         else let (client, h1) = Register (c_UserID claims) h in
           (case hub_run ops h1 of None \<Rightarrow> None
            | Some (rs, h2) \<Rightarrow> map_option (\<lambda>h3. (Served client, rs, h3)) (Unregister client h2)))"

lemma Register_shape:
  "fst (Register u h) = length (hub_heap h)" "length (hub_heap (snd (Register u h))) = Suc (length (hub_heap h))"
  "hub_heap (snd (Register u h)) ! length (hub_heap h) = newClient u"
  by (simp_all add: Register_def Let_def)

lemma Unregister_total:
  assumes "hub_ok h" and "p < length (hub_heap h)"
  shows "\<exists>h'. Unregister p h = Some h' \<and> hub_ok h' \<and> \<not> registered h' p"
proof (cases "registered h p")
  case True
  then obtain h' where "Unregister p h = Some h'" using Unregister_registered [OF assms(1) True] by blast
  then show ?thesis using Unregister_ok(1,2) [OF assms(1) True] by blast
next
  case False
  then show ?thesis using Unregister_gone [OF assms False] assms(1) by blast
qed

text \<open>C36. A WebSocket session, whatever the rest of the server does meanwhile. Nothing is registered unless the \<open>ticket\<close> parameter
  verifies as a WebSocket ticket (an access token does not) and the upgrade succeeds. A session never panics; when it ends its client is
  no longer registered and the hub is consistent, and all the client was sent is what was broadcast, in that order, to the
  user the ticket names.\<close>

theorem ws_session:
  assumes "hub_ok h" and "well_addressed (Suc (length (hub_heap h))) ops"
  shows "\<exists>out rs h'. ServeHTTP J tokens now accepted ops r h = Some (out, rs, h') \<and> hub_ok h' \<and>
    (case out of
       Served p \<Rightarrow> \<not> registered h p \<and> \<not> registered h' p \<and> (\<exists>c. Verify J tokens now (rq_Query r ''ticket'') TokenTypeWSTicket = Inr c
          \<and> subseq (received p rs) (sent_to (c_UserID c) ops))
     | _ \<Rightarrow> h' = h \<and> rs = [])"
proof (cases "Verify J tokens now (rq_Query r ''ticket'') TokenTypeWSTicket")
  case (Inl e)
  then show ?thesis using assms(1) by (auto simp: ServeHTTP_def)
next
  case (Inr c)
  show ?thesis
  proof (cases accepted)
    case False
    then show ?thesis using Inr assms(1) by (auto simp: ServeHTTP_def)
  next
    case True
    let ?p = "length (hub_heap h)" and ?h1 = "snd (Register (c_UserID c) h)"
    obtain rs h2 where run: "hub_run ops ?h1 = Some (rs, h2)" "hub_ok h2" and ord: "in_order ops ?h1 rs h2 ?p"
      using hub_run_in_order [OF Register_ok(1) [OF assms(1)], of "c_UserID c" ops] assms(2) by (auto simp: Register_shape)
    have sub: "subseq (received ?p rs @ cl_Send (hub_heap h2 ! ?p)) (sent_to (c_UserID c) ops)" and len: "?p < length (hub_heap h2)"
      using ord by (simp_all add: in_order_def Register_shape newClient_def)
    obtain h3 where un: "Unregister ?p h2 = Some h3" "hub_ok h3" "\<not> registered h3 ?p"
      using Unregister_total [OF run(2) len] by blast
    have "ServeHTTP J tokens now accepted ops r h = Some (Served ?p, rs, h3)"
      using Inr True run(1) un(1) by (simp add: ServeHTTP_def case_prod_beta Register_shape(1))
    moreover have "subseq (received ?p rs) (sent_to (c_UserID c) ops)" using sub by (metis prefixI prefix_imp_subseq subseq_order.trans)
    moreover have "\<not> registered h ?p" by (simp add: registered_def)
    ultimately show ?thesis using un Inr by auto
  qed
qed

definition sample_ticket :: string where
  "sample_ticket = toy_encode ''secret'' (issued_claims 1 TokenTypeWSTicket wsTicketTTL 0)"

definition ticket_request :: request where
  "ticket_request = \<lparr>rq_Method = ''GET'', rq_Path = ''/ws'', rq_Header = (\<lambda>_. []), rq_Query = (\<lambda>_. sample_ticket),
     rq_Param = (\<lambda>_. []), rq_Body = None, rq_UserID = None, rq_RequestID = ''x''\<rparr>"

lemma sample_ticket_issued: "issue toy_jwt sample_issuer 0 1 TokenTypeWSTicket wsTicketTTL = Inr sample_ticket"
  by (simp add: issue_def toy_jwt_def sample_issuer_def NewTokenIssuer_def sample_ticket_def)

lemma sample_ticket_accepted:
  "Verify toy_jwt sample_issuer 5 (rq_Query ticket_request ''ticket'') TokenTypeWSTicket = Inr (issued_claims 1 TokenTypeWSTicket wsTicketTTL 0)"
  using Verify_issued [OF toy_laws(1) _ sample_ticket_issued] by (simp add: numeric_date_def ticket_request_def wsTicketTTL_def)

theorem ws_session_witness:
  "case ServeHTTP toy_jwt sample_issuer 5 True [OpBroadcast 1 7, OpReceive 2, OpBroadcast 2 8, OpReceive 2] ticket_request sample_hub of
     Some (Served p, rs, h') \<Rightarrow> p = 2 \<and> \<not> registered h' 2 \<and> subseq (received 2 rs) [7::nat]
   | _ \<Rightarrow> False"
proof -
  let ?ops = "[OpBroadcast 1 7, OpReceive 2, OpBroadcast 2 8, OpReceive 2]" and ?run = "ServeHTTP toy_jwt sample_issuer 5 True"
  obtain out rs h' where *: "?run ?ops ticket_request sample_hub = Some (out, rs, h')"
    "case out of Served p \<Rightarrow> \<not> registered sample_hub p \<and> \<not> registered h' p \<and>
        (\<exists>c. Verify toy_jwt sample_issuer 5 (rq_Query ticket_request ''ticket'') TokenTypeWSTicket = Inr c
          \<and> subseq (received p rs) (sent_to (c_UserID c) ?ops)) | _ \<Rightarrow> h' = sample_hub \<and> rs = []"
    using ws_session [OF sample_hub_ok, where ops = ?ops and J = toy_jwt and tokens = sample_issuer and now = 5
        and accepted = True and r = ticket_request] by auto
  have "out = Served 2"
    using *(1) sample_ticket_accepted
    by (auto simp: ServeHTTP_def case_prod_beta Register_shape(1) split: option.splits)
  then show ?thesis using * sample_ticket_accepted by (auto simp: issued_claims_def)
qed

end
