(* ===== verification/Start_Up.thy ===== *)
theory Start_Up
  imports Http_Routes Config_Load Ws_Handler Lease_Store
begin

text \<open>
  Starting and stopping the API process: \<open>store.NewPool\<close>, \<open>objectstore.New\<close> and \<open>Ping\<close>, \<open>queue.MetricsCollector.Run\<close>, and \<open>run\<close> of
  \<open>src/api/cmd/api/main.go\<close>.

  The drivers (\<open>pgxpool\<close>, \<open>go-redis\<close>, \<open>minio-go\<close>, \<open>net/http\<close>, \<open>slog\<close>) are parameters; they answer with a value or an error. The WebSocket
  endpoint (\<open>Ws_Handler\<close>) enters as the handler it is for the router. The process keeps a trace of what it opens, starts, serves
  and closes, in the order it does so; a \<open>defer\<close> is an action at the end of the part of the function it covers, whatever
  that part returns. What happens to the process, up to the moment it is observed or returns, is a list of events: a server that returned an
  error, a signal, and the listener's taking a connection from the pool and giving it back. \<open>pgxpool\<close> documents \<open>Close\<close> as blocking until every
  connection is back in the pool; the listener keeps its connection while it waits for notifications, and only a lost connection or
  its context, which the deferred \<open>cancel\<close> ends, makes it give the connection back. The connections of the other users of
  the pool come back by themselves.
\<close>

section \<open>Drivers\<close>

record ('p, 'm) boot_lib =
  bl_pgxpool_New :: "string \<Rightarrow> (world, 'p) go"
  bl_pool_Ping :: "'p \<Rightarrow> (world, unit) go"
  bl_redis_Ping :: "string \<Rightarrow> (world, unit) go"
  bl_minio_New :: "string \<Rightarrow> string \<Rightarrow> string \<Rightarrow> bool \<Rightarrow> string \<Rightarrow> error + 'm"
  bl_BucketExists :: "'m \<Rightarrow> string \<Rightarrow> (world, bool) go"
  bl_MakeBucket :: "'m \<Rightarrow> string \<Rightarrow> string \<Rightarrow> (world, unit) go"
  bl_metrics_Shutdown :: "(world, unit) go"
  bl_server_Shutdown :: "(world, unit) go"
  bl_Logger :: Logger
  bl_url_Parse :: "string \<Rightarrow> string option"
  bl_ws_Handler :: "TokenIssuer \<Rightarrow> string list \<Rightarrow> handler"

datatype action = PoolOpened | PoolClosed | RedisOpened | RedisClosed | Cancelled | ReaperStarted | ListenerStarted
  | CollectorStarted | Serving string string Deps | MetricsStopped | ServerStopped | ClosingPool

type_synonym 'a proc = "(world \<times> action list, 'a) go"

definition act :: "action \<Rightarrow> 'b proc \<Rightarrow> 'b proc" where
  "act a k = (\<lambda>(w, tr). k (w, tr @ [a]))"

definition inside :: "(world, 'a) go \<Rightarrow> 'a proc" where
  "inside m = (\<lambda>(w, tr). case m w of (r, w1) \<Rightarrow> (r, (w1, tr)))"

text \<open>\<open>defer a\<close>, then the rest of the function. A function that has not returned (\<open>Inr None\<close>: it still waits) has run none of its
  deferred calls; a panic runs them.\<close>

definition deferring :: "action \<Rightarrow> 'a option proc \<Rightarrow> 'a option proc" where
  "deferring a m = (\<lambda>s. case m s of (Inr None, s1) \<Rightarrow> (Inr None, s1) | (r, (w, tr)) \<Rightarrow> (r, (w, tr @ [a])))"

datatype serve_event = ServeReturned error | StopSignal | ListenerAcquired | ListenerReleased

text \<open>Whether the listener has a connection at the end of the events.\<close>

definition listener_holds :: "serve_event list \<Rightarrow> bool" where
  "listener_holds events = fold (\<lambda>ev held. if ev = ListenerAcquired then True else if ev = ListenerReleased then False else held) events False"

text \<open>\<open>defer pool.Close()\<close>: the call waits while the listener that was started has a connection, and the function does not return meanwhile.\<close>

definition deferring_Close :: "serve_event list \<Rightarrow> 'a option proc \<Rightarrow> 'a option proc" where
  "deferring_Close events m = (\<lambda>s. case m s of
     (Inr None, s1) \<Rightarrow> (Inr None, s1)
   | (r, (w, tr)) \<Rightarrow> if ListenerStarted \<in> set tr \<and> listener_holds events then (Inr None, (w, tr @ [ClosingPool])) else (r, (w, tr @ [PoolClosed])))"

definition lift_sum :: "error + 'a \<Rightarrow> 'a proc" where
  "lift_sum x = (\<lambda>s. (x, s))"

section \<open>The clients\<close>

definition NewPool :: "('p, 'm) boot_lib \<Rightarrow> string \<Rightarrow> 'p proc" where
  "NewPool B databaseURL =
    check (inside (bl_pgxpool_New B databaseURL)) (Errorf ''store: create pool'') (\<lambda>pool.
    act PoolOpened (\<lambda>s. case inside (bl_pool_Ping B pool) s of
      (Inl err, s1) \<Rightarrow> act PoolClosed (fail (Errorf ''store: ping database'' err)) s1
    | (Inr _, s1) \<Rightarrow> ret pool s1))"

record objectstore_Config =
  oc_Endpoint :: string
  oc_AccessKey :: string
  oc_SecretKey :: string
  oc_Bucket :: string
  oc_UseSSL :: bool
  oc_PublicEndpoint :: string

record 'm objectstore_Client =
  ob_mc :: 'm
  ob_signer :: 'm
  ob_bucket :: string

definition minioRegion :: string where
  "minioRegion = ''us-east-1''"

definition objectstore_New :: "('p, 'm) boot_lib \<Rightarrow> objectstore_Config \<Rightarrow> 'm objectstore_Client proc" where
  "objectstore_New B cfg =
    check (lift_sum (bl_minio_New B (oc_Endpoint cfg) (oc_AccessKey cfg) (oc_SecretKey cfg) (oc_UseSSL cfg) minioRegion))
      (Errorf ''objectstore: create client'') (\<lambda>mc.
    check (inside (bl_BucketExists B mc (oc_Bucket cfg))) (Errorf ''objectstore: check bucket'') (\<lambda>exists.
    check (if \<not> exists then inside (bl_MakeBucket B mc (oc_Bucket cfg) minioRegion) else ret ()) (Errorf ''objectstore: create bucket'') (\<lambda>_.
    check (if oc_PublicEndpoint cfg \<noteq> oc_Endpoint cfg
           then lift_sum (bl_minio_New B (oc_PublicEndpoint cfg) (oc_AccessKey cfg) (oc_SecretKey cfg) (oc_UseSSL cfg) minioRegion)
           else ret mc) (Errorf ''objectstore: create presigning client'') (\<lambda>signer.
    ret \<lparr>ob_mc = mc, ob_signer = signer, ob_bucket = oc_Bucket cfg\<rparr>))))"

definition objectstore_Ping :: "('p, 'm) boot_lib \<Rightarrow> 'm objectstore_Client \<Rightarrow> (world, unit) go" where
  "objectstore_Ping B c = check (bl_BucketExists B (ob_mc c) (ob_bucket c)) (Errorf ''objectstore: ping'') (\<lambda>_. ret ())"

text \<open>The metrics collector: one refresh per tick, until the context is done; the groups are what \<open>XINFO GROUPS\<close> answers at each tick.\<close>

fun MetricsCollector_Run :: "(nat \<Rightarrow> string + XInfoGroup list) \<Rightarrow> nat \<Rightarrow> select_event list \<Rightarrow> int \<Rightarrow> int" where
  "MetricsCollector_Run answer n [] gauge = gauge"
| "MetricsCollector_Run answer n (CtxDone # es) gauge = gauge"
| "MetricsCollector_Run answer n (Tick # es) gauge = MetricsCollector_Run answer (Suc n) es (fst (refresh (answer n)))"

section \<open>The process\<close>

abbreviation ErrServerClosed :: error where "ErrServerClosed \<equiv> ErrIO ''http: Server closed''"

text \<open>The \<open>select\<close>: the first error that is not \<open>ErrServerClosed\<close>, or the signal; \<open>None\<close> while neither has come.\<close>

fun await :: "serve_event list \<Rightarrow> (error option) option" where
  "await [] = None"
| "await (StopSignal # es) = Some None"
| "await (ServeReturned err # es) = (if errors_Is err ErrServerClosed then await es else Some (Some err))"
| "await (ListenerAcquired # es) = await es"
| "await (ListenerReleased # es) = await es"

definition main_deps :: "('p, 'm) boot_lib \<Rightarrow> Config \<Rightarrow> 'p \<Rightarrow> 'm objectstore_Client \<Rightarrow> Deps" where
  "main_deps B cfg pool objects =
    (let tokens = NewTokenIssuer (cf_JWTSecret cfg) (cf_AccessTokenTTL cfg) (cf_RefreshTokenTTL cfg) in
     \<lparr>dp_Logger = bl_Logger B, dp_AuthSvc = authSvc tokens, dp_Tokens = tokens, dp_JobSvc = jobSvc,
      dp_HealthCheck = [(''postgres'', bl_pool_Ping B pool), (''redis'', bl_redis_Ping B (cf_RedisAddr cfg)), (''minio'', objectstore_Ping B objects)],
      dp_WSHandler = bl_ws_Handler B tokens (NewHandler (bl_url_Parse B) (cf_CORSAllowedOrigins cfg))\<rparr>)"

text \<open>From the open connections to the shutdown. The result is \<open>Inr None\<close> while the process serves.\<close>

definition serve :: "('p, 'm) boot_lib \<Rightarrow> Config \<Rightarrow> Deps \<Rightarrow> serve_event list \<Rightarrow> unit option proc" where
  "serve B cfg deps events =
    act ReaperStarted (act ListenerStarted (act CollectorStarted (act (Serving (cf_APIPort cfg) (cf_MetricsPort cfg) deps)
      (case await events of
         None \<Rightarrow> ret None
       | Some (Some err) \<Rightarrow> fail err
       | Some None \<Rightarrow>
           act MetricsStopped (ignore (inside (bl_metrics_Shutdown B))
           (act ServerStopped (check (inside (bl_server_Shutdown B)) id (\<lambda>_. ret (Some ())))))))))"

definition run :: "('p, 'm) boot_lib \<Rightarrow> (nat \<Rightarrow> nat \<Rightarrow> nat \<Rightarrow> nat) \<Rightarrow> environ \<Rightarrow> serve_event list \<Rightarrow> unit option proc" where
  "run B fl env events =
    check (lift_sum (Load fl env)) id (\<lambda>cfg.
    deferring Cancelled (
    check (NewPool B (cf_DatabaseURL cfg)) id (\<lambda>pool.
    deferring_Close events (
    act RedisOpened (deferring RedisClosed (
    check (inside (bl_redis_Ping B (cf_RedisAddr cfg))) id (\<lambda>_.
    check (objectstore_New B \<lparr>oc_Endpoint = cf_S3Endpoint cfg, oc_AccessKey = cf_S3AccessKey cfg, oc_SecretKey = cf_S3SecretKey cfg,
      oc_Bucket = cf_S3Bucket cfg, oc_UseSSL = cf_S3UseSSL cfg, oc_PublicEndpoint = cf_S3PublicEndpoint cfg\<rparr>) id (\<lambda>objects.
    serve B cfg (main_deps B cfg pool objects) events))))))))"

text \<open>\<open>main\<close>: the exit status, \<open>None\<close> while the process runs.\<close>

definition main_exit :: "('p, 'm) boot_lib \<Rightarrow> (nat \<Rightarrow> nat \<Rightarrow> nat \<Rightarrow> nat) \<Rightarrow> environ \<Rightarrow> serve_event list \<Rightarrow> world \<Rightarrow> nat option" where
  "main_exit B fl env events w = (case fst (run B fl env events (w, [])) of Inl err \<Rightarrow> Some 1 | Inr None \<Rightarrow> None | Inr (Some _) \<Rightarrow> Some 0)"

section \<open>What was opened is closed\<close>

text \<open>A stack discipline for the connections: each close must match the connection opened last. The result is what is still open.\<close>

fun unclosed :: "action list \<Rightarrow> action list \<Rightarrow> action list option" where
  "unclosed st [] = Some st"
| "unclosed st (PoolOpened # as) = unclosed (PoolOpened # st) as"
| "unclosed st (RedisOpened # as) = unclosed (RedisOpened # st) as"
| "unclosed (PoolOpened # st) (PoolClosed # as) = unclosed st as"
| "unclosed (RedisOpened # st) (RedisClosed # as) = unclosed st as"
| "unclosed st (PoolClosed # as) = None"
| "unclosed st (RedisClosed # as) = None"
| "unclosed st (a # as) = unclosed st as"

lemmas proc_defs = act_def inside_def deferring_def lift_sum_def check_def fail_def ret_def

lemma NewPool_trace:
  assumes "NewPool B url (w, tr) = (res, (w', tr'))"
  shows "(\<exists>e. res = Inl e) \<and> tr' \<in> {tr, tr @ [PoolOpened, PoolClosed]}
    \<or> (\<exists>pool v. res = Inr pool \<and> tr' = tr @ [PoolOpened] \<and> bl_pool_Ping B pool v = (Inr (), w'))"
  using assms by (auto simp: NewPool_def proc_defs split: prod.splits sum.splits)

text \<open>The bucket is there: the store says so, or it has just been made.\<close>

definition bucket_there :: "('p, 'm) boot_lib \<Rightarrow> string \<Rightarrow> bool" where
  "bucket_there B bucket \<longleftrightarrow> (\<exists>mc v v'. bl_BucketExists B mc bucket v = (Inr True, v') \<or> bl_MakeBucket B mc bucket minioRegion v = (Inr (), v'))"

lemma objectstore_New_trace:
  assumes "objectstore_New B cfg (w, tr) = (res, (w', tr'))"
  shows "tr' = tr" and "res = Inr c \<Longrightarrow> ob_bucket c = oc_Bucket cfg \<and> bucket_there B (oc_Bucket cfg)"
proof -
  show "tr' = tr" using assms by (auto simp: objectstore_New_def proc_defs split: prod.splits sum.splits if_splits)
  show "ob_bucket c = oc_Bucket cfg \<and> bucket_there B (oc_Bucket cfg)" if "res = Inr c"
    using assms that unfolding bucket_there_def by (auto simp: objectstore_New_def proc_defs split: prod.splits sum.splits if_splits)
qed

lemma await_cases:
  "await es = Some None \<Longrightarrow> StopSignal \<in> set es"
  "await es = Some (Some err) \<Longrightarrow> ServeReturned err \<in> set es \<and> \<not> errors_Is err ErrServerClosed"
  by (induction es rule: await.induct) (auto split: if_splits)

abbreviation background :: "action list" where
  "background \<equiv> [ReaperStarted, ListenerStarted, CollectorStarted]"

lemma serve_trace:
  assumes "serve B cfg d events (w, tr) = (res, (w', tr'))"
  shows "\<exists>stopped. tr' = tr @ background @ Serving (cf_APIPort cfg) (cf_MetricsPort cfg) d # stopped
     \<and> stopped = (if await events = Some None then [MetricsStopped, ServerStopped] else [])
     \<and> (res = Inr None \<longleftrightarrow> await events = None) \<and> (res = Inr (Some ()) \<longrightarrow> await events = Some None)
     \<and> (\<forall>err. await events = Some (Some err) \<longrightarrow> res = Inl err)"
  using assms by (auto simp: serve_def proc_defs split: prod.splits sum.splits option.splits)

text \<open>The four ways a run goes: no configuration; no pool; a connection that does not answer; or the process serves.\<close>

definition store_config :: "Config \<Rightarrow> objectstore_Config" where
  "store_config cfg = \<lparr>oc_Endpoint = cf_S3Endpoint cfg, oc_AccessKey = cf_S3AccessKey cfg, oc_SecretKey = cf_S3SecretKey cfg,
      oc_Bucket = cf_S3Bucket cfg, oc_UseSSL = cf_S3UseSSL cfg, oc_PublicEndpoint = cf_S3PublicEndpoint cfg\<rparr>"

definition dependencies_up :: "('p, 'm) boot_lib \<Rightarrow> Config \<Rightarrow> 'p \<Rightarrow> bool" where
  "dependencies_up B cfg pool \<longleftrightarrow> (\<exists>v v'. bl_pool_Ping B pool v = (Inr (), v')) \<and> (\<exists>v v'. bl_redis_Ping B (cf_RedisAddr cfg) v = (Inr (), v'))
     \<and> bucket_there B (cf_S3Bucket cfg)"

lemma deferring_trace:
  "deferring a m s = (res, (w', tr')) \<longleftrightarrow>
    (\<exists>tr1. m s = (res, (w', tr1)) \<and> tr' = tr1 @ (if res = Inr None then [] else [a]))"
  by (auto simp: deferring_def split: prod.splits sum.splits option.splits)

lemma deferring_Close_trace:
  "deferring_Close events m s = (res, (w', tr')) \<longleftrightarrow>
    (\<exists>r tr1. m s = (r, (w', tr1)) \<and>
      (if r = Inr None then res = Inr None \<and> tr' = tr1
       else if ListenerStarted \<in> set tr1 \<and> listener_holds events then res = Inr None \<and> tr' = tr1 @ [ClosingPool]
       else res = r \<and> tr' = tr1 @ [PoolClosed]))"
  by (auto simp: deferring_Close_def split: prod.splits sum.splits option.splits)

lemma check_trace:
  "check m id k s = (res, x) \<longleftrightarrow> (\<exists>e. m s = (Inl e, x) \<and> res = Inl e) \<or> (\<exists>y s1. m s = (Inr y, s1) \<and> k y s1 = (res, x))"
  by (auto simp: check_def split: prod.splits sum.splits)

lemma inside_trace: "inside m (w, tr) = (res, (w', tr')) \<longleftrightarrow> m w = (res, w') \<and> tr' = tr"
  by (auto simp: inside_def split: prod.splits)

text \<open>The end of a run that has served, by what the \<open>select\<close> got.\<close>

definition shutdown_trace :: "serve_event list \<Rightarrow> action list" where
  "shutdown_trace events = (case await events of None \<Rightarrow> []
   | Some stop \<Rightarrow> (if stop = None then [MetricsStopped, ServerStopped] else []) @ [RedisClosed]
       @ (if listener_holds events then [ClosingPool] else [PoolClosed, Cancelled]))"

definition shutdown_result :: "serve_event list \<Rightarrow> error + unit option \<Rightarrow> bool" where
  "shutdown_result events res \<longleftrightarrow> (case await events of None \<Rightarrow> res = Inr None
   | Some stop \<Rightarrow> if listener_holds events then res = Inr None
       else (case stop of Some err \<Rightarrow> res = Inl err | None \<Rightarrow> res \<noteq> Inr None))"

lemma run_trace:
  assumes "run B fl env events (w, []) = (res, (w', tr))"
  shows "(\<exists>e. Load fl env = Inl e \<and> res = Inl e \<and> tr = [])
    \<or> (\<exists>cfg e. Load fl env = Inr cfg \<and> res = Inl e \<and> tr \<in> {[Cancelled], [PoolOpened, PoolClosed, Cancelled],
         [PoolOpened, RedisOpened, RedisClosed, PoolClosed, Cancelled]})
    \<or> (\<exists>cfg pool objects. Load fl env = Inr cfg \<and> dependencies_up B cfg pool
         \<and> tr = [PoolOpened, RedisOpened] @ background @ [Serving (cf_APIPort cfg) (cf_MetricsPort cfg) (main_deps B cfg pool objects)]
             @ shutdown_trace events \<and> shutdown_result events res)"
proof (cases "Load fl env")
  case (Inl e)
  then show ?thesis using assms by (simp add: run_def lift_sum_def check_def)
next
  case (Inr cfg)
  let ?serving = "\<lambda>pool s. check (inside (bl_redis_Ping B (cf_RedisAddr cfg))) id (\<lambda>_.
      check (objectstore_New B (store_config cfg)) id (\<lambda>objects. serve B cfg (main_deps B cfg pool objects) events)) s"
  obtain tr1 where p: "check (NewPool B (cf_DatabaseURL cfg)) id (\<lambda>pool. deferring_Close events (act RedisOpened (deferring RedisClosed (?serving pool)))) (w, [])
      = (res, (w', tr1))" and tr: "tr = tr1 @ (if res = Inr None then [] else [Cancelled])"
    using assms Inr by (auto simp: run_def store_config_def check_trace lift_sum_def deferring_trace)
  consider (nopool) e where "NewPool B (cf_DatabaseURL cfg) (w, []) = (Inl e, (w', tr1))" "res = Inl e"
    | (pool) pool w1 trp where "NewPool B (cf_DatabaseURL cfg) (w, []) = (Inr pool, (w1, trp))"
        "deferring_Close events (act RedisOpened (deferring RedisClosed (?serving pool))) (w1, trp) = (res, (w', tr1))"
    using p by (auto simp: check_trace)
  then show ?thesis
  proof cases
    case nopool
    then show ?thesis using NewPool_trace [OF nopool(1)] tr Inr by auto
  next
    case pool
    from NewPool_trace [OF pool(1)] obtain v where v: "trp = [PoolOpened]" "bl_pool_Ping B pool v = (Inr (), w1)" by auto
    obtain r tr2 where s: "?serving pool (w1, [PoolOpened, RedisOpened]) = (r, (w', tr2))"
      and tr1: "if r = Inr None then res = Inr None \<and> tr1 = tr2
        else if ListenerStarted \<in> set tr2 \<and> listener_holds events then res = Inr None \<and> tr1 = tr2 @ [RedisClosed, ClosingPool]
        else res = r \<and> tr1 = tr2 @ [RedisClosed, PoolClosed]"
      using pool(2) v(1) by (auto simp: deferring_Close_trace deferring_trace act_def split: if_splits)
    consider (failed) e where "r = Inl e" "tr2 = [PoolOpened, RedisOpened]"
      | (up) w2 w3 objects where "bl_redis_Ping B (cf_RedisAddr cfg) w1 = (Inr (), w2)"
          "objectstore_New B (store_config cfg) (w2, [PoolOpened, RedisOpened]) = (Inr objects, (w3, [PoolOpened, RedisOpened]))"
          "serve B cfg (main_deps B cfg pool objects) events (w3, [PoolOpened, RedisOpened]) = (r, (w', tr2))"
      using s objectstore_New_trace(1) by (fastforce simp: check_trace inside_trace)
    then show ?thesis
    proof cases
      case failed
      then show ?thesis using tr tr1 Inr by auto
    next
      case up
      have "dependencies_up B cfg pool"
        using v(2) up(1) objectstore_New_trace(2) [OF up(2) refl] by (auto simp: dependencies_up_def store_config_def)
      moreover have "tr = [PoolOpened, RedisOpened] @ background @ [Serving (cf_APIPort cfg) (cf_MetricsPort cfg) (main_deps B cfg pool objects)]
          @ shutdown_trace events" "shutdown_result events res"
        using serve_trace [OF up(3)] tr tr1 by (auto simp: shutdown_trace_def shutdown_result_def split: option.splits if_splits)
      ultimately show ?thesis using Inr by blast
    qed
  qed
qed

text \<open>C40. The process starts completely or not at all. Without a configuration nothing is opened and the error of
  \<open>Load\<close> is returned. The servers start only when the database, Redis and the bucket of the loaded configuration answered, on its ports and
  with its secret; otherwise an error is returned, and what was opened was closed, the last one first. Once it serves, both connections are
  open until a server fails or a signal comes. Then \<open>run\<close> closes the connections and returns, with the server's error or after stopping both servers,
  exactly when the listener does not hold a connection of the pool; while it holds one, \<open>run\<close> is stuck in the deferred \<open>Close\<close>, and
  the listener's context, whose \<open>cancel\<close> is deferred behind \<open>Close\<close>, has not been cancelled.\<close>

theorem startup_outcome:
  assumes "run B fl env events (w, []) = (res, (w', tr))"
  shows "(Load fl env = Inl e \<longrightarrow> res = Inl e \<and> tr = [])
    \<and> ((\<exists>err. res = Inl err) \<and> (\<forall>port mport d. Serving port mport d \<notin> set tr) \<and> unclosed [] tr = Some []
       \<or> (\<exists>cfg pool d. Load fl env = Inr cfg \<and> dependencies_up B cfg pool \<and> Serving (cf_APIPort cfg) (cf_MetricsPort cfg) d \<in> set tr
            \<and> dp_Tokens d = NewTokenIssuer (cf_JWTSecret cfg) (cf_AccessTokenTTL cfg) (cf_RefreshTokenTTL cfg)
            \<and> dp_AuthSvc d = authSvc (dp_Tokens d) \<and> dp_JobSvc d = jobSvc
            \<and> (case await events of
                 None \<Rightarrow> res = Inr None \<and> unclosed [] tr = Some [RedisOpened, PoolOpened]
               | Some stop \<Rightarrow>
                   if listener_holds events
                   then res = Inr None \<and> unclosed [] tr = Some [PoolOpened] \<and> last tr = ClosingPool \<and> Cancelled \<notin> set tr
                   else unclosed [] tr = Some [] \<and> last tr = Cancelled \<and> (case stop of
                       Some err \<Rightarrow> res = Inl err
                     | None \<Rightarrow> res \<noteq> Inr None \<and> MetricsStopped \<in> set tr \<and> ServerStopped \<in> set tr))))
    \<and> (res = Inr (Some ()) \<longrightarrow> StopSignal \<in> set events \<and> \<not> listener_holds events)"
proof -
  have "\<exists>err. res = Inl err" if "res \<noteq> Inr None" "res \<noteq> Inr (Some ())" using that by (cases res) auto
  then show ?thesis
    using run_trace [OF assms] await_cases(1) [of events]
    by (elim disjE exE)
      (auto simp: main_deps_def Let_def shutdown_trace_def shutdown_result_def split: option.splits)
qed

text \<open>The exit status is 0 only after a signal, and 1 whenever the environment is not a valid configuration.\<close>

lemma main_exit_outcome:
  "main_exit B fl env events w = Some 0 \<Longrightarrow> StopSignal \<in> set events" "Load fl env = Inl e \<Longrightarrow> main_exit B fl env events w = Some 1"
proof -
  obtain res w' tr where r: "run B fl env events (w, []) = (res, (w', tr))" by (metis prod.collapse)
  show "StopSignal \<in> set events" if "main_exit B fl env events w = Some 0"
    using run_trace [OF r] await_cases(1) [of events] that r
    by (auto simp: main_exit_def shutdown_result_def split: sum.splits option.splits if_splits)
  show "main_exit B fl env events w = Some 1" if "Load fl env = Inl e"
    using run_trace [OF r] that r by (auto simp: main_exit_def)
qed

text \<open>A process that starts, serves and is stopped after the listener lost its connection, one whose listener keeps it, and one whose
  database does not answer.\<close>

definition toy_boot :: "bool \<Rightarrow> (unit, unit) boot_lib" where
  "toy_boot up = \<lparr>bl_pgxpool_New = (\<lambda>_. ret ()), bl_pool_Ping = (\<lambda>_. if up then ret () else fail (ErrIO ''refused'')), bl_redis_Ping = (\<lambda>_. ret ()),
     bl_minio_New = (\<lambda>_ _ _ _ _. Inr ()), bl_BucketExists = (\<lambda>_ _. ret False), bl_MakeBucket = (\<lambda>_ _ _. ret ()),
     bl_metrics_Shutdown = ret (), bl_server_Shutdown = ret (), bl_Logger = (\<lambda>_ w. w), bl_url_Parse = Some, bl_ws_Handler = (\<lambda>_ _. Healthz)\<rparr>"

definition toy_environ :: environ where
  "toy_environ k = (if k \<in> {''ACCESS_TOKEN_TTL'', ''REFRESH_TOKEN_TTL''} then ''0'' else if k = ''S3_USE_SSL'' then ''false'' else ''8080'')"

definition toy_run :: "bool \<Rightarrow> serve_event list \<Rightarrow> (error + unit option) \<times> (world \<times> action list)" where
  "toy_run up rest = run (toy_boot up) (\<lambda>_ _ _. 0) toy_environ ([ListenerAcquired, ServeReturned ErrServerClosed, StopSignal] @ rest) (auth_world, [])"

lemma toy_environ_loads: "\<exists>cfg. Load (\<lambda>_ _ _. 0) toy_environ = Inr cfg \<and> cf_S3PublicEndpoint cfg = cf_S3Endpoint cfg"
proof -
  have d: "ParseDuration (\<lambda>_ _ _. 0) ''0'' = Some 0" and b: "ParseBool ''false'' = Some False"
    by (simp_all add: ParseDuration_def ParseBool_def)
  show ?thesis by (simp add: Load_def requireEnv_def requireEnvBool_def requireEnvDuration_def optionalEnv_def toy_environ_def d b)
qed

lemma toy_runs:
  "fst (toy_run True [ListenerReleased]) = Inr (Some ())" "fst (toy_run True []) = Inr None"
  "fst (toy_run False []) = Inl (Errorf ''store: ping database'' (ErrIO ''refused''))"
proof -
  obtain cfg where l: "Load (\<lambda>_ _ _. 0) toy_environ = Inr cfg" and e: "cf_S3PublicEndpoint cfg = cf_S3Endpoint cfg" using toy_environ_loads by blast
  have o: "objectstore_New (toy_boot True) (store_config cfg) s = (Inr \<lparr>ob_mc = (), ob_signer = (), ob_bucket = cf_S3Bucket cfg\<rparr>, s)" for s
    by (cases s) (simp add: objectstore_New_def toy_boot_def store_config_def e proc_defs)
  have n: "NewPool (toy_boot True) url (w, tr) = (Inr (), (w, tr @ [PoolOpened]))" and p: "bl_redis_Ping (toy_boot True) addr = ret ()" for url addr w tr
    by (simp_all add: NewPool_def proc_defs toy_boot_def)
  have v: "serve (toy_boot True) cfg d ([ListenerAcquired, ServeReturned ErrServerClosed, StopSignal] @ rest) (w, tr) =
      (Inr (Some ()), (w, tr @ background @ [Serving (cf_APIPort cfg) (cf_MetricsPort cfg) d, MetricsStopped, ServerStopped]))" for d w tr and rest :: "serve_event list"
    by (simp add: serve_def toy_boot_def proc_defs)
  note toys = toy_run_def run_def l n p v o [unfolded store_config_def] proc_defs deferring_Close_def listener_holds_def
  show "fst (toy_run True [ListenerReleased]) = Inr (Some ())" "fst (toy_run True []) = Inr None"
    using v [where rest = "[ListenerReleased]"] v [where rest = "[]"] by (simp_all add: toys split: prod.splits)
  show "fst (toy_run False []) = Inl (Errorf ''store: ping database'' (ErrIO ''refused''))"
    by (simp add: toy_run_def run_def l NewPool_def proc_defs toy_boot_def)
qed

theorem startup_outcome_witness:
  "unclosed [] (snd (snd (toy_run True [ListenerReleased]))) = Some [] \<and> ServerStopped \<in> set (snd (snd (toy_run True [ListenerReleased])))
    \<and> last (snd (snd (toy_run True []))) = ClosingPool \<and> Cancelled \<notin> set (snd (snd (toy_run True [])))
    \<and> unclosed [] (snd (snd (toy_run False []))) = Some [] \<and> (\<forall>p m d. Serving p m d \<notin> set (snd (snd (toy_run False []))))"
proof -
  obtain w1 tr1 where t: "toy_run True [ListenerReleased] = (Inr (Some ()), (w1, tr1))" using toy_runs(1) by (metis prod.collapse)
  obtain w3 tr3 where h: "toy_run True [] = (Inr None, (w3, tr3))" using toy_runs(2) by (metis prod.collapse)
  obtain w2 tr2 where f: "toy_run False [] = (Inl (Errorf ''store: ping database'' (ErrIO ''refused'')), (w2, tr2))" using toy_runs(3) by (metis prod.collapse)
  have down: "\<not> dependencies_up (toy_boot False) cfg pool" for cfg pool by (simp add: dependencies_up_def toy_boot_def)
  from startup_outcome [OF t [unfolded toy_run_def]] startup_outcome [OF h [unfolded toy_run_def]] startup_outcome [OF f [unfolded toy_run_def]] down
  show ?thesis by (auto simp: t h f listener_holds_def)
qed

end
